(* ===== verification/Mctx_Prelude.thy ===== *)
theory Mctx_Prelude
  imports Main "HOL-Library.Word"
begin

text \<open>
  Shared vocabulary of the development: Rust results and panics as sum types, checked
  slice accesses, the state-and-failure type of operations that call the operating system,
  big-endian byte conversions, and the generic facts on lists and words that the
  component theories use.

  A Rust \<open>Result<T, E>\<close> is \<open>'e + 't\<close> (\<open>Err\<close> left, \<open>Ok\<close> right). Code that can
  panic (\<open>unreachable!\<close>, \<open>expect\<close>, an index out of bounds) has the error type
  \<open>'e failure\<close>, so that the absence of panics is a theorem and not a convention. An
  operation that calls the operating system is a function of the world \<open>'w\<close> the calls
  read and change.
\<close>

unbundle bit_operations_syntax

section \<open>Collections of the development\<close>

named_theorems mctx_result \<open>case analysis of results and of operations on the world\<close>
named_theorems mctx_panic \<open>introduction rules for the absence of panics\<close>
named_theorems mctx_quiet \<open>operations that issue no recorded call\<close>
named_theorems mctx_bytes \<open>bits and sizes of byte conversions\<close>

section \<open>Machine integers of the source\<close>

type_synonym u8 = "8 word"
type_synonym u16 = "16 word"
type_synonym u32 = "32 word"
type_synonym u64 = "64 word"
type_synonym i32 = "32 word"
type_synonym bytes = "u8 list"

section \<open>Results\<close>

abbreviation (input) Ok :: "'a \<Rightarrow> 'e + 'a" where "Ok \<equiv> Inr"
abbreviation (input) Err :: "'e \<Rightarrow> 'e + 'a" where "Err \<equiv> Inl"

text \<open>Why an operation did not return normally: an error value, or a panic.\<close>

datatype 'e failure = Raised 'e | Panicked

definition and_then :: "'e + 'a \<Rightarrow> ('a \<Rightarrow> 'e + 'b) \<Rightarrow> 'e + 'b" where
  "and_then r f = (case r of Inl e \<Rightarrow> Inl e | Inr x \<Rightarrow> f x)"

definition ok_or :: "'e \<Rightarrow> 'a option \<Rightarrow> 'e + 'a" where
  "ok_or e x = (case x of None \<Rightarrow> Inl e | Some y \<Rightarrow> Inr y)"

definition ok :: "'e + 'a \<Rightarrow> 'a option" where
  "ok r = (case r of Inl _ \<Rightarrow> None | Inr x \<Rightarrow> Some x)"

definition is_ok :: "'e + 'a \<Rightarrow> bool" where
  "is_ok r = (case r of Inl _ \<Rightarrow> False | Inr _ \<Rightarrow> True)"

definition or_else :: "'a option \<Rightarrow> 'a option \<Rightarrow> 'a option" where
  "or_else x y = (case x of None \<Rightarrow> y | Some a \<Rightarrow> Some a)"

text \<open>A result of code that cannot panic, used where panics are possible.\<close>

definition lift_res :: "'e + 'a \<Rightarrow> 'e failure + 'a" where
  "lift_res r = (case r of Inl e \<Rightarrow> Inl (Raised e) | Inr x \<Rightarrow> Inr x)"

definition no_panic :: "'e failure + 'a \<Rightarrow> bool" where
  "no_panic r \<longleftrightarrow> r \<noteq> Inl Panicked"

lemma and_then_simps [simp]:
  "and_then (Inl e) f = Inl e"
  "and_then (Inr x) f = f x"
  by (simp_all add: and_then_def)

lemma and_then_eq_Ok [mctx_result]:
  "and_then r f = Inr y \<longleftrightarrow> (\<exists>x. r = Inr x \<and> f x = Inr y)"
  by (cases r) simp_all

lemma and_then_eq_Err [mctx_result]:
  "and_then r f = Inl e \<longleftrightarrow> r = Inl e \<or> (\<exists>x. r = Inr x \<and> f x = Inl e)"
  by (cases r) simp_all

lemma and_then_assoc: "and_then (and_then r f) g = and_then r (\<lambda>x. and_then (f x) g)"
  by (cases r) simp_all

lemma ok_or_simps [simp]: "ok_or e None = Inl e" "ok_or e (Some x) = Inr x"
  by (simp_all add: ok_or_def)

lemma ok_or_eq [mctx_result]:
  "ok_or e x = Inr y \<longleftrightarrow> x = Some y"
  "ok_or e x = Inl e' \<longleftrightarrow> x = None \<and> e' = e"
  by (auto simp: ok_or_def split: option.splits)

lemma ok_simps [simp]: "ok (Inl e) = None" "ok (Inr x) = Some x"
  by (simp_all add: ok_def)

lemma is_ok_simps [simp]: "\<not> is_ok (Inl e)" "is_ok (Inr x)"
  by (simp_all add: is_ok_def)

lemma or_else_simps [simp]: "or_else None y = y" "or_else (Some x) y = Some x"
  by (simp_all add: or_else_def)

lemma lift_res_simps [simp]:
  "lift_res (Inl e) = Inl (Raised e)" "lift_res (Inr x) = Inr x"
  by (simp_all add: lift_res_def)

lemma lift_res_eq [mctx_result]:
  "lift_res r = Inr x \<longleftrightarrow> r = Inr x"
  "lift_res r = Inl f \<longleftrightarrow> (\<exists>e. r = Inl e \<and> f = Raised e)"
  by (cases r; auto)+

lemma no_panic_simps [simp]:
  "no_panic (Inr x)" "no_panic (Inl f) \<longleftrightarrow> f \<noteq> Panicked"
  by (simp_all add: no_panic_def)

lemma no_panic_lift [simp, mctx_panic]: "no_panic (lift_res r)"
  by (cases r) simp_all

lemma no_panic_and_then [mctx_panic]:
  assumes "no_panic r" and "\<And>x. r = Inr x \<Longrightarrow> no_panic (f x)"
  shows "no_panic (and_then r f)"
  using assms by (cases r) (auto simp: no_panic_def)

section \<open>Checked slice accesses\<close>

text \<open>
  \<open>idx xs i k\<close> continues with \<open>xs[i]\<close>, and panics where Rust's bounds check does.
  \<open>slice xs a b k\<close> continues with \<open>&xs[a..b]\<close>.
\<close>

definition idx :: "'a list \<Rightarrow> nat \<Rightarrow> ('a \<Rightarrow> 'e failure + 'b) \<Rightarrow> 'e failure + 'b" where
  "idx xs i k = (if i < length xs then k (xs ! i) else Inl Panicked)"

definition slice :: "'a list \<Rightarrow> nat \<Rightarrow> nat \<Rightarrow> ('a list \<Rightarrow> 'e failure + 'b) \<Rightarrow> 'e failure + 'b" where
  "slice xs a b k = (if a \<le> b \<and> b \<le> length xs then k (take (b - a) (drop a xs)) else Inl Panicked)"

text \<open>\<open>upd xs i v k\<close> continues after \<open>xs[i] = v\<close>.\<close>

definition upd :: "'a list \<Rightarrow> nat \<Rightarrow> 'a \<Rightarrow> ('a list \<Rightarrow> 'e failure + 'b) \<Rightarrow> 'e failure + 'b" where
  "upd xs i v k = (if i < length xs then k (xs[i := v]) else Inl Panicked)"

lemma upd_in [simp]: "i < length xs \<Longrightarrow> upd xs i v k = k (xs[i := v])"
  by (simp add: upd_def)

lemma idx_in [simp]: "i < length xs \<Longrightarrow> idx xs i k = k (xs ! i)"
  by (simp add: idx_def)

lemma slice_in [simp]: "a \<le> b \<Longrightarrow> b \<le> length xs \<Longrightarrow> slice xs a b k = k (take (b - a) (drop a xs))"
  by (simp add: slice_def)

text \<open>Congruence rules, for recursion inside a continuation.\<close>

lemma slice_cong [fundef_cong]:
  "xs = xs' \<Longrightarrow> a = a' \<Longrightarrow> b = b' \<Longrightarrow>
   (\<And>x. a' \<le> b' \<Longrightarrow> b' \<le> length xs' \<Longrightarrow> x = take (b' - a') (drop a' xs') \<Longrightarrow> k x = k' x) \<Longrightarrow>
   slice xs a b k = slice xs' a' b' k'"
  by (simp add: slice_def)

text \<open>\<open>Vec::swap_remove\<close>: the last element takes the place of the removed one.\<close>

definition swap_remove :: "'a list \<Rightarrow> nat \<Rightarrow> 'e failure + ('a \<times> 'a list)" where
  "swap_remove xs i =
     (if i < length xs then Inr (xs ! i, butlast (xs[i := last xs])) else Inl Panicked)"

text \<open>\<open>Iterator::position\<close>\<close>

fun position :: "('a \<Rightarrow> bool) \<Rightarrow> 'a list \<Rightarrow> nat option" where
  "position p [] = None"
| "position p (x # xs) = (if p x then Some 0 else map_option Suc (position p xs))"

lemma position_Some:
  "position p xs = Some i \<Longrightarrow> i < length xs \<and> p (xs ! i) \<and> (\<forall>j < i. \<not> p (xs ! j))"
proof (induction xs arbitrary: i)
  case (Cons x xs)
  show ?case
  proof (cases "p x")
    case False
    with Cons.prems obtain k where k: "position p xs = Some k" "i = Suc k" by auto
    from Cons.IH [OF k(1)] False k(2) show ?thesis by (auto simp: nth_Cons split: nat.splits)
  qed (use Cons.prems in auto)
qed simp

lemma position_None: "position p xs = None \<longleftrightarrow> (\<forall>x \<in> set xs. \<not> p x)"
  by (induction xs) auto

lemma find_position: "find p xs = map_option (\<lambda>i. xs ! i) (position p xs)"
  by (induction xs) (auto simp: option.map_comp comp_def)

text \<open>
  What \<open>swap_remove\<close> does to a list with distinct keys: the removed key disappears, the
  order of the others changes only in that the last element may move to the hole.
\<close>

lemma swap_remove_Ok:
  "i < length xs \<Longrightarrow> swap_remove xs i = Inr (xs ! i, butlast (xs[i := last xs]))"
  by (simp add: swap_remove_def)

lemma length_swap_removed [simp]: "length (butlast (xs[i := last xs])) = length xs - 1"
  by simp

lemma nth_swap_removed:
  assumes "j < length xs - 1"
  shows "butlast (xs[i := last xs]) ! j = (if j = i then xs ! (length xs - 1) else xs ! j)"
proof -
  have "xs \<noteq> []" using assms by auto
  then show ?thesis using assms by (auto simp: nth_butlast nth_list_update last_conv_nth)
qed

lemma set_swap_removed:
  assumes "i < length xs" and "distinct (map f xs)"
  shows "set (butlast (xs[i := last xs])) = {x \<in> set xs. f x \<noteq> f (xs ! i)}"
proof -
  let ?n = "length xs - 1"
  have inj: "f (xs ! a) = f (xs ! b) \<longleftrightarrow> a = b" if "a < length xs" "b < length xs" for a b
    using assms(2) that by (simp add: distinct_conv_nth) (metis length_map nth_map)
  have "set (butlast (xs[i := last xs])) = (!) (butlast (xs[i := last xs])) ` {..<?n}"
    by (auto simp: set_conv_nth)
  also have "\<dots> = (\<lambda>j. if j = i then xs ! ?n else xs ! j) ` {..<?n}"
    by (rule image_cong) (simp_all add: nth_swap_removed)
  also have "\<dots> = (!) xs ` ({..<length xs} - {i})"
  proof (intro equalityI subsetI)
    fix x assume "x \<in> (!) xs ` ({..<length xs} - {i})"
    then obtain j where j: "j < length xs" "j \<noteq> i" "x = xs ! j" by auto
    show "x \<in> (\<lambda>j. if j = i then xs ! ?n else xs ! j) ` {..<?n}"
    proof (cases "j = ?n")
      case True
      with j assms(1) have "i < ?n" by simp
      with True j show ?thesis by (auto intro: image_eqI [where x = i])
    next
      case False
      with j have "j < ?n" by simp
      with j show ?thesis by (auto intro: image_eqI [where x = j])
    qed
  qed (auto simp: image_iff split: if_splits)
  also have "\<dots> = {x \<in> set xs. f x \<noteq> f (xs ! i)}"
    using inj assms(1) by (force simp: set_conv_nth)
  finally show ?thesis .
qed

lemma distinct_swap_removed:
  assumes "distinct (map f xs)"
  shows "distinct (map f (butlast (xs[i := last xs])))"
proof (cases "xs = []")
  case False
  have inj: "f (xs ! a) = f (xs ! b) \<longleftrightarrow> a = b" if "a < length xs" "b < length xs" for a b
    using assms that by (simp add: distinct_conv_nth) (metis length_map nth_map)
  show ?thesis
    unfolding distinct_conv_nth using False
    by (auto simp: nth_swap_removed inj split: if_splits)
qed simp

text \<open>In a list with distinct keys, \<open>find\<close> is the map from keys to elements.\<close>

lemma find_key:
  assumes "distinct (map f xs)"
  shows "find (\<lambda>x. f x = k) xs = Some y \<longleftrightarrow> y \<in> set xs \<and> f y = k"
  using assms by (induction xs) (auto simp: image_iff)

lemma find_key_None: "find (\<lambda>x. f x = k) xs = None \<longleftrightarrow> k \<notin> f ` set xs"
  by (induction xs) auto

lemma find_key_append:
  "find (\<lambda>x. f x = k) (xs @ [y]) =
     (case find (\<lambda>x. f x = k) xs of Some z \<Rightarrow> Some z | None \<Rightarrow> if f y = k then Some y else None)"
  by (induction xs) auto

lemma find_key_swap_removed:
  assumes "i < length xs" and "distinct (map f xs)"
  shows "find (\<lambda>x. f x = k) (butlast (xs[i := last xs])) =
    (if k = f (xs ! i) then None else find (\<lambda>x. f x = k) xs)"
proof -
  note set = set_swap_removed [OF assms] and dist = distinct_swap_removed [OF assms(2), of i]
  show ?thesis
  proof (cases "k = f (xs ! i)")
    case True
    have "k \<notin> f ` set (butlast (xs[i := last xs]))" unfolding set using True by blast
    then show ?thesis using True by (simp add: find_key_None)
  next
    case False
    show ?thesis
    proof (cases "find (\<lambda>x. f x = k) xs")
      case None
      then have "k \<notin> f ` set (butlast (xs[i := last xs]))" unfolding set by (auto simp: find_key_None)
      then have "find (\<lambda>x. f x = k) (butlast (xs[i := last xs])) = None" by (simp only: find_key_None not_False_eq_True)
      then show ?thesis using False None by simp
    next
      case (Some y)
      then have "y \<in> set xs" "f y = k" by (simp_all add: find_key [OF assms(2)])
      then have "y \<in> set (butlast (xs[i := last xs]))" unfolding set using False by simp
      then have "find (\<lambda>x. f x = k) (butlast (xs[i := last xs])) = Some y"
        using find_key [OF dist] \<open>f y = k\<close> by blast
      then show ?thesis using False Some by simp
    qed
  qed
qed

lemma card_dom_find_key:
  assumes "distinct (map f xs)"
  shows "finite (dom (\<lambda>k. find (\<lambda>x. f x = k) xs)) \<and> card (dom (\<lambda>k. find (\<lambda>x. f x = k) xs)) = length xs"
proof -
  have "dom (\<lambda>k. find (\<lambda>x. f x = k) xs) = f ` set xs"
    using find_key_None [of f _ xs] by (auto simp: dom_def)
  moreover have "card (f ` set xs) = length xs"
    using distinct_card [OF assms] by simp
  ultimately show ?thesis by simp
qed

section \<open>Operations on the world\<close>

type_synonym ('w, 'e, 'a) io = "'w \<Rightarrow> ('e failure + 'a) \<times> 'w"

definition io_return :: "'a \<Rightarrow> ('w, 'e, 'a) io" where
  "io_return x = (\<lambda>w. (Inr x, w))"

definition io_raise :: "'e \<Rightarrow> ('w, 'e, 'a) io" where
  "io_raise e = (\<lambda>w. (Inl (Raised e), w))"

definition io_res :: "'e failure + 'a \<Rightarrow> ('w, 'e, 'a) io" where
  "io_res r = (\<lambda>w. (r, w))"

text \<open>
  The \<open>?\<close> operator: continue with the value, or return the failure with the world as the
  calls made so far left it.
\<close>

definition io_then :: "('w, 'e, 'a) io \<Rightarrow> ('a \<Rightarrow> ('w, 'e, 'b) io) \<Rightarrow> ('w, 'e, 'b) io" where
  "io_then m f = (\<lambda>w. case m w of (Inl e, w') \<Rightarrow> (Inl e, w') | (Inr x, w') \<Rightarrow> f x w')"

text \<open>A system call with the error conversion of \<open>.map_err(\<dots>)\<close>.\<close>

definition io_sys :: "('x \<Rightarrow> 'e) \<Rightarrow> ('w \<Rightarrow> ('x + 'a) \<times> 'w) \<Rightarrow> ('w, 'e, 'a) io" where
  "io_sys conv call = (\<lambda>w. case call w of (Inl x, w') \<Rightarrow> (Inl (Raised (conv x)), w') | (Inr y, w') \<Rightarrow> (Inr y, w'))"

text \<open>The result of a system call as a value (\<open>let Ok(x) = \<dots> else\<close>, \<open>match\<close>).\<close>

definition io_try :: "('w \<Rightarrow> ('x + 'a) \<times> 'w) \<Rightarrow> ('w, 'e, 'x + 'a) io" where
  "io_try call = (\<lambda>w. case call w of (r, w') \<Rightarrow> (Inr r, w'))"

definition io_when :: "bool \<Rightarrow> ('w, 'e, unit) io \<Rightarrow> ('w, 'e, unit) io" where
  "io_when b m = (if b then m else io_return ())"

lemma io_simps [simp]:
  "io_return x w = (Inr x, w)"
  "io_raise e w = (Inl (Raised e), w)"
  "io_res r w = (r, w)"
  by (simp_all add: io_return_def io_raise_def io_res_def)

lemma io_when_simps [simp]: "io_when True m = m" "io_when False m = io_return ()"
  by (simp_all add: io_when_def)

lemma io_then_apply [simp]:
  "m w = (Inl e, w') \<Longrightarrow> io_then m f w = (Inl e, w')"
  "m w = (Inr x, w') \<Longrightarrow> io_then m f w = f x w'"
  by (simp_all add: io_then_def)

lemma io_then_eq_Ok [mctx_result]:
  "io_then m f w = (Inr y, w'') \<longleftrightarrow> (\<exists>x w'. m w = (Inr x, w') \<and> f x w' = (Inr y, w''))"
  by (auto simp: io_then_def split: prod.splits sum.splits)

lemma io_then_eq_Err [mctx_result]:
  "io_then m f w = (Inl e, w'') \<longleftrightarrow>
     m w = (Inl e, w'') \<or> (\<exists>x w'. m w = (Inr x, w') \<and> f x w' = (Inl e, w''))"
  by (auto simp: io_then_def split: prod.splits sum.splits)

lemma io_sys_eq_Ok [mctx_result]: "io_sys conv call w = (Inr y, w') \<longleftrightarrow> call w = (Inr y, w')"
  by (auto simp: io_sys_def split: prod.splits sum.splits)

lemma io_sys_eq_Err [mctx_result]:
  "io_sys conv call w = (Inl f, w') \<longleftrightarrow> (\<exists>x. call w = (Inl x, w') \<and> f = Raised (conv x))"
  by (auto simp: io_sys_def split: prod.splits sum.splits)

lemma io_try_eq [mctx_result]:
  "io_try call w = (Inr r, w') \<longleftrightarrow> call w = (r, w')"
  "io_try call w \<noteq> (Inl f, w')"
  by (auto simp: io_try_def split: prod.splits)

text \<open>An operation that panics in no world.\<close>

definition io_safe :: "('w, 'e, 'a) io \<Rightarrow> bool" where
  "io_safe m \<longleftrightarrow> (\<forall>w. no_panic (fst (m w)))"

lemma io_safeD: "io_safe m \<Longrightarrow> m w \<noteq> (Inl Panicked, w')"
  by (auto simp: io_safe_def no_panic_def) (metis fst_conv)

lemma io_safe_intros [mctx_panic]:
  "io_safe (io_return x)"
  "io_safe (io_raise e)"
  "io_safe (io_sys conv call)"
  "io_safe (io_try call)"
  by (auto simp: io_safe_def io_sys_def io_try_def split: prod.splits sum.splits)

lemma io_safe_res [mctx_panic]: "no_panic r \<Longrightarrow> io_safe (io_res r)"
  by (simp add: io_safe_def)

lemma io_safe_when [mctx_panic]: "(b \<Longrightarrow> io_safe m) \<Longrightarrow> io_safe (io_when b m)"
  by (cases b) (simp_all add: io_safe_def)

lemma io_safe_then [mctx_panic]:
  assumes "io_safe m" and "\<And>x w w'. m w = (Inr x, w') \<Longrightarrow> io_safe (f x)"
  shows "io_safe (io_then m f)"
  unfolding io_safe_def
proof
  fix w
  obtain r w' where mw: "m w = (r, w')" by (cases "m w")
  then have "no_panic r" using assms(1) by (metis fst_conv io_safe_def)
  then show "no_panic (fst (io_then m f w))"
    using mw assms(2) [of w _ w'] by (cases r) (auto simp: io_safe_def)
qed

section \<open>Bytes and words\<close>

lemma word_eq_iff_bits: "a = b \<longleftrightarrow> (\<forall>n < LENGTH('a). bit a n = bit b n)" for a b :: "'a :: len word"
  by (auto intro: bit_word_eqI)

lemma unat_u64_less: "unat (a :: u64) < 18446744073709551616"
  using unsigned_less [of a] by simp

lemma less_word_plus_one: "n \<noteq> - 1 \<Longrightarrow> n < n + 1" for n :: u64
proof -
  assume "n \<noteq> - 1"
  then have "unat n \<noteq> unat (- 1 :: u64)" by (simp add: word_unat_eq_iff)
  then have "unat n + 1 < 2 ^ 64"
    using unat_u64_less [of n] by (simp add: unsigned_minus_1_eq_mask mask_eq_exp_minus_1)
  then show ?thesis by (simp add: word_less_nat_alt unat_word_ariths)
qed

text \<open>\<open>u16::from_be_bytes\<close>, \<open>u16::to_be_bytes\<close>\<close>

definition u16_from_be :: "u8 \<Rightarrow> u8 \<Rightarrow> u16" where
  "u16_from_be a b = push_bit 8 (ucast a) OR ucast b"

definition u16_to_be :: "u16 \<Rightarrow> u8 \<times> u8" where
  "u16_to_be w = (ucast (drop_bit 8 w), ucast w)"

lemma unat_u8_less: "unat (a :: u8) < 256"
  using unsigned_less [of a] by simp

lemma unat_u16_less: "unat (a :: u16) < 65536"
  using unsigned_less [of a] by simp

lemma unat_u16_from_be [mctx_bytes]: "unat (u16_from_be a b) = 256 * unat a + unat b"
proof -
  have disj: "push_bit 8 (ucast a :: u16) AND ucast b = 0"
    by (rule bit_word_eqI) (auto simp: bit_simps dest: bit_imp_le_length)
  have "u16_from_be a b = push_bit 8 (ucast a) + ucast b"
    unfolding u16_from_be_def using disj by (rule disjunctive_add_eq_or [symmetric])
  also have "unat \<dots> = 256 * unat a + unat b"
  proof -
    have u: "unat (ucast x :: u16) = unat x" for x :: u8
      using unat_u8_less [of x] by (simp add: unsigned_ucast_eq take_bit_eq_mod)
    have "256 * unat a + unat b < 65536"
      using unat_u8_less [of a] unat_u8_less [of b] by linarith
    then show ?thesis by (simp add: push_bit_eq_mult unat_word_ariths u mult.commute)
  qed
  finally show ?thesis .
qed

lemma u16_be_roundtrip [simp]: "u16_to_be w = (a, b) \<Longrightarrow> u16_from_be a b = w"
  by (rule bit_word_eqI)
     (auto simp: u16_to_be_def u16_from_be_def bit_simps dest: bit_imp_le_length)

end
