(* ===== verification/Net_Addr.thy ===== *)
theory Net_Addr
  imports Mctx_Prelude
begin

text \<open>
  The part of \<open>std::net\<close> that the sources use: IPv4 and IPv6 addresses with their
  classification predicates, and socket addresses. An IPv4 address is its four octets; an
  IPv6 address is a 128-bit word in network order, so octet 0 is the most significant one.
  The lemmas give the octet conversions as mutually inverse bijections.
\<close>

section \<open>Addresses\<close>

datatype ipv4_addr = Ipv4Addr u8 u8 u8 u8

type_synonym ipv6_addr = "128 word"

datatype ip_addr = V4 ipv4_addr | V6 ipv6_addr

definition ipv4_unspecified :: ipv4_addr where
  "ipv4_unspecified = Ipv4Addr 0 0 0 0"

fun ipv4_is_unspecified :: "ipv4_addr \<Rightarrow> bool" where
  "ipv4_is_unspecified (Ipv4Addr a b c d) \<longleftrightarrow> a = 0 \<and> b = 0 \<and> c = 0 \<and> d = 0"

fun ipv4_is_multicast :: "ipv4_addr \<Rightarrow> bool" where
  "ipv4_is_multicast (Ipv4Addr a b c d) \<longleftrightarrow> 224 \<le> a \<and> a \<le> 239"

definition ipv6_octet :: "ipv6_addr \<Rightarrow> nat \<Rightarrow> u8" where
  "ipv6_octet a i = ucast (drop_bit (8 * (15 - i)) a)"

definition ipv6_octets :: "ipv6_addr \<Rightarrow> bytes" where
  "ipv6_octets a = map (ipv6_octet a) [0..<16]"

definition ipv6_from_octets :: "bytes \<Rightarrow> ipv6_addr" where
  "ipv6_from_octets bs = foldl (\<lambda>a b. push_bit 8 a OR ucast b) 0 bs"

definition ipv6_unspecified :: ipv6_addr where "ipv6_unspecified = 0"

definition ipv6_localhost :: ipv6_addr where "ipv6_localhost = 1"

definition ipv6_is_unspecified :: "ipv6_addr \<Rightarrow> bool" where
  "ipv6_is_unspecified a \<longleftrightarrow> a = 0"

definition ipv6_is_multicast :: "ipv6_addr \<Rightarrow> bool" where
  "ipv6_is_multicast a \<longleftrightarrow> ipv6_octet a 0 = 0xff"

text \<open>\<open>fe80::/10\<close>\<close>

definition ipv6_is_unicast_link_local :: "ipv6_addr \<Rightarrow> bool" where
  "ipv6_is_unicast_link_local a \<longleftrightarrow> (ucast (drop_bit 112 a) :: u16) AND 0xffc0 = 0xfe80"

fun ip_is_unspecified :: "ip_addr \<Rightarrow> bool" where
  "ip_is_unspecified (V4 a) = ipv4_is_unspecified a"
| "ip_is_unspecified (V6 a) = ipv6_is_unspecified a"

fun ip_is_multicast :: "ip_addr \<Rightarrow> bool" where
  "ip_is_multicast (V4 a) = ipv4_is_multicast a"
| "ip_is_multicast (V6 a) = ipv6_is_multicast a"

section \<open>Socket addresses\<close>

record socket_addr_v4 =
  sa4_ip :: ipv4_addr
  sa4_port :: u16

record socket_addr_v6 =
  sa6_ip :: ipv6_addr
  sa6_port :: u16
  sa6_flowinfo :: u32
  sa6_scope_id :: u32

datatype socket_addr = SockV4 socket_addr_v4 | SockV6 socket_addr_v6

definition socket_addr_v4_new :: "ipv4_addr \<Rightarrow> u16 \<Rightarrow> socket_addr_v4" where
  "socket_addr_v4_new ip port = \<lparr>sa4_ip = ip, sa4_port = port\<rparr>"

definition socket_addr_v6_new :: "ipv6_addr \<Rightarrow> u16 \<Rightarrow> u32 \<Rightarrow> u32 \<Rightarrow> socket_addr_v6" where
  "socket_addr_v6_new ip port flowinfo scope_id =
     \<lparr>sa6_ip = ip, sa6_port = port, sa6_flowinfo = flowinfo, sa6_scope_id = scope_id\<rparr>"

fun sock_ip :: "socket_addr \<Rightarrow> ip_addr" where
  "sock_ip (SockV4 a) = V4 (sa4_ip a)"
| "sock_ip (SockV6 a) = V6 (sa6_ip a)"

fun sock_port :: "socket_addr \<Rightarrow> u16" where
  "sock_port (SockV4 a) = sa4_port a"
| "sock_port (SockV6 a) = sa6_port a"

section \<open>Facts on addresses\<close>

lemma ipv4_is_unspecified_iff: "ipv4_is_unspecified a \<longleftrightarrow> a = ipv4_unspecified"
  by (cases a) (auto simp: ipv4_unspecified_def)

lemma multicast_not_unspecified: "ip_is_multicast a \<Longrightarrow> \<not> ip_is_unspecified a"
proof (cases a)
  case (V4 x)
  then show "ip_is_multicast a \<Longrightarrow> \<not> ip_is_unspecified a" by (cases x) auto
next
  case (V6 x)
  then show "ip_is_multicast a \<Longrightarrow> \<not> ip_is_unspecified a"
    by (auto simp: ipv6_is_multicast_def ipv6_is_unspecified_def ipv6_octet_def)
qed

lemma length_ipv6_octets [simp]: "length (ipv6_octets a) = 16"
  by (simp add: ipv6_octets_def)

lemma nth_ipv6_octets [simp]: "i < 16 \<Longrightarrow> ipv6_octets a ! i = ipv6_octet a i"
  by (simp add: ipv6_octets_def)

lemma bit_ipv6_octet [mctx_bytes]:
  "i < 16 \<Longrightarrow> bit (ipv6_octet a i) n \<longleftrightarrow> n < 8 \<and> bit a (8 * (15 - i) + n)"
  by (auto simp: ipv6_octet_def bit_simps dest: bit_imp_le_length)

lemma bit_ipv6_from_octets:
  assumes "length bs \<le> 16"
  shows "bit (ipv6_from_octets bs) n \<longleftrightarrow> n < 8 * length bs \<and> bit (rev bs ! (n div 8)) (n mod 8)"
  using assms
proof (induction bs arbitrary: n rule: rev_induct)
  case Nil
  then show ?case by (simp add: ipv6_from_octets_def)
next
  case (snoc b bs)
  have unfold: "ipv6_from_octets (bs @ [b]) = push_bit 8 (ipv6_from_octets bs) OR ucast b"
    by (simp add: ipv6_from_octets_def)
  show ?case
  proof (cases "n < 8")
    case True
    then show ?thesis using snoc.prems by (simp add: unfold bit_simps)
  next
    case False
    then obtain m where m: "n = m + 8" by (metis add.commute le_Suc_ex not_less)
    have lim: "m + 8 < 128 \<or> \<not> m < 8 * length bs" using snoc.prems by auto
    have "bit (ipv6_from_octets (bs @ [b])) n \<longleftrightarrow> m + 8 < 128 \<and> bit (ipv6_from_octets bs) m"
      by (auto simp: unfold m bit_simps dest: bit_imp_le_length)
    also have "\<dots> \<longleftrightarrow> m < 8 * length bs \<and> bit (rev bs ! (m div 8)) (m mod 8)"
      using snoc lim by auto
    finally show ?thesis by (simp add: m div_add_self2)
  qed
qed

lemma ipv6_octet_from_octets [simp]:
  assumes "length bs = 16" and "i < 16"
  shows "ipv6_octet (ipv6_from_octets bs) i = bs ! i"
proof (rule bit_word_eqI)
  fix n assume "n < LENGTH(8)"
  then have n: "n < 8" by simp
  have "(8 * (15 - i) + n) div 8 = 15 - i" "(8 * (15 - i) + n) mod 8 = n"
    using n by simp_all
  moreover have "8 * (15 - i) + n < 128" using n by linarith
  ultimately show "bit (ipv6_octet (ipv6_from_octets bs) i) n = bit (bs ! i) n"
    using assms n by (simp add: bit_ipv6_octet bit_ipv6_from_octets rev_nth)
qed

lemma ipv6_octets_from_octets [simp]:
  "length bs = 16 \<Longrightarrow> ipv6_octets (ipv6_from_octets bs) = bs"
  by (rule nth_equalityI) simp_all

lemma ipv6_from_octets_octets [simp]: "ipv6_from_octets (ipv6_octets a) = a"
proof (rule bit_word_eqI)
  fix n assume "n < LENGTH(128)"
  then have n: "n < 128" by simp
  then have "15 - (15 - n div 8) = n div 8" "n div 8 < 16" by auto
  then show "bit (ipv6_from_octets (ipv6_octets a)) n = bit a n"
    using n by (simp add: bit_ipv6_from_octets rev_nth bit_ipv6_octet)
qed

lemma ipv6_octets_inject: "ipv6_octets a = ipv6_octets b \<longleftrightarrow> a = b"
  by (metis ipv6_from_octets_octets)

text \<open>\<open>fe80::/10\<close> and \<open>ff00::/8\<close> are disjoint: a link-local unicast address is no group.\<close>

lemma link_local_not_multicast: "ipv6_is_unicast_link_local a \<Longrightarrow> \<not> ipv6_is_multicast a"
proof
  assume ll: "ipv6_is_unicast_link_local a" and mc: "ipv6_is_multicast a"
  from mc have "bit (ipv6_octet a 0) 0" by (simp add: ipv6_is_multicast_def bit_simps)
  then have a120: "bit a 120" by (simp add: bit_ipv6_octet)
  from ll have "bit ((ucast (drop_bit 112 a) :: u16) AND 0xffc0) 8 = bit (0xfe80 :: u16) 8"
    by (simp add: ipv6_is_unicast_link_local_def)
  moreover have "bit (0xffc0 :: u16) 8" "\<not> bit (0xfe80 :: u16) 8" by (simp_all add: bit_simps)
  ultimately have "\<not> bit a 120" by (simp add: bit_simps)
  with a120 show False by simp
qed

end
