(* ===== verification/Mctx_Error.thy ===== *)
theory Mctx_Error
  imports Net_Addr
begin

text \<open>
  The error type of the crate (\<open>src/error.rs\<close>) and the part of \<open>std::io::Error\<close> that
  the sources inspect. The text of a formatted message is not rendered: a message is its
  format string together with the values formatted into it, so two messages are equal only
  if the source formats the same values with the same template.
\<close>

section \<open>I/O errors\<close>

text \<open>The kinds the sources test for or create; every other kind is \<open>OtherKind\<close>.\<close>

datatype io_error_kind =
    WouldBlock | Interrupted | AddrInUse | WriteZero | InvalidData | InvalidInput | NotFound | PermissionDenied | OtherKind

datatype fmt_arg = FIp ip_addr | FAddr socket_addr | FNum int | FStr string

type_synonym message = "string \<times> fmt_arg list"

text \<open>
  An I/O error is its kind, the raw operating system code when it has one, and the message
  of an error made by \<open>io::Error::new\<close> or \<open>io::Error::other\<close>.
\<close>

datatype io_error = IoError (io_kind: io_error_kind) (raw_os_error: "i32 option") (io_message: message)

definition io_error_new :: "io_error_kind \<Rightarrow> message \<Rightarrow> io_error" where
  "io_error_new k m = IoError k None m"

text \<open>\<open>io::Error::from_raw_os_error(code)\<close>; \<open>k\<close> is the kind the standard library gives the code.\<close>

definition io_error_os :: "io_error_kind \<Rightarrow> i32 \<Rightarrow> io_error" where
  "io_error_os k code = IoError k (Some code) ('''', [])"

section \<open>Errors of the sender core\<close>

datatype mctx_error =
    InvalidDestinationPort
  | InvalidMulticastGroup
  | InvalidSourcePort
  | InvalidSourceAddress
  | InvalidInterfaceAddress
  | InvalidIpv6InterfaceIndex
  | InvalidRawBindAddress
  | SourceAddressFamilyMismatch
  | OutgoingInterfaceFamilyMismatch
  | RawBindAddressFamilyMismatch
  | Ipv6SourceInterfaceMismatch ip_addr u32 u32
  | Ipv6ScopedMulticastRequiresInterface
  | InterfaceDiscoveryFailed message
  | DuplicatePublication
  | PublicationNotFound
  | SocketCreateFailed io_error
  | SocketOptionFailed io_error
  | SocketBindFailed io_error
  | SocketConnectFailed io_error
  | SocketLocalAddrFailed io_error
  | ExistingSocketAddressFamilyMismatch
  | ExistingSocketPortMismatch u16 u16
  | ExistingSocketAddressMismatch ip_addr ip_addr
  | SendFailed io_error
  | RawPacketTransmitUnsupported message
  | RawSocketCreateFailed io_error
  | RawSocketBindFailed io_error
  | RawSendFailed io_error
  | InvalidRawIpDatagram
  | InvalidRawMulticastDestination
  | RawDatagramSourceMismatch ip_addr ip_addr
  | RawInterfaceRequired
  | RawUnsupportedLinkType message

fun is_would_block :: "mctx_error \<Rightarrow> bool" where
  "is_would_block (SendFailed error) = (io_kind error = WouldBlock)"
| "is_would_block (RawSendFailed error) = (io_kind error = WouldBlock)"
| "is_would_block _ = False"

end
