(* ===== verification/Netlink_Route.thy ===== *)
theory Netlink_Route
  imports Mctx_Error
begin

text \<open>
  The parsers of \<open>src/raw/linux_route.rs\<close> for netlink route dumps and notifications, and the
  choice of a route. Structures are read from the buffer at an offset with the
  source's bounds check; integers are in the byte order of a little-endian host. The loops
  advance by aligned message lengths, which the termination proofs below show to make progress.
\<close>

section \<open>Reading structures\<close>

definition invalid_netlink_data :: "string \<Rightarrow> io_error" where
  "invalid_netlink_data m = io_error_new InvalidData (m, [])"

text \<open>The kinds the standard library gives Linux error codes, as far as the sources look at them.\<close>

definition linux_error_kind :: "int \<Rightarrow> io_error_kind" where
  "linux_error_kind code =
     (if code = 2 then NotFound else if code = 4 then Interrupted else if code = 11 then WouldBlock
      else if code = 1 \<or> code = 13 then PermissionDenied
      else if code = 22 then InvalidInput else if code = 98 then AddrInUse else OtherKind)"

definition from_raw_os_error :: "i32 \<Rightarrow> io_error" where
  "from_raw_os_error code = io_error_os (linux_error_kind (sint code)) code"

type_synonym 'a parse = "io_error failure + 'a"

text \<open>\<open>read_unaligned\<close> for an object of \<open>n\<close> bytes, given as its bytes.\<close>

definition read_unaligned :: "nat \<Rightarrow> bytes \<Rightarrow> nat \<Rightarrow> (bytes \<Rightarrow> 'b parse) \<Rightarrow> 'b parse" where
  "read_unaligned n bs offset k =
     (if offset + n > length bs then Err (Raised (invalid_netlink_data ''truncated netlink message''))
      else k (take n (drop offset bs)))"

lemma read_unaligned_cong [fundef_cong]:
  "n = n' \<Longrightarrow> bs = bs' \<Longrightarrow> offset = offset' \<Longrightarrow>
   (\<And>x. offset' + n' \<le> length bs' \<Longrightarrow> x = take n' (drop offset' bs') \<Longrightarrow> k x = k' x) \<Longrightarrow>
   read_unaligned n bs offset k = read_unaligned n' bs' offset' k'"
  by (simp add: read_unaligned_def)

definition le16 :: "bytes \<Rightarrow> nat \<Rightarrow> u16" where
  "le16 bs i = u16_from_be (bs ! (i + 1)) (bs ! i)"

definition le32 :: "bytes \<Rightarrow> nat \<Rightarrow> u32" where
  "le32 bs i = push_bit 16 (ucast (le16 bs (i + 2))) OR ucast (le16 bs i)"

text \<open>The bytes of an integer in a structure that is sent.\<close>

definition enc16 :: "u16 \<Rightarrow> bytes" where
  "enc16 w = [ucast w, ucast (drop_bit 8 w)]"

definition enc32 :: "u32 \<Rightarrow> bytes" where
  "enc32 w = enc16 (ucast w) @ enc16 (ucast (drop_bit 16 w))"

definition netlink_align :: "nat \<Rightarrow> nat" where
  "netlink_align n = (n + 3) div 4 * 4"

record nlmsghdr =
  nlmsg_len :: u32
  nlmsg_type :: u16
  nlmsg_flags :: u16
  nlmsg_seq :: u32

definition nlmsghdr_of :: "bytes \<Rightarrow> nlmsghdr" where
  "nlmsghdr_of b = \<lparr>nlmsg_len = le32 b 0, nlmsg_type = le16 b 4, nlmsg_flags = le16 b 6, nlmsg_seq = le32 b 8\<rparr>"

record route_message =
  rtm_family :: u8
  rtm_destination_len :: u8
  rtm_table :: u8
  rtm_kind :: u8

definition route_message_of :: "bytes \<Rightarrow> route_message" where
  "route_message_of b = \<lparr>rtm_family = b ! 0, rtm_destination_len = b ! 1, rtm_table = b ! 4, rtm_kind = b ! 7\<rparr>"

record route_next_hop =
  rnh_len :: u16
  rnh_flags :: u8
  rnh_interface_index :: i32

definition route_next_hop_of :: "bytes \<Rightarrow> route_next_hop" where
  "route_next_hop_of b = \<lparr>rnh_len = le16 b 0, rnh_flags = b ! 2, rnh_interface_index = le32 b 4\<rparr>"

text \<open>Sizes of the structures.\<close>

abbreviation (input) nlmsghdr_size :: nat where "nlmsghdr_size \<equiv> 16"
abbreviation (input) route_message_size :: nat where "route_message_size \<equiv> 12"
abbreviation (input) route_attribute_size :: nat where "route_attribute_size \<equiv> 4"
abbreviation (input) route_next_hop_size :: nat where "route_next_hop_size \<equiv> 8"

lemma netlink_align_ge: "n \<le> netlink_align n"
  unfolding netlink_align_def by presburger

lemma netlink_align_progress: "4 \<le> n \<Longrightarrow> 0 < netlink_align n"
  using netlink_align_ge [of n] by simp

section \<open>Routes\<close>

datatype route_disposition = Interface u32 | RouteError i32

record route_candidate =
  cand_prefix_len :: u8
  cand_priority :: u32
  cand_disposition :: route_disposition

definition is_better_than :: "route_candidate \<Rightarrow> route_candidate option \<Rightarrow> bool" where
  "is_better_than self current =
     (case current of
        None \<Rightarrow> True
      | Some cur \<Rightarrow>
          cand_prefix_len self > cand_prefix_len cur \<or>
          (cand_prefix_len self = cand_prefix_len cur \<and> cand_priority self < cand_priority cur))"

definition ipv6_prefix_matches :: "ipv6_addr \<Rightarrow> ipv6_addr \<Rightarrow> u8 \<Rightarrow> 'e failure + bool" where
  "ipv6_prefix_matches destination prefix prefix_len =
     (let whole_bytes = unat (prefix_len div 8); remaining_bits = prefix_len mod 8 in
      slice (ipv6_octets destination) 0 whole_bytes (\<lambda>dst_whole.
      slice (ipv6_octets prefix) 0 whole_bytes (\<lambda>prefix_whole.
      if dst_whole \<noteq> prefix_whole then Ok False
      else if remaining_bits = 0 then Ok True
      else
        let mask = push_bit (unat (8 - remaining_bits)) (- 1 :: u8) in
        idx (ipv6_octets destination) whole_bytes (\<lambda>d.
        idx (ipv6_octets prefix) whole_bytes (\<lambda>p. Ok (d AND mask = p AND mask))))))"

definition read_interface_index :: "bytes \<Rightarrow> u32 parse" where
  "read_interface_index value =
     read_unaligned 4 value 0 (\<lambda>b.
       if le32 b 0 = 0 then Err (Raised (invalid_netlink_data ''route returned interface index zero''))
       else Ok (le32 b 0))"

function parse_multipath_loop :: "bytes \<Rightarrow> nat \<Rightarrow> u32 option parse" where
  "parse_multipath_loop value offset =
     (if offset + route_next_hop_size \<le> length value then
        read_unaligned route_next_hop_size value offset (\<lambda>b.
          let next_hop = route_next_hop_of b; next_hop_len = unat (rnh_len next_hop) in
          if next_hop_len < route_next_hop_size \<or> offset + next_hop_len > length value
          then Err (Raised (invalid_netlink_data ''invalid multipath next-hop length''))
          else if rnh_flags next_hop AND 1 = 0 \<and> 0 < sint (rnh_interface_index next_hop)
          then Ok (Some (rnh_interface_index next_hop))
          else parse_multipath_loop value (offset + netlink_align next_hop_len))
      else Ok None)"
  by pat_completeness auto

termination parse_multipath_loop
  by (relation "measure (\<lambda>(value, offset). length value - offset)")
    (auto intro!: diff_less_mono2 simp: netlink_align_progress)

declare parse_multipath_loop.simps [simp del]

definition parse_multipath_interface :: "bytes \<Rightarrow> u32 option parse" where
  "parse_multipath_interface value = parse_multipath_loop value 0"

text \<open>The variables the attribute loop of \<open>parse_route_candidate\<close> assigns.\<close>

record route_attrs =
  at_table :: u32
  at_prefix :: ipv6_addr
  at_interface_index :: "u32 option"
  at_multipath_interface_index :: "u32 option"
  at_priority :: u32

definition attribute_step :: "u16 \<Rightarrow> bytes \<Rightarrow> route_attrs \<Rightarrow> route_attrs parse" where
  "attribute_step kind value st =
     (if kind = 1 then read_unaligned 16 value 0 (\<lambda>b. Ok (st\<lparr>at_prefix := ipv6_from_octets b\<rparr>))
      else if kind = 4 then
        and_then (read_interface_index value) (\<lambda>i. Ok (st\<lparr>at_interface_index := Some i\<rparr>))
      else if kind = 6 then read_unaligned 4 value 0 (\<lambda>b. Ok (st\<lparr>at_priority := le32 b 0\<rparr>))
      else if kind = 15 then read_unaligned 4 value 0 (\<lambda>b. Ok (st\<lparr>at_table := le32 b 0\<rparr>))
      else if kind = 9 then
        and_then (parse_multipath_interface value) (\<lambda>i. Ok (st\<lparr>at_multipath_interface_index := i\<rparr>))
      else Ok st)"

function parse_attributes :: "bytes \<Rightarrow> nat \<Rightarrow> route_attrs \<Rightarrow> route_attrs parse" where
  "parse_attributes payload offset st =
     (if offset + route_attribute_size \<le> length payload then
        read_unaligned route_attribute_size payload offset (\<lambda>b.
          let attribute_len = unat (le16 b 0); kind = le16 b 2 in
          if attribute_len < route_attribute_size \<or> offset + attribute_len > length payload
          then Err (Raised (invalid_netlink_data ''invalid route attribute length''))
          else slice payload (offset + route_attribute_size) (offset + attribute_len) (\<lambda>value.
            case attribute_step (kind AND 0x3fff) value st of
              Inl e \<Rightarrow> Inl e
            | Inr st' \<Rightarrow> parse_attributes payload (offset + netlink_align attribute_len) st'))
      else Ok st)"
  by pat_completeness auto

termination parse_attributes
  by (relation "measure (\<lambda>(payload, offset, st). length payload - offset)")
    (auto intro!: diff_less_mono2 simp: netlink_align_progress)

declare parse_attributes.simps [simp del]

definition parse_route_candidate :: "bytes \<Rightarrow> ipv6_addr \<Rightarrow> route_candidate option parse" where
  "parse_route_candidate payload destination =
     read_unaligned route_message_size payload 0 (\<lambda>b.
       let route = route_message_of b in
       if rtm_family route \<noteq> 10 \<or> rtm_destination_len route > 128 then Ok None
       else
         and_then (parse_attributes payload (netlink_align route_message_size)
           \<lparr>at_table = ucast (rtm_table route), at_prefix = ipv6_unspecified, at_interface_index = None,
            at_multipath_interface_index = None, at_priority = 0\<rparr>) (\<lambda>st.
         if at_table st \<noteq> 254 then Ok None
         else and_then (ipv6_prefix_matches destination (at_prefix st) (rtm_destination_len route)) (\<lambda>matches.
         if \<not> matches then Ok None
         else
           let candidate = (\<lambda>d. Some \<lparr>cand_prefix_len = rtm_destination_len route,
                 cand_priority = at_priority st, cand_disposition = d\<rparr>) in
           if rtm_kind route = 1 \<or> rtm_kind route = 5 then
             (case or_else (at_interface_index st) (at_multipath_interface_index st) of
                None \<Rightarrow> Err (Raised (invalid_netlink_data ''usable route has no output interface''))
              | Some i \<Rightarrow> Ok (candidate (Interface i)))
           else if rtm_kind route = 6 \<or> rtm_kind route = 7 then Ok (candidate (RouteError 101))
           else if rtm_kind route = 8 then Ok (candidate (RouteError 13))
           else Ok None)))"

text \<open>\<open>i32::saturating_neg\<close>\<close>

definition saturating_neg :: "i32 \<Rightarrow> i32" where
  "saturating_neg x = (if x = 0x80000000 then 0x7fffffff else - x)"

function parse_dump_loop ::
  "bytes \<Rightarrow> u32 \<Rightarrow> ipv6_addr \<Rightarrow> nat \<Rightarrow> route_candidate option \<Rightarrow> (bool \<times> route_candidate option) parse" where
  "parse_dump_loop buffer sequence destination offset best =
     (if offset + nlmsghdr_size \<le> length buffer then
        read_unaligned nlmsghdr_size buffer offset (\<lambda>b.
          let header = nlmsghdr_of b; message_len = unat (nlmsg_len header);
              payload_offset = offset + nlmsghdr_size; next_offset = offset + netlink_align message_len in
          if message_len < nlmsghdr_size \<or> offset + message_len > length buffer
          then Err (Raised (invalid_netlink_data ''invalid netlink message length''))
          else if nlmsg_seq header \<noteq> sequence
          then parse_dump_loop buffer sequence destination next_offset best
          else if nlmsg_flags header AND 0x10 \<noteq> 0 then Err (Raised (from_raw_os_error 11))
          else if nlmsg_type header = 2 then
            read_unaligned 4 buffer payload_offset (\<lambda>e.
              if le32 e 0 \<noteq> 0 then Err (Raised (from_raw_os_error (saturating_neg (le32 e 0))))
              else parse_dump_loop buffer sequence destination next_offset best)
          else if nlmsg_type header = 3 then
            if payload_offset + 4 \<le> offset + message_len then
              read_unaligned 4 buffer payload_offset (\<lambda>e.
                if le32 e 0 \<noteq> 0 then Err (Raised (from_raw_os_error (saturating_neg (le32 e 0))))
                else Ok (True, best))
            else Ok (True, best)
          else if nlmsg_type header = 24 then
            slice buffer payload_offset (offset + message_len) (\<lambda>payload.
              case parse_route_candidate payload destination of
                Inl e \<Rightarrow> Inl e
              | Inr None \<Rightarrow> parse_dump_loop buffer sequence destination next_offset best
              | Inr (Some candidate) \<Rightarrow>
                  parse_dump_loop buffer sequence destination next_offset
                    (if is_better_than candidate best then Some candidate else best))
          else if nlmsg_type header = 4 then Err (Raised (from_raw_os_error 105))
          else parse_dump_loop buffer sequence destination next_offset best)
      else Ok (False, best))"
  by pat_completeness auto

termination parse_dump_loop
  by (relation "measure (\<lambda>(buffer, sequence, destination, offset, best). length buffer - offset)")
    (auto intro!: diff_less_mono2 simp: netlink_align_progress)

declare parse_dump_loop.simps [simp del]

definition parse_route_dump_datagram ::
  "bytes \<Rightarrow> u32 \<Rightarrow> ipv6_addr \<Rightarrow> route_candidate option \<Rightarrow> (bool \<times> route_candidate option) parse" where
  "parse_route_dump_datagram buffer sequence destination best =
     parse_dump_loop buffer sequence destination 0 best"

section \<open>Notifications\<close>

definition notification_type_invalidates_route :: "u16 \<Rightarrow> bool" where
  "notification_type_invalidates_route t \<longleftrightarrow> t = 16 \<or> t = 17 \<or> t = 24 \<or> t = 25"

function notification_loop :: "bytes \<Rightarrow> nat \<Rightarrow> bool" where
  "notification_loop buffer offset =
     (if offset + nlmsghdr_size \<le> length buffer then
        let header = nlmsghdr_of (take nlmsghdr_size (drop offset buffer));
            message_len = unat (nlmsg_len header) in
        if message_len < nlmsghdr_size \<or> offset + message_len > length buffer then True
        else if notification_type_invalidates_route (nlmsg_type header) then True
        else notification_loop buffer (offset + netlink_align message_len)
      else False)"
  by pat_completeness auto

termination notification_loop
  by (relation "measure (\<lambda>(buffer, offset). length buffer - offset)")
    (auto intro!: diff_less_mono2 simp: netlink_align_progress)

declare notification_loop.simps [simp del]

definition notification_buffer_invalidates_route :: "bytes \<Rightarrow> bool" where
  "notification_buffer_invalidates_route buffer = notification_loop buffer 0"

definition ensure_route_selectable_scope :: "ipv6_addr \<Rightarrow> mctx_error + unit" where
  "ensure_route_selectable_scope grp =
     (let scope = ipv6_octet grp 1 AND 0x0f in
      if scope = 1 \<or> scope = 2 then Err Ipv6ScopedMulticastRequiresInterface else Ok ())"

end
