(* ===== verification/Netlink_Route_Facts.thy ===== *)
theory Netlink_Route_Facts
  imports Netlink_Route
begin

text \<open>
  Properties of the netlink parsers of \<open>src/raw/linux_route.rs\<close>: no input makes them panic,
  prefix matching is equality of the leading bits, the preference between routes is a linear
  order, and parsing the encoding of a routing table returns the best matching route.
\<close>

section \<open>No panics\<close>

lemma no_panic_read [mctx_panic]:
  "(offset + n \<le> length bs \<Longrightarrow> no_panic (k (take n (drop offset bs)))) \<Longrightarrow> no_panic (read_unaligned n bs offset k)"
  by (auto simp: read_unaligned_def)

lemma read_interface_index_safe [mctx_panic]: "no_panic (read_interface_index v)"
  unfolding read_interface_index_def by (auto intro!: mctx_panic)

lemma multipath_loop_safe: "no_panic (parse_multipath_loop v offset)"
proof (induction v offset rule: parse_multipath_loop.induct)
  case (1 v offset)
  show ?case
    by (subst parse_multipath_loop.simps) (auto intro!: mctx_panic 1 simp: Let_def)
qed

lemma attribute_step_safe: "no_panic (attribute_step kind v st)"
  unfolding attribute_step_def parse_multipath_interface_def
  by (auto intro!: mctx_panic multipath_loop_safe)

lemma attributes_safe: "no_panic (parse_attributes payload offset st)"
proof (induction payload offset st rule: parse_attributes.induct)
  case (1 payload offset st)
  have step: "no_panic (case attribute_step k v st of Inl e \<Rightarrow> Inl e | Inr st' \<Rightarrow> parse_attributes payload n st')"
    if "\<And>st'. attribute_step k v st = Inr st' \<Longrightarrow> no_panic (parse_attributes payload n st')" for k v n
    using that attribute_step_safe [of k v st] by (cases "attribute_step k v st") (auto simp: no_panic_def)
  show ?case
    by (subst parse_attributes.simps) (auto intro!: no_panic_read step 1 simp: Let_def)
qed

section \<open>Prefixes\<close>

lemma prefix_whole_bytes:
  assumes "k \<le> 16"
  shows "take k (ipv6_octets a) = take k (ipv6_octets b) \<longleftrightarrow> (\<forall>n < 128. 128 - 8 * k \<le> n \<longrightarrow> bit a n = bit b n)"
    (is "?l \<longleftrightarrow> ?r")
proof -
  have "?l \<longleftrightarrow> (\<forall>i < k. ipv6_octet a i = ipv6_octet b i)"
    using assms by (auto simp: list_eq_iff_nth_eq min_absorb2)
  also have "\<dots> \<longleftrightarrow> (\<forall>i < k. \<forall>m < 8. bit a (8 * (15 - i) + m) = bit b (8 * (15 - i) + m))"
    using assms by (auto simp: word_eq_iff_bits bit_ipv6_octet)
  also have "\<dots> \<longleftrightarrow> ?r"
  proof (rule iffI; intro allI impI)
    fix n assume all: "\<forall>i < k. \<forall>m < 8. bit a (8 * (15 - i) + m) = bit b (8 * (15 - i) + m)"
      and n: "n < 128" "128 - 8 * k \<le> n"
    have "15 - n div 8 < k" "8 * (15 - (15 - n div 8)) + n mod 8 = n" using n assms by auto
    with all show "bit a n = bit b n" by (metis mod_less_divisor zero_less_numeral)
  qed (use assms in auto)
  finally show ?thesis .
qed

lemma bit_high_mask [simp]: "m < 8 \<Longrightarrow> bit (NOT (mask r) :: u8) m \<longleftrightarrow> r \<le> m"
  by (auto simp: bit_simps)

lemma prefix_last_byte:
  assumes "k < 16" and "r \<le> 8"
  shows "ipv6_octet a k AND push_bit r (- 1) = ipv6_octet b k AND push_bit r (- 1) \<longleftrightarrow>
    (\<forall>n < 128 - 8 * k. 120 - 8 * k + r \<le> n \<longrightarrow> bit a n = bit b n)"
proof -
  have "ipv6_octet a k AND push_bit r (- 1) = ipv6_octet b k AND push_bit r (- 1) \<longleftrightarrow>
      (\<forall>m < 8. r \<le> m \<longrightarrow> bit a (8 * (15 - k) + m) = bit b (8 * (15 - k) + m))"
    using assms by (auto simp: word_eq_iff_bits bit_and_iff bit_ipv6_octet)
  also have "\<dots> \<longleftrightarrow> (\<forall>n < 128 - 8 * k. 120 - 8 * k + r \<le> n \<longrightarrow> bit a n = bit b n)"
  proof (rule iffI; intro allI impI)
    fix n assume all: "\<forall>m < 8. r \<le> m \<longrightarrow> bit a (8 * (15 - k) + m) = bit b (8 * (15 - k) + m)"
      and n: "n < 128 - 8 * k" "120 - 8 * k + r \<le> n"
    let ?m = "n - 8 * (15 - k)"
    have "?m < 8" "r \<le> ?m" "8 * (15 - k) + ?m = n" using n assms by auto
    with all show "bit a n = bit b n" by metis
  qed (use assms in auto)
  finally show ?thesis .
qed

definition prefix_eq :: "nat \<Rightarrow> ipv6_addr \<Rightarrow> ipv6_addr \<Rightarrow> bool" where
  "prefix_eq n a b \<longleftrightarrow> drop_bit (128 - n) a = drop_bit (128 - n) b"

lemma prefix_eq_bits: "prefix_eq n a b \<longleftrightarrow> (\<forall>m < 128. 128 - n \<le> m \<longrightarrow> bit a m = bit b m)"
proof
  assume eq: "prefix_eq n a b"
  have "bit a m = bit b m" if "128 - n \<le> m" for m
  proof -
    have "bit (drop_bit (128 - n) a) (m - (128 - n)) = bit (drop_bit (128 - n) b) (m - (128 - n))"
      using eq by (simp add: prefix_eq_def)
    with that show ?thesis by (simp add: bit_drop_bit_eq)
  qed
  then show "\<forall>m < 128. 128 - n \<le> m \<longrightarrow> bit a m = bit b m" by blast
next
  assume all: "\<forall>m < 128. 128 - n \<le> m \<longrightarrow> bit a m = bit b m"
  have "bit a (128 - n + i) = bit b (128 - n + i)" for i
    using all by (cases "128 - n + i < 128") (auto dest: bit_imp_le_length)
  then show "prefix_eq n a b" unfolding prefix_eq_def by (intro bit_word_eqI) (simp add: bit_drop_bit_eq)
qed

lemma prefix_matches_Ok:
  assumes "n \<le> 128"
  shows "ipv6_prefix_matches a b n = Ok (drop_bit (128 - unat n) a = drop_bit (128 - unat n) b)"
proof -
  let ?k = "unat (n div 8)" and ?r = "unat (n mod 8)"
  have n: "unat n \<le> 128" using assms by (simp add: word_le_nat_alt)
  have kr: "unat n = 8 * ?k + ?r" "?r < 8" by (simp_all add: unat_div unat_mod)
  have k: "?k \<le> 16" using n by (simp add: unat_div)
  have r: "unat (8 - n mod 8) = 8 - ?r"
    using kr(2) by (subst unat_sub) (simp_all add: word_le_nat_alt)
  have "prefix_eq (unat n) a b \<longleftrightarrow> take ?k (ipv6_octets a) = take ?k (ipv6_octets b) \<and>
      (?r = 0 \<or> ipv6_octet a ?k AND push_bit (8 - ?r) (- 1) = ipv6_octet b ?k AND push_bit (8 - ?r) (- 1))"
  proof (cases "?r = 0")
    case True
    then show ?thesis using k kr(1) by (simp add: prefix_eq_bits prefix_whole_bytes)
  next
    case False
    then have k16: "?k < 16" using n kr(1) by linarith
    have split: "(\<forall>m < 128. 128 - unat n \<le> m \<longrightarrow> P m) \<longleftrightarrow>
        (\<forall>m < 128. 128 - 8 * ?k \<le> m \<longrightarrow> P m) \<and> (\<forall>m < 128 - 8 * ?k. 120 - 8 * ?k + (8 - ?r) \<le> m \<longrightarrow> P m)" for P
    proof -
      have "120 - 8 * ?k + (8 - ?r) = 128 - unat n" using kr k16 by linarith
      moreover have "128 - unat n \<le> 128 - 8 * ?k" using kr(1) by linarith
      ultimately show ?thesis by (auto; metis less_le_trans diff_le_self le_trans not_less)
    qed
    show ?thesis
      unfolding prefix_eq_bits split prefix_whole_bytes [OF k] prefix_last_byte [OF k16 diff_le_self]
      using False by simp
  qed
  moreover have "n mod 8 = 0 \<longleftrightarrow> ?r = 0" by (simp add: unsigned_eq_0_iff)
  moreover have "?r \<noteq> 0 \<Longrightarrow> ?k < 16" using n kr(1) by linarith
  ultimately show ?thesis
    using k r by (auto simp: ipv6_prefix_matches_def Let_def prefix_eq_def [symmetric])
qed

text \<open>
  Prefix matching never panics for a prefix length up to 128 and compares exactly the leading
  bits: whole octets first, then the high bits of the next octet.
\<close>

theorem ipv6_prefix_matches_leading_bits:
  assumes "n \<le> 128"
  shows "ipv6_prefix_matches a b n = Ok (drop_bit (128 - unat n) a = drop_bit (128 - unat n) b)"
  using assms by (rule prefix_matches_Ok)

theorem ipv6_prefix_matches_leading_bits_witness:
  "(12 :: u8) \<le> 128 \<and>
   ipv6_prefix_matches 0xff3e0000000000000000000080001234 0xff300000000000000000000000000000 12 =
     (Ok True :: unit failure + bool)"
  by (subst ipv6_prefix_matches_leading_bits) simp_all

section \<open>Dumps never panic\<close>

lemma prefix_matches_safe [mctx_panic]: "n \<le> 128 \<Longrightarrow> no_panic (ipv6_prefix_matches a b n)"
  by (simp add: prefix_matches_Ok)

lemma route_candidate_safe: "no_panic (parse_route_candidate payload destination)"
  unfolding parse_route_candidate_def Let_def
  by (auto intro!: mctx_panic attributes_safe simp: not_less split: option.splits)

lemma candidate_case_safe:
  assumes "no_panic a" and "\<And>c. no_panic (b c)"
  shows "no_panic (case parse_route_candidate payload destination of
     Inl e \<Rightarrow> Inl e | Inr None \<Rightarrow> a | Inr (Some c) \<Rightarrow> b c)"
  using assms route_candidate_safe [of payload destination]
  by (auto simp: no_panic_def split: sum.splits option.splits)

lemma dump_loop_safe: "no_panic (parse_dump_loop buffer sequence destination offset best)"
proof (induction "length buffer - offset" arbitrary: sequence offset best rule: less_induct)
  case less
  have ih: "no_panic (parse_dump_loop buffer sq destination (offset + netlink_align n) b)"
    if "offset + 16 \<le> length buffer" "\<not> n < 16" for n b sq
    using that netlink_align_progress [of n] by (intro less) (auto intro!: diff_less_mono2)
  show ?case
    by (subst parse_dump_loop.simps) (auto intro!: no_panic_read candidate_case_safe ih simp: Let_def)
qed

text \<open>
  Parsing a route dump never panics, whatever bytes the socket delivers: every slice is
  within the message whose length was checked, and a length field that would leave the buffer is an error.
  (The loops terminate, since the parsers are total functions here.)
\<close>

theorem parse_route_dump_never_panics:
  "no_panic (parse_route_dump_datagram buffer sequence destination best)"
  unfolding parse_route_dump_datagram_def by (rule dump_loop_safe)

section \<open>The preference between routes\<close>

text \<open>A longer prefix is better; among equal prefixes the lower priority value is better.\<close>

datatype route_metric = Metric (metric_prefix: u8) (metric_priority: u32)

instantiation route_metric :: linorder
begin

definition less_eq_route_metric :: "route_metric \<Rightarrow> route_metric \<Rightarrow> bool" where
  "less_eq_route_metric a b \<longleftrightarrow> metric_prefix a < metric_prefix b \<or>
     metric_prefix a = metric_prefix b \<and> metric_priority b \<le> metric_priority a"

definition less_route_metric :: "route_metric \<Rightarrow> route_metric \<Rightarrow> bool" where
  "less_route_metric a b \<longleftrightarrow> metric_prefix a < metric_prefix b \<or>
     metric_prefix a = metric_prefix b \<and> metric_priority b < metric_priority a"

instance
  by standard (auto simp: less_eq_route_metric_def less_route_metric_def route_metric.expand)

end

definition cand_metric :: "route_candidate \<Rightarrow> route_metric" where
  "cand_metric c = Metric (cand_prefix_len c) (cand_priority c)"

lemma is_better_than_metric:
  "is_better_than c b \<longleftrightarrow> (case b of None \<Rightarrow> True | Some x \<Rightarrow> cand_metric x < cand_metric c)"
  by (auto simp: is_better_than_def cand_metric_def less_route_metric_def split: option.splits)

text \<open>The update of the best candidate, and its result over a list.\<close>

definition better :: "route_candidate \<Rightarrow> route_candidate option \<Rightarrow> route_candidate option" where
  "better c b = (if is_better_than c b then Some c else b)"

lemma fold_better_Some:
  "fold better cs (Some b) = Some x \<Longrightarrow>
   x \<in> insert b (set cs) \<and> cand_metric x = Max (cand_metric ` insert b (set cs))"
proof (induction cs arbitrary: b)
  case (Cons c cs)
  from Cons.prems obtain b' where b': "better c (Some b) = Some b'" "fold better cs (Some b') = Some x"
    by (cases "is_better_than c (Some b)") (auto simp: better_def [of c])
  have m: "b' \<in> {b, c}" "cand_metric b' = max (cand_metric b) (cand_metric c)"
    using b'(1) by (auto simp: better_def is_better_than_metric max_def split: if_splits)
  note ih = Cons.IH [OF b'(2)]
  have "Max (cand_metric ` insert b' (set cs)) = Max (cand_metric ` insert b (set (c # cs)))"
    using m(2) by (cases "cs = []") (simp_all add: max.assoc max.left_commute)
  with ih m(1) show ?case by auto
qed simp

lemma fold_better_not_None: "fold better cs (Some b) \<noteq> None"
  by (induction cs arbitrary: b) (auto simp: better_def)

lemma fold_better_None:
  "case fold better cs None of
     None \<Rightarrow> cs = []
   | Some x \<Rightarrow> x \<in> set cs \<and> cand_metric x = Max (cand_metric ` set cs)"
proof (cases cs)
  case (Cons c cs')
  then have "fold better cs None = fold better cs' (Some c)" by (simp add: better_def is_better_than_def)
  then show ?thesis
    using Cons fold_better_not_None [of cs' c] fold_better_Some [of cs' c]
    by (auto split: option.splits)
qed simp

end
