(* ===== verification/Netlink_Roundtrip.thy ===== *)
theory Netlink_Roundtrip
  imports Netlink_Route_Facts
begin

text \<open>
  An encoder for route dumps in the layout the kernel uses (a header, the route message, the
  attributes for destination, output interface, priority and table, and a final
  \<open>NLMSG_DONE\<close>), and the round trip: parsing the encoding of a routing table with the
  code of \<open>src/raw/linux_route.rs\<close> finds the best route of the table.
\<close>

section \<open>Encoding\<close>

definition enc_attr :: "u16 \<Rightarrow> bytes \<Rightarrow> bytes" where
  "enc_attr kind v = enc16 (of_nat (4 + length v)) @ enc16 kind @ v"

record kernel_route =
  kr_prefix :: ipv6_addr
  kr_prefix_len :: u8
  kr_oif :: u32
  kr_priority :: u32
  kr_table :: u32
  kr_kind :: u8

definition enc_route :: "kernel_route \<Rightarrow> bytes" where
  "enc_route r =
     [10, kr_prefix_len r, 0, 0, 0, 0, 0, kr_kind r, 0, 0, 0, 0] @
     enc_attr 1 (ipv6_octets (kr_prefix r)) @ enc_attr 4 (enc32 (kr_oif r)) @
     enc_attr 6 (enc32 (kr_priority r)) @ enc_attr 15 (enc32 (kr_table r))"

definition enc_header :: "nat \<Rightarrow> u16 \<Rightarrow> u32 \<Rightarrow> bytes" where
  "enc_header n kind sequence = enc32 (of_nat (16 + n)) @ enc16 kind @ enc16 2 @ enc32 sequence @ enc32 0"

definition enc_msg :: "u16 \<Rightarrow> u32 \<Rightarrow> bytes \<Rightarrow> bytes" where
  "enc_msg kind sequence payload = enc_header (length payload) kind sequence @ payload"

definition enc_dump :: "u32 \<Rightarrow> kernel_route list \<Rightarrow> bytes" where
  "enc_dump sequence rs =
     concat (map (\<lambda>r. enc_msg 24 sequence (enc_route r)) rs) @ enc_msg 3 sequence (enc32 0)"

text \<open>The candidate a route of the table is for a destination.\<close>

definition route_for :: "ipv6_addr \<Rightarrow> kernel_route \<Rightarrow> route_candidate option" where
  "route_for destination r =
     (let c = (\<lambda>d. Some \<lparr>cand_prefix_len = kr_prefix_len r, cand_priority = kr_priority r, cand_disposition = d\<rparr>) in
      if kr_prefix_len r > 128 \<or> kr_table r \<noteq> 254 \<or>
         \<not> prefix_eq (unat (kr_prefix_len r)) destination (kr_prefix r) then None
      else if kr_kind r = 1 \<or> kr_kind r = 5 then c (Interface (kr_oif r))
      else if kr_kind r = 6 \<or> kr_kind r = 7 then c (RouteError 101)
      else if kr_kind r = 8 then c (RouteError 13)
      else None)"

section \<open>Reading back\<close>

lemma u16_halves: "u16_from_be (ucast (drop_bit 8 w)) (ucast w) = w"
  by (rule u16_be_roundtrip) (simp add: u16_to_be_def)

lemma u32_halves: "push_bit 16 (ucast (ucast (drop_bit 16 w) :: u16)) OR ucast (ucast w :: u16) = w" for w :: u32
  by (rule bit_word_eqI) (auto simp: bit_simps dest: bit_imp_le_length)

lemma le16_enc16 [simp]: "le16 (enc16 w @ r) 0 = w"
  by (simp add: le16_def enc16_def u16_halves)

lemma le32_enc32 [simp]: "le32 (enc32 w @ r) 0 = w" "le32 (enc32 w) 0 = w"
  by (simp_all add: le32_def le16_def enc32_def enc16_def u16_halves u32_halves)

lemma length_enc [simp]:
  "length (enc16 w) = 2" "length (enc32 d) = 4" "length (enc_attr k v) = 4 + length v"
  "length (enc_header n k sq) = 16" "length (enc_msg k sq p) = 16 + length p" "length (enc_route r) = 56"
  by (simp_all add: enc16_def enc32_def enc_attr_def enc_header_def enc_msg_def enc_route_def)

lemma nlmsghdr_enc [simp]:
  "nlmsghdr_of (enc_header n kind sequence) =
     \<lparr>nlmsg_len = of_nat (16 + n), nlmsg_type = kind, nlmsg_flags = 2, nlmsg_seq = sequence\<rparr>"
  by (simp add: nlmsghdr_of_def enc_header_def le32_def le16_def enc32_def enc16_def u16_halves u32_halves)
    (simp add: u16_from_be_def)

lemma read_at_append:
  "length b = n \<Longrightarrow> read_unaligned n (pre @ b @ rest) (length pre) k = k b"
  by (simp add: read_unaligned_def)

lemma attributes_step:
  assumes p: "p = pre @ enc_attr kind v @ rest" and len: "length v \<le> 60" "4 dvd length v" and kind: "kind AND 0x3fff = kind"
  shows "parse_attributes p (length pre) st =
    (case attribute_step kind v st of Inl e \<Rightarrow> Inl e
     | Inr st' \<Rightarrow> parse_attributes p (length pre + (4 + length v)) st')"
proof -
  have u: "unat (of_nat (4 + length v) :: u16) = 4 + length v"
    using len(1) by (subst unsigned_of_nat) (simp add: take_bit_eq_mod)
  have al: "netlink_align (4 + length v) = 4 + length v"
    using len(2) by (auto simp: netlink_align_def elim!: dvdE)
  have hd: "read_unaligned 4 p (length pre) k = k (enc16 (of_nat (4 + length v)) @ enc16 kind)" for k :: "bytes \<Rightarrow> 'a parse"
    using read_at_append [of "enc16 (of_nat (4 + length v)) @ enc16 kind" 4 pre "v @ rest" k]
    by (simp add: p enc_attr_def)
  have k2: "le16 (enc16 a @ enc16 b) 2 = b" for a b
    by (simp add: le16_def enc16_def u16_halves)
  have sl: "slice p (length pre + 4) (length pre + (4 + length v)) k = k v" for k :: "bytes \<Rightarrow> 'a parse"
    by (simp add: slice_def p enc_attr_def)
  show ?thesis
    by (subst parse_attributes.simps) (simp only: hd sl Let_def le16_enc16 k2 u al kind, simp add: p)
qed

lemma attributes_end: "length p \<le> offset + 3 \<Longrightarrow> parse_attributes p offset st = Ok st"
  by (subst parse_attributes.simps) simp

lemma attribute_steps:
  "attribute_step 1 (ipv6_octets a) st = Ok (st\<lparr>at_prefix := a\<rparr>)"
  "i \<noteq> 0 \<Longrightarrow> attribute_step 4 (enc32 i) st = Ok (st\<lparr>at_interface_index := Some i\<rparr>)"
  "attribute_step 6 (enc32 p) st = Ok (st\<lparr>at_priority := p\<rparr>)"
  "attribute_step 15 (enc32 t) st = Ok (st\<lparr>at_table := t\<rparr>)"
  by (simp_all add: attribute_step_def read_unaligned_def read_interface_index_def)

lemma parse_attributes_enc_route:
  assumes "kr_oif r \<noteq> 0"
  shows "parse_attributes (enc_route r) 12 st =
    Ok (st\<lparr>at_prefix := kr_prefix r, at_interface_index := Some (kr_oif r), at_priority := kr_priority r,
           at_table := kr_table r\<rparr>)"
proof -
  define h where "h = [10, kr_prefix_len r, 0, 0, 0, 0, 0, kr_kind r, 0, 0, 0, 0]"
  have len: "length h = 12" by (simp add: h_def)
  let ?a1 = "enc_attr 1 (ipv6_octets (kr_prefix r))" and ?a2 = "enc_attr 4 (enc32 (kr_oif r))"
  let ?a3 = "enc_attr 6 (enc32 (kr_priority r))" and ?a4 = "enc_attr 15 (enc32 (kr_table r))"
  have p: "enc_route r = h @ ?a1 @ (?a2 @ ?a3 @ ?a4)" "enc_route r = (h @ ?a1) @ ?a2 @ (?a3 @ ?a4)"
      "enc_route r = (h @ ?a1 @ ?a2) @ ?a3 @ ?a4" "enc_route r = (h @ ?a1 @ ?a2 @ ?a3) @ ?a4 @ []"
    by (simp_all add: enc_route_def h_def)
  have 1: "parse_attributes (enc_route r) 12 st = parse_attributes (enc_route r) 32 (st\<lparr>at_prefix := kr_prefix r\<rparr>)" for st
    using attributes_step [OF p(1), of st] by (simp add: attribute_steps len)
  have 2: "parse_attributes (enc_route r) 32 st = parse_attributes (enc_route r) 40 (st\<lparr>at_interface_index := Some (kr_oif r)\<rparr>)" for st
    using attributes_step [OF p(2), of st] assms by (simp add: attribute_steps len)
  have 3: "parse_attributes (enc_route r) 40 st = parse_attributes (enc_route r) 48 (st\<lparr>at_priority := kr_priority r\<rparr>)" for st
    using attributes_step [OF p(3), of st] by (simp add: attribute_steps len)
  have 4: "parse_attributes (enc_route r) 48 st = parse_attributes (enc_route r) 56 (st\<lparr>at_table := kr_table r\<rparr>)" for st
    using attributes_step [OF p(4), of st] by (simp add: attribute_steps len)
  show ?thesis by (simp add: 1 2 3 4 attributes_end)
qed

lemma parse_candidate_enc_route:
  assumes "kr_oif r \<noteq> 0"
  shows "parse_route_candidate (enc_route r) destination = Ok (route_for destination r)"
proof -
  have b: "read_unaligned 12 (enc_route r) 0 k = k [10, kr_prefix_len r, 0, 0, 0, 0, 0, kr_kind r, 0, 0, 0, 0]"
    for k :: "bytes \<Rightarrow> route_candidate option parse"
    by (simp add: read_unaligned_def) (simp add: enc_route_def)
  have al: "netlink_align 12 = 12" by (simp add: netlink_align_def)
  show ?thesis
  proof (cases "128 < kr_prefix_len r")
    case True
    then show ?thesis by (simp add: parse_route_candidate_def b route_message_of_def Let_def route_for_def)
  next
    case False
    then have "kr_prefix_len r \<le> 128" by simp
    note match = prefix_matches_Ok [OF this, folded prefix_eq_def]
    show ?thesis
      using False assms
      by (simp add: parse_route_candidate_def b route_message_of_def Let_def al parse_attributes_enc_route
          match route_for_def)
  qed
qed

section \<open>The round trip\<close>

lemma dump_step:
  assumes b: "buffer = pre @ enc_msg 24 sequence (enc_route r) @ rest" and oif: "kr_oif r \<noteq> 0"
  shows "parse_dump_loop buffer sequence destination (length pre) best =
    parse_dump_loop buffer sequence destination (length pre + 72)
      (case route_for destination r of None \<Rightarrow> best | Some c \<Rightarrow> better c best)"
proof -
  have hd: "read_unaligned 16 buffer (length pre) k = k (enc_header 56 24 sequence)"
    for k :: "bytes \<Rightarrow> (bool \<times> route_candidate option) parse"
    using read_at_append [of "enc_header 56 24 sequence" 16 pre "enc_route r @ rest" k]
    by (simp add: b enc_msg_def)
  have sl: "slice buffer (length pre + 16) (length pre + 72) k = k (enc_route r)"
    for k :: "bytes \<Rightarrow> (bool \<times> route_candidate option) parse"
    by (simp add: slice_def b enc_msg_def)
  have al: "netlink_align 72 = 72" by (simp add: netlink_align_def)
  have len: "length buffer = length pre + 72 + length rest" by (simp add: b)
  show ?thesis
    using len
    by (subst parse_dump_loop.simps)
      (simp add: hd sl al Let_def parse_candidate_enc_route [OF oif] better_def split: option.splits)
qed

lemma dump_done:
  assumes "buffer = pre @ enc_msg 3 sequence (enc32 0)"
  shows "parse_dump_loop buffer sequence destination (length pre) best = Ok (True, best)"
proof -
  have hd: "read_unaligned 16 buffer (length pre) k = k (enc_header 4 3 sequence)"
    for k :: "bytes \<Rightarrow> (bool \<times> route_candidate option) parse"
    using read_at_append [of "enc_header 4 3 sequence" 16 pre "enc32 0" k]
    by (simp add: assms enc_msg_def)
  have pl: "read_unaligned 4 buffer (length pre + 16) k = k (enc32 0)"
    for k :: "bytes \<Rightarrow> (bool \<times> route_candidate option) parse"
    using read_at_append [of "enc32 0" 4 "pre @ enc_header 4 3 sequence" "[]" k]
    by (simp add: assms enc_msg_def)
  have len: "length buffer = length pre + 20" by (simp add: assms)
  show ?thesis
    using len by (subst parse_dump_loop.simps) (simp add: hd pl Let_def)
qed

lemma dump_routes:
  assumes "buffer = pre @ enc_dump sequence rs" and "\<forall>r \<in> set rs. kr_oif r \<noteq> 0"
  shows "parse_dump_loop buffer sequence destination (length pre) best =
    Ok (True, fold better (List.map_filter (route_for destination) rs) best)"
  using assms
proof (induction rs arbitrary: pre best)
  case Nil
  then show ?case by (simp add: enc_dump_def dump_done map_filter_simps)
next
  case (Cons r rs)
  let ?m = "enc_msg 24 sequence (enc_route r)"
  have b1: "buffer = pre @ ?m @ enc_dump sequence rs" and b2: "buffer = (pre @ ?m) @ enc_dump sequence rs"
    using Cons.prems(1) by (simp_all add: enc_dump_def)
  show ?case
    using dump_step [OF b1] Cons.IH [OF b2] Cons.prems(2)
    by (auto simp: map_filter_simps split: option.splits)
qed

lemma set_map_filter: "set (List.map_filter f xs) = {y. \<exists>x \<in> set xs. f x = Some y}"
  by (induction xs) (auto simp: map_filter_simps split: option.splits)



end
