(* ===== verification/Publication_Registry.thy ===== *)
theory Publication_Registry
  imports Mctx_Error
begin

text \<open>
  The contract shared by the three owners of publications (\<open>Context\<close>, \<open>RawContext\<close>
  and \<open>RawIpContext\<close>): publications are stored under identifiers handed out by a counter,
  and can be looked up and taken out by identifier. The abstract state is a finite map from
  identifiers to publications together with the next identifier. What clients rely on is proved
  once here, from the contract: a sequence of operations never panics, has the effect of
  the same operations on the map, and an identifier is never handed out twice.
\<close>

section \<open>Operations on a registry\<close>

text \<open>
  \<open>Insert f\<close> stores the publication \<open>f\<close> builds for the next identifier, \<open>Skip\<close> is an
  insertion that failed after the identifier was handed out, \<open>Take i\<close> removes one
  publication.
\<close>

datatype 'p reg_cmd = Insert "u64 \<Rightarrow> 'p" | Skip | Take u64

fun run_cmds ::
  "('c \<Rightarrow> u64) \<Rightarrow> ('p \<Rightarrow> 'c \<Rightarrow> 'c) \<Rightarrow> ('c \<Rightarrow> 'c) \<Rightarrow> (u64 \<Rightarrow> 'c \<Rightarrow> mctx_error failure + 'p option \<times> 'c) \<Rightarrow>
   'p reg_cmd list \<Rightarrow> 'c \<Rightarrow> mctx_error failure + 'c" where
  "run_cmds nxt ins skp tak [] c = Inr c"
| "run_cmds nxt ins skp tak (Insert f # cmds) c = run_cmds nxt ins skp tak cmds (ins (f (nxt c)) c)"
| "run_cmds nxt ins skp tak (Skip # cmds) c = run_cmds nxt ins skp tak cmds (skp c)"
| "run_cmds nxt ins skp tak (Take i # cmds) c =
     and_then (tak i c) (\<lambda>(_, c'). run_cmds nxt ins skp tak cmds c')"

text \<open>The same operations on the abstract state.\<close>

fun abs_cmd :: "'p reg_cmd \<Rightarrow> (u64 \<rightharpoonup> 'p) \<times> u64 \<Rightarrow> (u64 \<rightharpoonup> 'p) \<times> u64" where
  "abs_cmd (Insert f) (m, n) = (m(n \<mapsto> f n), n + 1)"
| "abs_cmd Skip (m, n) = (m, n + 1)"
| "abs_cmd (Take i) (m, n) = (m(i := None), n)"

section \<open>The contract\<close>

locale publication_registry =
  fixes invar :: "'c \<Rightarrow> bool"
    and nxt :: "'c \<Rightarrow> u64"
    and lkp :: "'c \<Rightarrow> u64 \<Rightarrow> 'p option"
    and ins :: "'p \<Rightarrow> 'c \<Rightarrow> 'c"
    and skp :: "'c \<Rightarrow> 'c"
    and tak :: "u64 \<Rightarrow> 'c \<Rightarrow> mctx_error failure + 'p option \<times> 'c"
    and cnt :: "'c \<Rightarrow> nat"
    and pid :: "'p \<Rightarrow> u64"
  assumes ins_law: "invar c \<Longrightarrow> pid p = nxt c \<Longrightarrow> nxt c \<noteq> - 1 \<Longrightarrow>
      invar (ins p c) \<and> lkp (ins p c) = (lkp c)(nxt c \<mapsto> p) \<and> nxt (ins p c) = nxt c + 1"
    and skp_law: "invar c \<Longrightarrow> nxt c \<noteq> - 1 \<Longrightarrow>
      invar (skp c) \<and> lkp (skp c) = lkp c \<and> nxt (skp c) = nxt c + 1"
    and tak_law: "invar c \<Longrightarrow>
      \<exists>c'. tak i c = Inr (lkp c i, c') \<and> invar c' \<and> lkp c' = (lkp c)(i := None) \<and> nxt c' = nxt c"
    and lkp_law: "invar c \<Longrightarrow> lkp c i = Some p \<Longrightarrow> pid p = i \<and> i < nxt c"
    and cnt_law: "invar c \<Longrightarrow> finite (dom (lkp c)) \<and> cnt c = card (dom (lkp c))"
begin

text \<open>The commands whose builders give their publication the identifier they are passed.\<close>

lemma cmd_refines:
  assumes "invar c" and "nxt c \<noteq> - 1" and "\<forall>f. cmd = Insert f \<longrightarrow> (\<forall>n. pid (f n) = n)"
  shows "\<exists>c'. run_cmds nxt ins skp tak [cmd] c = Inr c' \<and> invar c' \<and>
    (lkp c', nxt c') = abs_cmd cmd (lkp c, nxt c)"
proof (cases cmd)
  case (Insert f)
  then show ?thesis using ins_law [OF assms(1) _ assms(2), of "f (nxt c)"] assms(3) by simp
next
  case Skip
  then show ?thesis using skp_law [OF assms(1,2)] by simp
next
  case (Take i)
  then show ?thesis using tak_law [OF assms(1), of i] by auto
qed

lemma run_cmds_Cons:
  "run_cmds nxt ins skp tak [cmd] c = Inr c1 \<Longrightarrow>
   run_cmds nxt ins skp tak (cmd # cmds) c = run_cmds nxt ins skp tak cmds c1"
  by (cases cmd) (auto simp: mctx_result)

lemma abs_cmd_next: "unat (snd (abs_cmd cmd (m, n))) \<le> Suc (unat n)"
  by (cases cmd) (simp_all add: unat_word_ariths)

text \<open>
  A sequence of fewer operations than there are identifiers left runs without a panic and has
  the effect of the abstract operations.
\<close>

lemma run_refines:
  assumes "invar c" and "unat (nxt c) + length cmds < 2 ^ 64"
    and "\<forall>f n. Insert f \<in> set cmds \<longrightarrow> pid (f n) = n"
  shows "\<exists>c'. run_cmds nxt ins skp tak cmds c = Inr c' \<and> invar c' \<and>
    (lkp c', nxt c') = fold abs_cmd cmds (lkp c, nxt c)"
  using assms
proof (induction cmds arbitrary: c)
  case (Cons cmd cmds)
  have "nxt c \<noteq> - 1"
  proof
    assume "nxt c = - 1"
    then have "unat (nxt c) = 2 ^ 64 - 1" by (simp add: unsigned_minus_1_eq_mask mask_eq_exp_minus_1)
    with Cons.prems(2) show False by simp
  qed
  with Cons.prems obtain c1 where c1: "run_cmds nxt ins skp tak [cmd] c = Inr c1" "invar c1"
      "(lkp c1, nxt c1) = abs_cmd cmd (lkp c, nxt c)"
    using cmd_refines [of c cmd] by auto
  have "unat (nxt c1) \<le> Suc (unat (nxt c))"
    using abs_cmd_next [of cmd "lkp c" "nxt c"] c1(3) by (metis snd_conv)
  with Cons.prems(2) have "unat (nxt c1) + length cmds < 2 ^ 64" by simp
  from Cons.IH [OF c1(2) this] Cons.prems(3) obtain c' where
    "run_cmds nxt ins skp tak cmds c1 = Inr c'" "invar c'"
    "(lkp c', nxt c') = fold abs_cmd cmds (lkp c1, nxt c1)" by auto
  then show ?case using c1 run_cmds_Cons [OF c1(1), of cmds] by auto
qed simp

text \<open>An identifier that was handed out and is no longer stored never comes back.\<close>

lemma id_never_reused:
  assumes "invar c" and "unat (nxt c) + length cmds < 2 ^ 64"
    and "\<forall>f n. Insert f \<in> set cmds \<longrightarrow> pid (f n) = n"
    and "i < nxt c" and "lkp c i = None"
  shows "\<exists>c'. run_cmds nxt ins skp tak cmds c = Inr c' \<and> lkp c' i = None"
proof -
  have "i < snd mn \<Longrightarrow> fst mn i = None \<Longrightarrow> unat (snd mn) + length cmds < 2 ^ 64 \<Longrightarrow>
      fst (fold abs_cmd cmds mn) i = None" for mn :: "(u64 \<rightharpoonup> 'p) \<times> u64"
  proof (induction cmds arbitrary: mn)
    case (Cons cmd cmds)
    obtain m n where mn: "mn = (m, n)" by force
    have "unat n + 1 < 2 ^ 64" using Cons.prems(3) by (simp add: mn)
    then have "n < n + 1" by (simp add: word_less_nat_alt unat_word_ariths)
    then have "i < snd (abs_cmd cmd mn)" "fst (abs_cmd cmd mn) i = None"
      using Cons.prems(1,2) by (cases cmd; auto simp: mn)+
    moreover have "unat (snd (abs_cmd cmd mn)) + length cmds < 2 ^ 64"
      using Cons.prems(3) abs_cmd_next [of cmd m n] by (simp add: mn)
    ultimately show ?case using Cons.IH by simp
  qed simp
  from this [of "(lkp c, nxt c)"] assms(2,4,5)
  have "fst (fold abs_cmd cmds (lkp c, nxt c)) i = None" by simp
  with run_refines [OF assms(1-3)] show ?thesis by (metis fst_conv)
qed

end

end
