(* ===== verification/Publication_Table.thy ===== *)
theory Publication_Table
  imports Publication_Registry
begin

text \<open>
  The state the contexts of raw publications share (\<open>src/raw/context.rs\<close> and
  \<open>src/raw_ip/context.rs\<close> declare the same three fields): a vector of publications, a hash map
  from identifiers to positions in it, and the next identifier. The operations are the parts of the
  two contexts that touch these fields; \<open>pid\<close> is the accessor of a publication's identifier.
\<close>

section \<open>State and operations\<close>

record 'p publication_table =
  pt_publications :: "'p list"
  pt_indices :: "u64 \<rightharpoonup> nat"
  pt_next_id :: u64

definition table_new :: "'p publication_table" where
  "table_new = \<lparr>pt_publications = [], pt_indices = Map.empty, pt_next_id = 1\<rparr>"

definition table_count :: "'p publication_table \<Rightarrow> nat" where
  "table_count t = length (pt_publications t)"

text \<open>\<open>get\<close> on the map, then \<open>get\<close> on the vector; both may find nothing.\<close>

definition table_get :: "'p publication_table \<Rightarrow> u64 \<Rightarrow> 'p option" where
  "table_get t i =
     (case pt_indices t i of
        None \<Rightarrow> None
      | Some k \<Rightarrow> if k < length (pt_publications t) then Some (pt_publications t ! k) else None)"

definition table_bump :: "'p publication_table \<Rightarrow> 'p publication_table" where
  "table_bump t = t\<lparr>pt_next_id := pt_next_id t + 1\<rparr>"

definition table_push :: "u64 \<Rightarrow> 'p \<Rightarrow> 'p publication_table \<Rightarrow> 'p publication_table" where
  "table_push i p t =
     t\<lparr>pt_publications := pt_publications t @ [p],
       pt_indices := (pt_indices t)(i \<mapsto> length (pt_publications t))\<rparr>"

definition table_put :: "nat \<Rightarrow> 'p \<Rightarrow> 'p publication_table \<Rightarrow> mctx_error failure + 'p publication_table" where
  "table_put k p t = upd (pt_publications t) k p (\<lambda>ps. Ok (t\<lparr>pt_publications := ps\<rparr>))"

text \<open>The table after the publication found under an identifier was changed in place.\<close>

definition table_store :: "u64 \<Rightarrow> 'p \<Rightarrow> 'p publication_table \<Rightarrow> 'p publication_table" where
  "table_store i p t =
     (case pt_indices t i of None \<Rightarrow> t | Some k \<Rightarrow> t\<lparr>pt_publications := (pt_publications t)[k := p]\<rparr>)"

definition table_take ::
  "('p \<Rightarrow> u64) \<Rightarrow> u64 \<Rightarrow> 'p publication_table \<Rightarrow> mctx_error failure + 'p option \<times> 'p publication_table" where
  "table_take pid i t =
     (case pt_indices t i of
        None \<Rightarrow> Ok (None, t)
      | Some k \<Rightarrow>
          let removed = (pt_indices t)(i := None) in
          and_then (swap_remove (pt_publications t) k) (\<lambda>(p, rest).
          if k < length rest
          then idx rest k (\<lambda>moved.
            Ok (Some p, t\<lparr>pt_publications := rest, pt_indices := removed(pid moved \<mapsto> k)\<rparr>))
          else Ok (Some p, t\<lparr>pt_publications := rest, pt_indices := removed\<rparr>)))"

section \<open>Invariant\<close>

text \<open>The map holds exactly the positions of the identifiers, all of which were handed out.\<close>

definition table_ok :: "('p \<Rightarrow> u64) \<Rightarrow> 'p publication_table \<Rightarrow> bool" where
  "table_ok pid t \<longleftrightarrow>
     (\<forall>i k. pt_indices t i = Some k \<longleftrightarrow> k < length (pt_publications t) \<and> pid (pt_publications t ! k) = i) \<and>
     (\<forall>p \<in> set (pt_publications t). pid p < pt_next_id t)"

lemma table_ok_new [simp]: "table_ok pid table_new" "table_get table_new = Map.empty"
  by (simp_all add: table_ok_def table_new_def table_get_def fun_eq_iff)

lemma table_ok_inj:
  "table_ok pid t \<Longrightarrow> j < length (pt_publications t) \<Longrightarrow> k < length (pt_publications t) \<Longrightarrow>
   pid (pt_publications t ! j) = pid (pt_publications t ! k) \<Longrightarrow> j = k"
  unfolding table_ok_def by (metis option.inject)

lemma table_ok_distinct: "table_ok pid t \<Longrightarrow> distinct (map pid (pt_publications t))"
  by (auto simp: distinct_conv_nth dest: table_ok_inj)

lemma table_get_find:
  assumes "table_ok pid t"
  shows "table_get t i = find (\<lambda>p. pid p = i) (pt_publications t)"
proof (cases "pt_indices t i")
  case None
  then have "pid (pt_publications t ! k) \<noteq> i" if "k < length (pt_publications t)" for k
    using assms that by (metis option.simps(3) table_ok_def)
  then have "i \<notin> pid ` set (pt_publications t)" by (metis imageE in_set_conv_nth)
  then have "find (\<lambda>p. pid p = i) (pt_publications t) = None" by (simp only: find_key_None not_False_eq_True)
  with None show ?thesis by (simp add: table_get_def)
next
  case (Some k)
  then have k: "k < length (pt_publications t)" "pid (pt_publications t ! k) = i"
    using assms by (simp_all add: table_ok_def)
  then have "find (\<lambda>p. pid p = i) (pt_publications t) = Some (pt_publications t ! k)"
    using find_key [OF table_ok_distinct [OF assms]] by simp
  with Some k show ?thesis by (simp add: table_get_def)
qed

lemma table_get_Some:
  assumes "table_ok pid t" and "table_get t i = Some p"
  shows "pid p = i \<and> i < pt_next_id t \<and> p \<in> set (pt_publications t)"
  using assms by (auto simp: table_get_find find_key table_ok_distinct) (auto simp: table_ok_def)

lemma table_push_Ok:
  assumes "table_ok pid t" and "pid p = pt_next_id t" and "pt_next_id t \<noteq> - 1"
  shows "table_ok pid (table_push (pid p) p (table_bump t)) \<and>
    table_get (table_push (pid p) p (table_bump t)) = (table_get t)(pt_next_id t \<mapsto> p) \<and>
    pt_next_id (table_push (pid p) p (table_bump t)) = pt_next_id t + 1"
proof -
  have fresh: "pid q \<noteq> pid p" if "q \<in> set (pt_publications t)" for q
    using assms(1,2) that by (auto simp: table_ok_def)
  have none: "pt_indices t (pid p) \<noteq> Some k" for k
    using assms(1) fresh by (metis nth_mem table_ok_def)
  have less: "pid q < pt_next_id t + 1" if "q \<in> set (pt_publications t)" for q
    using assms(1) less_word_plus_one [OF assms(3)] that by (auto simp: table_ok_def intro: less_trans)
  have "(if j = pid p then Some (length (pt_publications t)) else pt_indices t j) = Some k \<longleftrightarrow>
      k < Suc (length (pt_publications t)) \<and> pid ((pt_publications t @ [p]) ! k) = j" for j k
    using assms(1) fresh none [of k] by (auto simp: table_ok_def nth_append less_Suc_eq)
  then have ok: "table_ok pid (table_push (pid p) p (table_bump t))"
    using less less_word_plus_one [OF assms(3)] assms(2)
    by (auto simp: table_ok_def table_push_def table_bump_def)
  have "find (\<lambda>q. pid q = pid p) (pt_publications t) = None"
    using fresh find_key_None [of pid "pid p" "pt_publications t"] by auto
  then have "table_get (table_push (pid p) p (table_bump t)) j = ((table_get t)(pid p \<mapsto> p)) j" for j
    using fresh
    by (simp add: table_get_find [OF ok] table_get_find [OF assms(1)])
      (simp add: table_push_def table_bump_def find_key_append split: option.split)
  with ok assms(2) show ?thesis by (auto simp: table_push_def table_bump_def)
qed

lemma table_bump_Ok:
  assumes "table_ok pid t" and "pt_next_id t \<noteq> - 1"
  shows "table_ok pid (table_bump t) \<and> table_get (table_bump t) = table_get t \<and>
    pt_next_id (table_bump t) = pt_next_id t + 1"
proof (intro conjI)
  show "table_get (table_bump t) = table_get t"
    by (simp add: table_bump_def table_get_def fun_eq_iff split: option.splits)
  show "table_ok pid (table_bump t)"
    using assms less_word_plus_one [OF assms(2)] by (auto simp: table_ok_def table_bump_def intro: less_trans)
qed (simp add: table_bump_def)

lemma table_put_Ok:
  assumes "table_ok pid t" and "pt_indices t i = Some k" and "pid p = i"
  shows "\<exists>t'. table_put k p t = Ok t' \<and> table_ok pid t' \<and> table_get t' = (table_get t)(i \<mapsto> p) \<and>
    pt_next_id t' = pt_next_id t \<and> table_count t' = table_count t"
proof -
  have k: "k < length (pt_publications t)" "pid (pt_publications t ! k) = i"
    using assms(1,2) by (simp_all add: table_ok_def)
  let ?t = "t\<lparr>pt_publications := (pt_publications t)[k := p]\<rparr>"
  have "i < pt_next_id t" using assms(1) k by (metis nth_mem table_ok_def)
  then have "table_ok pid ?t"
    using assms k set_update_subset_insert [of "pt_publications t" k p]
    by (auto simp: table_ok_def nth_list_update)
  moreover have "table_get ?t j = ((table_get t)(i \<mapsto> p)) j" for j
  proof (cases "j = i")
    case False
    then have "pt_indices t j \<noteq> Some k" using assms(1) k(2) by (auto simp: table_ok_def)
    with False show ?thesis by (auto simp: table_get_def split: option.splits)
  qed (use assms(2) k(1) in \<open>simp add: table_get_def\<close>)
  ultimately show ?thesis using k by (auto simp: table_put_def table_count_def)
qed

text \<open>The positions after a removal: the last publication is at the place of the removed one.\<close>

lemma swap_removed_positions:
  fixes t :: "'p publication_table"
  defines "rest k \<equiv> butlast ((pt_publications t)[k := last (pt_publications t)])"
  assumes ok: "table_ok pid t" and k: "k < length (pt_publications t)" "pid (pt_publications t ! k) = i"
    and m_def: "m = (if k < length (pt_publications t) - 1 then ((pt_indices t)(i := None))(pid (rest k ! k) \<mapsto> k)
      else (pt_indices t)(i := None))"
  shows "m j = Some n \<longleftrightarrow> n < length (pt_publications t) - 1 \<and> pid (rest k ! n) = j"
proof -
  let ?ps = "pt_publications t" and ?rest = "rest k"
  let ?z = "length ?ps - 1"
  have inj: "pid (?ps ! a) = pid (?ps ! b) \<longleftrightarrow> a = b" if "a < length ?ps" "b < length ?ps" for a b
    using table_ok_inj [OF ok that] by blast
  have ix: "pt_indices t j = Some n \<longleftrightarrow> n < length ?ps \<and> pid (?ps ! n) = j"
    using ok by (simp add: table_ok_def)
  have nth: "n < ?z \<Longrightarrow> ?rest ! n = (if n = k then ?ps ! ?z else ?ps ! n)" for n unfolding rest_def by (rule nth_swap_removed)
  have z: "?z < length ?ps" using k(1) by simp
  show ?thesis
  proof (cases "k < ?z")
    case True
    then have moved: "pid (?ps ! ?z) \<noteq> i" using inj [OF z k(1)] k(2) by simp
    note facts = True moved ix nth [of n] nth [OF True] inj [OF _ z, of n] inj [OF _ k(1), of n] k(2)
    consider "j = pid (?ps ! ?z)" | "j = i" | "j \<noteq> pid (?ps ! ?z)" "j \<noteq> i" by blast
    then show ?thesis
    proof cases
      case 1
      then show ?thesis using facts by (cases "n < ?z"; cases "n = k") (auto simp: m_def)
    next
      case 2
      then show ?thesis using facts by (cases "n < ?z"; cases "n = k") (auto simp: m_def)
    next
      case 3
      then have "m j = pt_indices t j" using facts by (simp add: m_def)
      moreover have "n = ?z" if "n < length ?ps" "\<not> n < ?z" using that by simp
      ultimately show ?thesis using 3 facts z by (cases "n < ?z"; cases "n = k") auto
    qed
  next
    case False
    then have "k = ?z" using k(1) by simp
    moreover have "n = ?z" if "n < length ?ps" "\<not> n < ?z" using that by simp
    ultimately show ?thesis
      using ix nth [of n] inj [OF _ k(1), of n] k z
      by (cases "j = i"; cases "n < ?z"; cases "n = k") (auto simp: m_def)
  qed
qed

lemma table_take_Ok:
  assumes ok: "table_ok pid t"
  shows "\<exists>t'. table_take pid i t = Ok (table_get t i, t') \<and> table_ok pid t' \<and>
    table_get t' = (table_get t)(i := None) \<and> pt_next_id t' = pt_next_id t"
proof (cases "pt_indices t i")
  case None
  then show ?thesis using ok by (auto simp: table_take_def table_get_def)
next
  case (Some k)
  let ?ps = "pt_publications t" and ?rest = "butlast ((pt_publications t)[k := last (pt_publications t)])"
  have k: "k < length ?ps" "pid (?ps ! k) = i" using ok Some by (simp_all add: table_ok_def)
  define m where "m = (if k < length ?ps - 1 then ((pt_indices t)(i := None))(pid (?rest ! k) \<mapsto> k)
    else (pt_indices t)(i := None))"
  let ?t = "t\<lparr>pt_publications := ?rest, pt_indices := m\<rparr>"
  have take: "table_take pid i t = Ok (Some (?ps ! k), ?t)"
    using Some k by (simp add: table_take_def swap_remove_def m_def)
  have pos: "m j = Some n \<longleftrightarrow> n < length ?ps - 1 \<and> pid (?rest ! n) = j" for j n
    using swap_removed_positions [OF ok k, of m j n] by (simp add: m_def)
  have sub: "set ?rest \<subseteq> set ?ps"
    using set_swap_removed [OF k(1) table_ok_distinct [OF ok]] by auto
  then have ok': "table_ok pid ?t" using ok pos by (auto simp: table_ok_def)
  have "table_get ?t j = ((table_get t)(i := None)) j" for j
    using find_key_swap_removed [OF k(1) table_ok_distinct [OF ok], of j] k(2)
    by (simp add: table_get_find [OF ok'] table_get_find [OF ok])
  moreover have "table_get t i = Some (?ps ! k)" using Some k by (simp add: table_get_def)
  ultimately show ?thesis using take ok' by auto
qed

lemma table_card:
  assumes "table_ok pid t"
  shows "finite (dom (table_get t)) \<and> table_count t = card (dom (table_get t))"
proof -
  have "table_get t = (\<lambda>i. find (\<lambda>p. pid p = i) (pt_publications t))"
    using table_get_find [OF assms] by (simp add: fun_eq_iff)
  with card_dom_find_key [OF table_ok_distinct [OF assms]] show ?thesis by (simp add: table_count_def)
qed

lemma table_store_Ok:
  assumes "table_ok pid t" and "table_get t i = Some q" and "pid p = i"
  shows "table_ok pid (table_store i p t) \<and> table_get (table_store i p t) = (table_get t)(i \<mapsto> p) \<and>
    pt_next_id (table_store i p t) = pt_next_id t"
proof -
  obtain k where k: "pt_indices t i = Some k" "k < length (pt_publications t)"
    using assms(2) by (auto simp: table_get_def split: option.splits if_splits)
  from table_put_Ok [OF assms(1) k(1) assms(3)] k show ?thesis
    by (auto simp: table_put_def table_store_def)
qed

end
