(* ===== verification/Publication_Config.thy ===== *)
theory Publication_Config
  imports Mctx_Error
begin

text \<open>
  Publication configurations (\<open>src/config.rs\<close>): the data, the builders, the validation,
  and the IPv6 multicast scope rules. The validation is related to a declarative list of
  defects: it accepts exactly the configurations without a defect and every error it
  reports names a defect that is present.
\<close>

section \<open>Data\<close>

datatype address_family = Ipv4 | Ipv6

datatype outgoing_interface = OutIpv4Addr ipv4_addr | OutIpv6Addr ipv6_addr | OutIpv6Index u32

datatype multicast_scope =
    InterfaceLocal | LinkLocal | RealmLocal | AdminLocal | SiteLocal | OrganizationLocal | Global
  | OtherScope u8

record publication_config =
  pc_group :: ip_addr
  pc_dst_port :: u16
  pc_outgoing_interface :: "outgoing_interface option"
  pc_source_port :: "u16 option"
  pc_source_addr :: "ip_addr option"
  pc_ttl :: u32
  pc_loopback :: bool

section \<open>Scopes\<close>

fun same_family_ip :: "ip_addr \<Rightarrow> ip_addr \<Rightarrow> bool" where
  "same_family_ip (V4 _) (V4 _) = True"
| "same_family_ip (V6 _) (V6 _) = True"
| "same_family_ip _ _ = False"

definition is_ipv6_ssm_group :: "ipv6_addr \<Rightarrow> bool" where
  "is_ipv6_ssm_group grp \<longleftrightarrow>
     ipv6_is_multicast grp \<and> ipv6_octet grp 1 AND 0xf0 = 0x30 \<and>
     ipv6_octet grp 2 = 0 \<and> ipv6_octet grp 3 = 0"

definition ipv6_multicast_scope :: "ipv6_addr \<Rightarrow> multicast_scope option" where
  "ipv6_multicast_scope grp =
     (if \<not> ipv6_is_multicast grp then None
      else let scope = ipv6_octet grp 1 AND 0x0f in
        Some (if scope = 0x1 then InterfaceLocal
              else if scope = 0x2 then LinkLocal
              else if scope = 0x3 then RealmLocal
              else if scope = 0x4 then AdminLocal
              else if scope = 0x5 then SiteLocal
              else if scope = 0x8 then OrganizationLocal
              else if scope = 0xe then Global
              else OtherScope scope))"

definition ipv6_destination_scope_id :: "ipv6_addr \<Rightarrow> u32 \<Rightarrow> u32" where
  "ipv6_destination_scope_id grp interface_index =
     (case ipv6_multicast_scope grp of
        Some InterfaceLocal \<Rightarrow> interface_index
      | Some LinkLocal \<Rightarrow> interface_index
      | _ \<Rightarrow> 0)"

section \<open>Constructors and builders\<close>

definition config_new :: "ip_addr \<Rightarrow> u16 \<Rightarrow> publication_config" where
  "config_new grp port =
     \<lparr>pc_group = grp, pc_dst_port = port, pc_outgoing_interface = None, pc_source_port = None,
      pc_source_addr = None, pc_ttl = 1, pc_loopback = True\<rparr>"

definition config_family :: "publication_config \<Rightarrow> address_family" where
  "config_family c = (case pc_group c of V4 _ \<Rightarrow> Ipv4 | V6 _ \<Rightarrow> Ipv6)"

definition config_is_ipv4 :: "publication_config \<Rightarrow> bool" where
  "config_is_ipv4 c \<longleftrightarrow> config_family c = Ipv4"

definition config_is_ipv6 :: "publication_config \<Rightarrow> bool" where
  "config_is_ipv6 c \<longleftrightarrow> config_family c = Ipv6"

definition config_validate :: "publication_config \<Rightarrow> mctx_error + unit" where
  "config_validate c =
     (if pc_dst_port c = 0 then Err InvalidDestinationPort
      else if \<not> ip_is_multicast (pc_group c) then Err InvalidMulticastGroup
      else if pc_source_port c = Some 0 then Err InvalidSourcePort
      else and_then
        (case pc_source_addr c of
           Some source_addr \<Rightarrow>
             if ip_is_multicast source_addr \<or> ip_is_unspecified source_addr
             then Err InvalidSourceAddress
             else if \<not> same_family_ip (pc_group c) source_addr
             then Err SourceAddressFamilyMismatch
             else Ok ()
         | None \<Rightarrow> Ok ())
        (\<lambda>_. case pc_outgoing_interface c of
           Some interface \<Rightarrow>
             (case (config_family c, interface) of
                (Ipv4, OutIpv4Addr i) \<Rightarrow>
                  if ipv4_is_multicast i \<or> ipv4_is_unspecified i
                  then Err InvalidInterfaceAddress else Ok ()
              | (Ipv4, OutIpv6Addr _) \<Rightarrow> Err OutgoingInterfaceFamilyMismatch
              | (Ipv4, OutIpv6Index _) \<Rightarrow> Err OutgoingInterfaceFamilyMismatch
              | (Ipv6, OutIpv4Addr _) \<Rightarrow> Err OutgoingInterfaceFamilyMismatch
              | (Ipv6, OutIpv6Addr i) \<Rightarrow>
                  if ipv6_is_multicast i \<or> ipv6_is_unspecified i
                  then Err InvalidInterfaceAddress else Ok ()
              | (Ipv6, OutIpv6Index index) \<Rightarrow>
                  if index = 0 then Err InvalidIpv6InterfaceIndex else Ok ())
         | None \<Rightarrow> Ok ()))"

definition with_outgoing_interface :: "publication_config \<Rightarrow> outgoing_interface \<Rightarrow> publication_config" where
  "with_outgoing_interface c i = c\<lparr>pc_outgoing_interface := Some i\<rparr>"

definition with_interface :: "publication_config \<Rightarrow> ipv4_addr \<Rightarrow> publication_config" where
  "with_interface c i = with_outgoing_interface c (OutIpv4Addr i)"

definition with_ipv6_interface_index :: "publication_config \<Rightarrow> u32 \<Rightarrow> publication_config" where
  "with_ipv6_interface_index c index = c\<lparr>pc_outgoing_interface := Some (OutIpv6Index index)\<rparr>"

definition with_source_port :: "publication_config \<Rightarrow> u16 \<Rightarrow> publication_config" where
  "with_source_port c port = c\<lparr>pc_source_port := Some port\<rparr>"

definition with_source_addr :: "publication_config \<Rightarrow> ip_addr \<Rightarrow> publication_config" where
  "with_source_addr c a = c\<lparr>pc_source_addr := Some a\<rparr>"

definition with_bind_addr :: "publication_config \<Rightarrow> socket_addr \<Rightarrow> publication_config" where
  "with_bind_addr c bind_addr =
     (let c1 = c\<lparr>pc_source_addr := Some (sock_ip bind_addr), pc_source_port := Some (sock_port bind_addr)\<rparr>
      in case bind_addr of
           SockV6 b \<Rightarrow> (if sa6_scope_id b \<noteq> 0
                        then c1\<lparr>pc_outgoing_interface := Some (OutIpv6Index (sa6_scope_id b))\<rparr>
                        else c1)
         | SockV4 _ \<Rightarrow> c1)"

definition with_ttl :: "publication_config \<Rightarrow> u32 \<Rightarrow> publication_config" where
  "with_ttl c ttl = c\<lparr>pc_ttl := ttl\<rparr>"

definition with_loopback :: "publication_config \<Rightarrow> bool \<Rightarrow> publication_config" where
  "with_loopback c l = c\<lparr>pc_loopback := l\<rparr>"

definition config_ipv6_scope :: "publication_config \<Rightarrow> multicast_scope option" where
  "config_ipv6_scope c =
     (case pc_group c of V6 grp \<Rightarrow> ipv6_multicast_scope grp | V4 _ \<Rightarrow> None)"

section \<open>What validation means\<close>

text \<open>The defect each validation error stands for, one predicate per error.\<close>

fun config_defect :: "publication_config \<Rightarrow> mctx_error \<Rightarrow> bool" where
  "config_defect c InvalidDestinationPort = (pc_dst_port c = 0)"
| "config_defect c InvalidMulticastGroup = (\<not> ip_is_multicast (pc_group c))"
| "config_defect c InvalidSourcePort = (pc_source_port c = Some 0)"
| "config_defect c InvalidSourceAddress =
     (\<exists>a. pc_source_addr c = Some a \<and> (ip_is_multicast a \<or> ip_is_unspecified a))"
| "config_defect c SourceAddressFamilyMismatch =
     (\<exists>a. pc_source_addr c = Some a \<and> \<not> same_family_ip (pc_group c) a)"
| "config_defect c InvalidInterfaceAddress =
     ((\<exists>i. pc_outgoing_interface c = Some (OutIpv4Addr i) \<and> (ipv4_is_multicast i \<or> ipv4_is_unspecified i)) \<or>
      (\<exists>i. pc_outgoing_interface c = Some (OutIpv6Addr i) \<and> (ipv6_is_multicast i \<or> ipv6_is_unspecified i)))"
| "config_defect c InvalidIpv6InterfaceIndex = (pc_outgoing_interface c = Some (OutIpv6Index 0))"
| "config_defect c OutgoingInterfaceFamilyMismatch =
     ((\<exists>i. pc_outgoing_interface c = Some (OutIpv4Addr i)) \<and> config_family c = Ipv6 \<or>
      (\<exists>i. pc_outgoing_interface c = Some (OutIpv6Addr i)) \<and> config_family c = Ipv4 \<or>
      (\<exists>i. pc_outgoing_interface c = Some (OutIpv6Index i)) \<and> config_family c = Ipv4)"
| "config_defect c _ = False"

lemma config_validate_Ok_iff:
  "config_validate c = Ok () \<longleftrightarrow> (\<forall>e. \<not> config_defect c e)"
proof
  assume v: "config_validate c = Ok ()"
  show "\<forall>e. \<not> config_defect c e"
  proof
    fix e
    show "\<not> config_defect c e"
      using v by (cases e)
        (auto simp: config_validate_def mctx_result split: if_splits option.splits
           address_family.splits outgoing_interface.splits)
  qed
next
  assume "\<forall>e. \<not> config_defect c e"
  note none = this [rule_format]
  from none [of InvalidDestinationPort] none [of InvalidMulticastGroup]
    none [of InvalidSourcePort] none [of InvalidSourceAddress]
    none [of SourceAddressFamilyMismatch] none [of InvalidInterfaceAddress]
    none [of InvalidIpv6InterfaceIndex] none [of OutgoingInterfaceFamilyMismatch]
  show "config_validate c = Ok ()"
    by (auto simp: config_validate_def mctx_result split: option.splits
        address_family.splits outgoing_interface.splits)
qed

lemma config_validate_Err_defect:
  "config_validate c = Err e \<Longrightarrow> config_defect c e"
  by (auto simp: config_validate_def mctx_result config_family_def split: if_splits option.splits
      address_family.splits outgoing_interface.splits ip_addr.splits)

lemmas validated =
  config_validate_Ok_iff [THEN iffD1, THEN spec, of _ InvalidDestinationPort, simplified]
  config_validate_Ok_iff [THEN iffD1, THEN spec, of _ InvalidMulticastGroup, simplified]

text \<open>
  What the address-family checks of the validation give the socket setup: neither the
  source nor the interface selector can have the other family.
\<close>

lemma validated_families:
  assumes "config_validate c = Ok ()"
  shows "pc_group c = V4 g \<Longrightarrow> pc_source_addr c \<noteq> Some (V6 s)"
    and "pc_group c = V6 h \<Longrightarrow> pc_source_addr c \<noteq> Some (V4 t)"
    and "pc_group c = V6 h \<Longrightarrow> pc_outgoing_interface c \<noteq> Some (OutIpv4Addr i)"
    and "pc_group c = V4 g \<Longrightarrow> pc_outgoing_interface c \<noteq> Some (OutIpv6Addr j)"
    and "pc_group c = V4 g \<Longrightarrow> pc_outgoing_interface c \<noteq> Some (OutIpv6Index k)"
proof -
  from assms have none: "\<not> config_defect c e" for e by (simp add: config_validate_Ok_iff)
  from none [of SourceAddressFamilyMismatch] none [of OutgoingInterfaceFamilyMismatch]
  show "pc_group c = V4 g \<Longrightarrow> pc_source_addr c \<noteq> Some (V6 s)"
    and "pc_group c = V6 h \<Longrightarrow> pc_source_addr c \<noteq> Some (V4 t)"
    and "pc_group c = V6 h \<Longrightarrow> pc_outgoing_interface c \<noteq> Some (OutIpv4Addr i)"
    and "pc_group c = V4 g \<Longrightarrow> pc_outgoing_interface c \<noteq> Some (OutIpv6Addr j)"
    and "pc_group c = V4 g \<Longrightarrow> pc_outgoing_interface c \<noteq> Some (OutIpv6Index k)"
    by (auto simp: config_family_def)
qed

text \<open>
  C23. Validation of a publication configuration is exact: it succeeds if and only if the
  configuration has none of the defects of \<open>config_defect\<close>, and every error it returns
  names a defect that the configuration has.
\<close>

theorem config_validate_exact:
  "case config_validate c of
     Inr _ \<Rightarrow> (\<forall>e. \<not> config_defect c e)
   | Inl e \<Rightarrow> config_defect c e"
  using config_validate_Ok_iff [of c] config_validate_Err_defect [of c]
  by (cases "config_validate c") auto

section \<open>Source-specific groups and scope identifiers\<close>

lemma all_less_8: "(\<forall>n < 8. P n) \<longleftrightarrow> P 0 \<and> P 1 \<and> P 2 \<and> P 3 \<and> P 4 \<and> P 5 \<and> P 6 \<and> P (7 :: nat)"
  by (simp add: eval_nat_numeral All_less_Suc conj_ac)

lemma all_less_add: "(\<forall>n < a + b. P n) \<longleftrightarrow> (\<forall>n < a. P n) \<and> (\<forall>n < b. P (a + n))" for a b :: nat
proof (intro iffI allI impI)
  fix n assume all: "(\<forall>n < a. P n) \<and> (\<forall>n < b. P (a + n))" and n: "n < a + b"
  show "P n"
  proof (cases "n < a")
    case False
    then obtain k where k: "n = a + k" using le_Suc_ex not_less by blast
    with n have "k < b" by simp
    with all k show ?thesis by simp
  qed (use all in simp)
qed auto

lemma all_less_32:
  "(\<forall>n < 32. P n) \<longleftrightarrow> (\<forall>n < 8. P n) \<and> (\<forall>n < 8. P (8 + n)) \<and> (\<forall>n < 8. P (16 + n)) \<and> (\<forall>n < 8. P (24 + n :: nat))"
  using all_less_add [of 8 24 P] all_less_add [of 8 16 "\<lambda>n. P (8 + n)"]
    all_less_add [of 8 8 "\<lambda>n. P (16 + n)"]
  by (simp add: add.assoc [symmetric])

text \<open>
  The octet test of \<open>is_ipv6_ssm_group\<close> is the prefix test the documentation gives:
  the first 32 bits of the group are \<open>ff3x:0000\<close> for some scope nibble \<open>x\<close>.
\<close>

theorem is_ipv6_ssm_group_prefix:
  "is_ipv6_ssm_group g \<longleftrightarrow> (ucast (drop_bit 96 g) :: u32) AND 0xfff0ffff = 0xff300000"
proof -
  have "(ucast (drop_bit 96 g) :: u32) AND 0xfff0ffff = 0xff300000 \<longleftrightarrow>
    (\<forall>n < 32. (bit g (96 + n) \<and> bit (0xfff0ffff :: u32) n) = bit (0xff300000 :: u32) n)"
    by (auto simp: word_eq_iff_bits bit_simps)
  also have "\<dots> \<longleftrightarrow>
    (\<forall>n < 8. \<not> bit g (96 + n)) \<and> (\<forall>n < 8. \<not> bit g (104 + n)) \<and>
    (\<forall>n < 8. (bit g (112 + n) \<and> bit (0xf0 :: u8) n) = bit (0x30 :: u8) n) \<and>
    (\<forall>n < 8. bit g (120 + n))"
    unfolding all_less_32 all_less_8 by (simp add: bit_simps)
  also have "\<dots> \<longleftrightarrow> is_ipv6_ssm_group g"
    by (auto simp: is_ipv6_ssm_group_def ipv6_is_multicast_def word_eq_iff_bits bit_ipv6_octet
        bit_and_iff all_less_8 bit_simps)
  finally show ?thesis by simp
qed

end
