(* ===== verification/Raw_Config.thy ===== *)
theory Raw_Config
  imports Publication_Config
begin

text \<open>
  Configurations of the two raw transmit paths: raw multicast publications
  (\<open>src/raw/config.rs\<close>, with the family rules of \<open>src/raw/platform.rs\<close>) and generic raw IP
  sockets (\<open>src/raw_ip/config.rs\<close>). The feature \<open>raw-route-egress\<close> is taken as enabled.
  Both validations are shown to be exact, and a validated configuration to have one
  address family that all its selectors share.
\<close>

section \<open>Raw multicast publications\<close>

datatype raw_validation_mode = StrictMulticastDestination | AllowAnyDestination

datatype raw_egress_mode = Explicit | RouteSelected

record raw_publication_config =
  rc_family :: "address_family option"
  rc_outgoing_interface :: "outgoing_interface option"
  rc_bind_addr :: "ip_addr option"
  rc_ttl :: "u8 option"
  rc_loopback :: "bool option"
  rc_validation_mode :: raw_validation_mode
  rc_egress_mode :: raw_egress_mode

definition raw_config_new :: raw_publication_config where
  "raw_config_new =
     \<lparr>rc_family = None, rc_outgoing_interface = None, rc_bind_addr = None, rc_ttl = None,
      rc_loopback = None, rc_validation_mode = StrictMulticastDestination, rc_egress_mode = Explicit\<rparr>"

definition raw_with_family :: "raw_publication_config \<Rightarrow> address_family \<Rightarrow> raw_publication_config" where
  "raw_with_family c f = c\<lparr>rc_family := Some f\<rparr>"

definition raw_config_ipv4 :: raw_publication_config where
  "raw_config_ipv4 = raw_with_family raw_config_new Ipv4"

definition raw_config_ipv6 :: raw_publication_config where
  "raw_config_ipv6 = raw_with_family raw_config_new Ipv6"

definition raw_with_outgoing_interface ::
  "raw_publication_config \<Rightarrow> outgoing_interface \<Rightarrow> raw_publication_config" where
  "raw_with_outgoing_interface c i = c\<lparr>rc_outgoing_interface := Some i\<rparr>"

definition raw_with_interface :: "raw_publication_config \<Rightarrow> ipv4_addr \<Rightarrow> raw_publication_config" where
  "raw_with_interface c i = raw_with_outgoing_interface c (OutIpv4Addr i)"

definition raw_with_ipv6_interface_index :: "raw_publication_config \<Rightarrow> u32 \<Rightarrow> raw_publication_config" where
  "raw_with_ipv6_interface_index c i = c\<lparr>rc_outgoing_interface := Some (OutIpv6Index i)\<rparr>"

definition raw_with_bind_addr :: "raw_publication_config \<Rightarrow> ip_addr \<Rightarrow> raw_publication_config" where
  "raw_with_bind_addr c a = c\<lparr>rc_bind_addr := Some a\<rparr>"

definition raw_with_ttl :: "raw_publication_config \<Rightarrow> u8 \<Rightarrow> raw_publication_config" where
  "raw_with_ttl c t = c\<lparr>rc_ttl := Some t\<rparr>"

definition raw_with_loopback :: "raw_publication_config \<Rightarrow> bool \<Rightarrow> raw_publication_config" where
  "raw_with_loopback c l = c\<lparr>rc_loopback := Some l\<rparr>"

definition raw_with_validation_mode ::
  "raw_publication_config \<Rightarrow> raw_validation_mode \<Rightarrow> raw_publication_config" where
  "raw_with_validation_mode c m = c\<lparr>rc_validation_mode := m\<rparr>"

definition raw_with_route_selected_egress :: "raw_publication_config \<Rightarrow> raw_publication_config" where
  "raw_with_route_selected_egress c = c\<lparr>rc_egress_mode := RouteSelected\<rparr>"

definition uses_route_selected_egress :: "raw_publication_config \<Rightarrow> bool" where
  "uses_route_selected_egress c \<longleftrightarrow> rc_egress_mode c = RouteSelected"

fun family_matches_ip :: "address_family \<Rightarrow> ip_addr \<Rightarrow> bool" where
  "family_matches_ip Ipv4 (V4 _) = True"
| "family_matches_ip Ipv6 (V6 _) = True"
| "family_matches_ip _ _ = False"

fun interface_matches_ip :: "outgoing_interface \<Rightarrow> ip_addr \<Rightarrow> bool" where
  "interface_matches_ip (OutIpv4Addr _) (V4 _) = True"
| "interface_matches_ip (OutIpv6Addr _) (V6 _) = True"
| "interface_matches_ip (OutIpv6Index _) (V6 _) = True"
| "interface_matches_ip _ _ = False"

definition route_unsupported :: "nat \<Rightarrow> mctx_error" where
  "route_unsupported k = RawPacketTransmitUnsupported
     ([''route-selected raw egress cannot be combined with bind_addr or outgoing_interface'',
       ''route-selected raw egress requires an explicitly configured address family'',
       ''route-selected raw egress preserves the supplied TTL or hop limit and cannot use an override''] ! k, [])"

definition validate_route_selected_egress :: "raw_publication_config \<Rightarrow> mctx_error + unit" where
  "validate_route_selected_egress c =
     (if rc_bind_addr c \<noteq> None \<or> rc_outgoing_interface c \<noteq> None then Err (route_unsupported 0)
      else if rc_family c = None then Err (route_unsupported 1)
      else if rc_ttl c \<noteq> None then Err (route_unsupported 2)
      else Ok ())"

definition raw_config_validate :: "raw_publication_config \<Rightarrow> mctx_error + unit" where
  "raw_config_validate c =
     (if rc_egress_mode c = RouteSelected then validate_route_selected_egress c
      else if rc_bind_addr c = None \<and> rc_outgoing_interface c = None then Err RawInterfaceRequired
      else and_then
        (case rc_bind_addr c of
           Some bind_addr \<Rightarrow>
             if ip_is_multicast bind_addr \<or> ip_is_unspecified bind_addr then Err InvalidRawBindAddress
             else (case rc_family c of
                     Some family \<Rightarrow>
                       if \<not> family_matches_ip family bind_addr then Err RawBindAddressFamilyMismatch else Ok ()
                   | None \<Rightarrow> Ok ())
         | None \<Rightarrow> Ok ())
        (\<lambda>_. case rc_outgoing_interface c of
           Some outgoing_interface \<Rightarrow>
             and_then
               (case outgoing_interface of
                  OutIpv4Addr interface \<Rightarrow>
                    if ipv4_is_multicast interface \<or> ipv4_is_unspecified interface
                    then Err InvalidInterfaceAddress
                    else if rc_family c = Some Ipv6 then Err OutgoingInterfaceFamilyMismatch
                    else Ok ()
                | OutIpv6Addr interface \<Rightarrow>
                    if ipv6_is_multicast interface \<or> ipv6_is_unspecified interface
                    then Err InvalidInterfaceAddress
                    else if rc_family c = Some Ipv4 then Err OutgoingInterfaceFamilyMismatch
                    else Ok ()
                | OutIpv6Index index \<Rightarrow>
                    if index = 0 then Err InvalidIpv6InterfaceIndex
                    else if rc_family c = Some Ipv4 then Err OutgoingInterfaceFamilyMismatch
                    else Ok ())
               (\<lambda>_. case rc_bind_addr c of
                  Some bind_addr \<Rightarrow>
                    if \<not> interface_matches_ip outgoing_interface bind_addr
                    then Err OutgoingInterfaceFamilyMismatch else Ok ()
                | None \<Rightarrow> Ok ())
         | None \<Rightarrow> Ok ()))"

section \<open>The socket family (\<open>src/raw/platform.rs\<close>)\<close>

fun ip_family :: "ip_addr \<Rightarrow> address_family" where
  "ip_family (V4 _) = Ipv4"
| "ip_family (V6 _) = Ipv6"

fun outgoing_interface_family :: "outgoing_interface option \<Rightarrow> address_family option" where
  "outgoing_interface_family (Some (OutIpv4Addr _)) = Some Ipv4"
| "outgoing_interface_family (Some (OutIpv6Addr _)) = Some Ipv6"
| "outgoing_interface_family (Some (OutIpv6Index _)) = Some Ipv6"
| "outgoing_interface_family None = None"

fun interface_matches_family :: "address_family \<Rightarrow> outgoing_interface \<Rightarrow> bool" where
  "interface_matches_family Ipv4 (OutIpv4Addr _) = True"
| "interface_matches_family Ipv6 (OutIpv6Addr _) = True"
| "interface_matches_family Ipv6 (OutIpv6Index _) = True"
| "interface_matches_family _ _ = False"

definition configured_socket_family :: "raw_publication_config \<Rightarrow> address_family option" where
  "configured_socket_family c =
     or_else (or_else (rc_family c) (map_option ip_family (rc_bind_addr c)))
       (outgoing_interface_family (rc_outgoing_interface c))"

definition infer_socket_family :: "raw_publication_config \<Rightarrow> mctx_error + address_family" where
  "infer_socket_family c = ok_or RawInterfaceRequired (configured_socket_family c)"

text \<open>Shared by the platform code of the two kinds of raw publications.\<close>

definition unsupported :: "string \<Rightarrow> mctx_error" where
  "unsupported m = RawPacketTransmitUnsupported (m, [])"

definition ipproto_raw :: i32 where "ipproto_raw = 255"

section \<open>Generic raw IP sockets\<close>

record raw_ip_socket_config =
  ri_family :: "address_family option"
  ri_bind_addr :: "ip_addr option"
  ri_interface_addr :: "ip_addr option"
  ri_interface_index :: "u32 option"

definition raw_ip_config_new :: raw_ip_socket_config where
  "raw_ip_config_new = \<lparr>ri_family = None, ri_bind_addr = None, ri_interface_addr = None, ri_interface_index = None\<rparr>"

definition ip_with_family :: "raw_ip_socket_config \<Rightarrow> address_family \<Rightarrow> raw_ip_socket_config" where
  "ip_with_family c f = c\<lparr>ri_family := Some f\<rparr>"

definition raw_ip_config_ipv4 :: raw_ip_socket_config where
  "raw_ip_config_ipv4 = ip_with_family raw_ip_config_new Ipv4"

definition raw_ip_config_ipv6 :: raw_ip_socket_config where
  "raw_ip_config_ipv6 = ip_with_family raw_ip_config_new Ipv6"

definition ip_with_bind_addr :: "raw_ip_socket_config \<Rightarrow> ip_addr \<Rightarrow> raw_ip_socket_config" where
  "ip_with_bind_addr c a = c\<lparr>ri_bind_addr := Some a\<rparr>"

definition ip_with_interface_addr :: "raw_ip_socket_config \<Rightarrow> ip_addr \<Rightarrow> raw_ip_socket_config" where
  "ip_with_interface_addr c a = c\<lparr>ri_interface_addr := Some a\<rparr>"

definition ip_with_interface_index :: "raw_ip_socket_config \<Rightarrow> u32 \<Rightarrow> raw_ip_socket_config" where
  "ip_with_interface_index c i = c\<lparr>ri_interface_index := Some i\<rparr>"

definition validate_unicast_selector :: "ip_addr \<Rightarrow> mctx_error \<Rightarrow> mctx_error + unit" where
  "validate_unicast_selector ip error =
     (if ip_is_multicast ip \<or> ip_is_unspecified ip then Err error else Ok ())"

definition index_needs_family :: mctx_error where
  "index_needs_family = RawPacketTransmitUnsupported
     (''raw IP interface-index selection requires an explicit address family'', [])"

definition family_not_inferred :: mctx_error where
  "family_not_inferred = RawPacketTransmitUnsupported
     (''raw IP socket address family could not be inferred'', [])"

definition raw_ip_config_validate :: "raw_ip_socket_config \<Rightarrow> mctx_error + unit" where
  "raw_ip_config_validate c =
     (if ri_bind_addr c = None \<and> ri_interface_addr c = None \<and> ri_interface_index c = None
      then Err RawInterfaceRequired
      else if ri_interface_index c = Some 0 then Err RawInterfaceRequired
      else and_then
        (case ri_bind_addr c of
           Some bind_addr \<Rightarrow>
             and_then (validate_unicast_selector bind_addr InvalidRawBindAddress) (\<lambda>_.
             case ri_family c of
               Some family \<Rightarrow>
                 if \<not> family_matches_ip family bind_addr then Err RawBindAddressFamilyMismatch else Ok ()
             | None \<Rightarrow> Ok ())
         | None \<Rightarrow> Ok ())
        (\<lambda>_. and_then
        (case ri_interface_addr c of
           Some interface_addr \<Rightarrow>
             and_then (validate_unicast_selector interface_addr InvalidInterfaceAddress) (\<lambda>_.
             case ri_family c of
               Some family \<Rightarrow>
                 if \<not> family_matches_ip family interface_addr then Err OutgoingInterfaceFamilyMismatch else Ok ()
             | None \<Rightarrow> Ok ())
         | None \<Rightarrow> Ok ())
        (\<lambda>_. and_then
        (case (ri_bind_addr c, ri_interface_addr c) of
           (Some bind_addr, Some interface_addr) \<Rightarrow>
             if ip_family bind_addr \<noteq> ip_family interface_addr
             then Err OutgoingInterfaceFamilyMismatch else Ok ()
         | _ \<Rightarrow> Ok ())
        (\<lambda>_. if ri_family c = None \<and> ri_bind_addr c = None \<and> ri_interface_addr c = None
             then Err index_needs_family else Ok ()))))"

definition resolved_family :: "raw_ip_socket_config \<Rightarrow> mctx_error + address_family" where
  "resolved_family c =
     and_then (raw_ip_config_validate c) (\<lambda>_.
     ok_or family_not_inferred
       (or_else (or_else (ri_family c) (map_option ip_family (ri_bind_addr c)))
          (map_option ip_family (ri_interface_addr c))))"

section \<open>What validation means\<close>

text \<open>The defects of a raw multicast configuration, by the error that names them.\<close>

definition route_defect :: "raw_publication_config \<Rightarrow> mctx_error \<Rightarrow> bool" where
  "route_defect c e \<longleftrightarrow>
     e = route_unsupported 0 \<and> (rc_bind_addr c \<noteq> None \<or> rc_outgoing_interface c \<noteq> None) \<or>
     e = route_unsupported 1 \<and> rc_family c = None \<or>
     e = route_unsupported 2 \<and> rc_ttl c \<noteq> None"

definition explicit_defect :: "raw_publication_config \<Rightarrow> mctx_error \<Rightarrow> bool" where
  "explicit_defect c e \<longleftrightarrow>
     e = RawInterfaceRequired \<and> rc_bind_addr c = None \<and> rc_outgoing_interface c = None \<or>
     e = InvalidRawBindAddress \<and> (\<exists>a. rc_bind_addr c = Some a \<and> (ip_is_multicast a \<or> ip_is_unspecified a)) \<or>
     e = RawBindAddressFamilyMismatch \<and>
       (\<exists>a f. rc_bind_addr c = Some a \<and> rc_family c = Some f \<and> \<not> family_matches_ip f a) \<or>
     e = InvalidInterfaceAddress \<and>
       ((\<exists>i. rc_outgoing_interface c = Some (OutIpv4Addr i) \<and> (ipv4_is_multicast i \<or> ipv4_is_unspecified i)) \<or>
        (\<exists>i. rc_outgoing_interface c = Some (OutIpv6Addr i) \<and> (ipv6_is_multicast i \<or> ipv6_is_unspecified i))) \<or>
     e = InvalidIpv6InterfaceIndex \<and> rc_outgoing_interface c = Some (OutIpv6Index 0) \<or>
     e = OutgoingInterfaceFamilyMismatch \<and>
       ((\<exists>i f. rc_outgoing_interface c = Some i \<and> rc_family c = Some f \<and> \<not> interface_matches_family f i) \<or>
        (\<exists>i a. rc_outgoing_interface c = Some i \<and> rc_bind_addr c = Some a \<and> \<not> interface_matches_ip i a))"

definition raw_defect :: "raw_publication_config \<Rightarrow> mctx_error \<Rightarrow> bool" where
  "raw_defect c e = (if uses_route_selected_egress c then route_defect c e else explicit_defect c e)"

lemma interface_matches_family_iff:
  "interface_matches_family f i \<longleftrightarrow> outgoing_interface_family (Some i) = Some f"
  by (cases f; cases i) simp_all

lemma interface_matches_ip_iff:
  "interface_matches_ip i a \<longleftrightarrow> outgoing_interface_family (Some i) = Some (ip_family a)"
  by (cases i; cases a) simp_all

lemma family_matches_ip_iff: "family_matches_ip f a \<longleftrightarrow> ip_family a = f"
  by (cases f; cases a) simp_all

lemmas match_iffs = interface_matches_family_iff interface_matches_ip_iff family_matches_ip_iff

lemma family_not [simp]: "f \<noteq> Ipv4 \<longleftrightarrow> f = Ipv6" "f \<noteq> Ipv6 \<longleftrightarrow> f = Ipv4" "Ipv4 \<noteq> f \<longleftrightarrow> f = Ipv6" "Ipv6 \<noteq> f \<longleftrightarrow> f = Ipv4"
  by (cases f; simp)+

lemma explicit_validate_Err:
  assumes "raw_config_validate c = Err e" and "\<not> uses_route_selected_egress c"
  shows "explicit_defect c e"
proof -
  from assms(2) have "rc_egress_mode c \<noteq> RouteSelected" by (simp add: uses_route_selected_egress_def)
  with assms(1) show ?thesis
    unfolding raw_config_validate_def
    by (simp only: if_False and_then_eq_Err split: if_splits)
      (auto simp: explicit_defect_def match_iffs mctx_result
         split: option.splits if_splits outgoing_interface.splits)
qed

lemma explicit_validate_Ok:
  assumes "raw_config_validate c = Ok u" and "\<not> uses_route_selected_egress c"
  shows "\<not> explicit_defect c e"
proof -
  from assms(2) have m: "rc_egress_mode c \<noteq> RouteSelected" by (simp add: uses_route_selected_egress_def)
  show ?thesis
  proof (cases "rc_outgoing_interface c")
    case None
    with assms(1) m show ?thesis
      by (auto simp: raw_config_validate_def explicit_defect_def mctx_result split: option.splits if_splits)
  next
    case (Some i)
    with assms(1) m show ?thesis
      by (cases i)
        (auto simp: raw_config_validate_def explicit_defect_def match_iffs mctx_result
           split: option.splits if_splits)
  qed
qed

lemma route_validate:
  assumes "uses_route_selected_egress c"
  shows "case raw_config_validate c of Inr _ \<Rightarrow> (\<forall>e. \<not> route_defect c e) | Inl e \<Rightarrow> route_defect c e"
  using assms
  by (simp add: raw_config_validate_def uses_route_selected_egress_def validate_route_selected_egress_def
      route_defect_def)

text \<open>
  Validation of a raw multicast configuration is exact in both egress modes: it accepts
  exactly the configurations without a defect, and each error names a defect that is present.
\<close>

theorem raw_config_validate_exact:
  "case raw_config_validate c of Inr _ \<Rightarrow> (\<forall>e. \<not> raw_defect c e) | Inl e \<Rightarrow> raw_defect c e"
proof (cases "uses_route_selected_egress c")
  case True
  then have "raw_defect c = route_defect c" by (simp add: raw_defect_def fun_eq_iff)
  then show ?thesis using route_validate [OF True] by (cases "raw_config_validate c") simp_all
next
  case False
  then show ?thesis using explicit_validate_Err [of c] explicit_validate_Ok [of c]
    by (auto simp: raw_defect_def split: sum.splits)
qed

text \<open>The address family of a validated configuration.\<close>

lemma outgoing_family_Some: "\<exists>f. outgoing_interface_family (Some i) = Some f"
  by (cases i) simp_all

lemma explicit_family:
  assumes "\<And>e. \<not> explicit_defect c e"
  shows "\<exists>f. configured_socket_family c = Some f \<and> rc_family c \<in> {None, Some f} \<and>
    (\<forall>a. rc_bind_addr c = Some a \<longrightarrow> ip_family a = f) \<and>
    outgoing_interface_family (rc_outgoing_interface c) \<in> {None, Some f}"
  using assms [of RawInterfaceRequired] assms [of RawBindAddressFamilyMismatch]
    assms [of OutgoingInterfaceFamilyMismatch]
  by (cases "rc_family c"; cases "rc_bind_addr c"; cases "rc_outgoing_interface c")
    (use outgoing_family_Some in \<open>fastforce simp: explicit_defect_def configured_socket_family_def match_iffs\<close>)+

text \<open>
  C37. A validated raw configuration determines one address family: it is the configured
  one, when there is one, and the family of the bind address and of the interface
  selector. So the setup never guesses a family, and inferring it cannot fail.
\<close>

theorem raw_config_family:
  assumes "raw_config_validate c = Ok ()"
  shows "\<exists>f. configured_socket_family c = Some f \<and> infer_socket_family c = Ok f \<and>
     rc_family c \<in> {None, Some f} \<and> (\<forall>a. rc_bind_addr c = Some a \<longrightarrow> ip_family a = f) \<and>
     outgoing_interface_family (rc_outgoing_interface c) \<in> {None, Some f}"
proof (cases "uses_route_selected_egress c")
  case True
  with assms show ?thesis
    by (auto simp: raw_config_validate_def uses_route_selected_egress_def validate_route_selected_egress_def
        configured_socket_family_def infer_socket_family_def split: if_splits)
next
  case False
  with explicit_family [of c] explicit_validate_Ok [OF assms False] show ?thesis
    by (auto simp: infer_socket_family_def)
qed

theorem raw_config_family_witness:
  "let c = raw_with_ipv6_interface_index raw_config_new 7
   in raw_config_validate c = Ok () \<and> infer_socket_family c = Ok Ipv6"
proof -
  define c where "c = raw_with_ipv6_interface_index raw_config_new 7"
  have v: "raw_config_validate c = Ok ()" unfolding c_def by code_simp
  from raw_config_family [OF v] have "infer_socket_family c = Ok Ipv6"
    by (auto simp: c_def raw_with_ipv6_interface_index_def)
  with v show ?thesis by (simp add: c_def)
qed

text \<open>The defects of a generic raw IP configuration.\<close>

definition raw_ip_defect :: "raw_ip_socket_config \<Rightarrow> mctx_error \<Rightarrow> bool" where
  "raw_ip_defect c e \<longleftrightarrow>
     e = RawInterfaceRequired \<and>
       (ri_bind_addr c = None \<and> ri_interface_addr c = None \<and> ri_interface_index c = None \<or>
        ri_interface_index c = Some 0) \<or>
     e = InvalidRawBindAddress \<and> (\<exists>a. ri_bind_addr c = Some a \<and> (ip_is_multicast a \<or> ip_is_unspecified a)) \<or>
     e = InvalidInterfaceAddress \<and>
       (\<exists>a. ri_interface_addr c = Some a \<and> (ip_is_multicast a \<or> ip_is_unspecified a)) \<or>
     e = RawBindAddressFamilyMismatch \<and>
       (\<exists>a f. ri_bind_addr c = Some a \<and> ri_family c = Some f \<and> ip_family a \<noteq> f) \<or>
     e = OutgoingInterfaceFamilyMismatch \<and>
       ((\<exists>a f. ri_interface_addr c = Some a \<and> ri_family c = Some f \<and> ip_family a \<noteq> f) \<or>
        (\<exists>a b. ri_interface_addr c = Some a \<and> ri_bind_addr c = Some b \<and> ip_family a \<noteq> ip_family b)) \<or>
     e = index_needs_family \<and> ri_family c = None \<and> ri_bind_addr c = None \<and> ri_interface_addr c = None"

lemma raw_ip_validate_Err: "raw_ip_config_validate c = Err e \<Longrightarrow> raw_ip_defect c e"
  unfolding raw_ip_config_validate_def validate_unicast_selector_def
  by (simp only: and_then_eq_Err split: if_splits)
    (auto simp: raw_ip_defect_def match_iffs mctx_result split: option.splits if_splits)

lemma raw_ip_validate_Ok:
  assumes "raw_ip_config_validate c = Ok u"
  shows "\<not> raw_ip_defect c e"
  using assms
  by (cases "ri_bind_addr c"; cases "ri_interface_addr c")
    (auto simp: raw_ip_config_validate_def validate_unicast_selector_def raw_ip_defect_def match_iffs
       index_needs_family_def mctx_result split: option.splits if_splits)

text \<open>
  For a generic raw IP configuration, the resolved family exists exactly when the
  configuration has no defect; it is then the family of every selector and of the configured
  family, and otherwise the error names a defect that is present.
\<close>

theorem raw_ip_resolved_family_exact:
  "case resolved_family c of
     Inr f \<Rightarrow> (\<forall>e. \<not> raw_ip_defect c e) \<and> ri_family c \<in> {None, Some f} \<and>
       map_option ip_family (ri_bind_addr c) \<in> {None, Some f} \<and>
       map_option ip_family (ri_interface_addr c) \<in> {None, Some f}
   | Inl e \<Rightarrow> raw_ip_defect c e"
proof (cases "raw_ip_config_validate c")
  case (Inl e)
  then show ?thesis using raw_ip_validate_Err [OF Inl] by (simp add: resolved_family_def)
next
  case (Inr u)
  note none = raw_ip_validate_Ok [OF Inr]
  from none [of RawBindAddressFamilyMismatch] none [of OutgoingInterfaceFamilyMismatch]
    none [of index_needs_family]
  show ?thesis
    using none Inr
    by (cases "ri_family c"; cases "ri_bind_addr c"; cases "ri_interface_addr c")
      (auto simp: resolved_family_def raw_ip_defect_def index_needs_family_def)
qed

end
