(* ===== verification/Ip_Checksum.thy ===== *)
theory Ip_Checksum
  imports Mctx_Prelude
begin

text \<open>
  The Internet checksum of an IPv4 header, which the sources compute twice: in
  \<open>src/raw/datagram.rs\<close> (any length) and in \<open>src/raw_ip/datagram.rs\<close> (even lengths). Both
  sum 16-bit words into a 32-bit accumulator and fold the carries in a loop. The loop is shown to
  terminate and to compute the sum modulo \<open>2^16 - 1\<close>, from which it follows that a header
  with its checksum filled in sums to zero.
\<close>

section \<open>The code\<close>

text \<open>The sum over \<open>chunks_exact(2)\<close>.\<close>

fun chunk_sum :: "bytes \<Rightarrow> u32 \<Rightarrow> u32" where
  "chunk_sum (a # b # rest) acc = chunk_sum rest (acc + ucast (u16_from_be a b))"
| "chunk_sum _ acc = acc"

lemma and_mask_16: "unat (s AND 0xffff) = unat s mod 65536" for s :: u32
proof -
  have "s AND 0xffff = s mod 65536" using take_bit_eq_mask [of 16 s] by (simp add: mask_numeral take_bit_eq_mod)
  then show ?thesis by (simp add: unat_mod)
qed

lemma drop_16: "unat (drop_bit 16 s) = unat s div 65536" for s :: u32
  by (simp add: drop_bit_eq_div unat_div)

lemma unat_u32_less: "unat (s :: u32) < 4294967296"
  using unsigned_less [of s] by simp

lemma unat_carry: "unat ((s AND 0xffff) + drop_bit 16 s) = unat s mod 65536 + unat s div 65536" for s :: u32
proof -
  have "unat s mod 65536 + unat s div 65536 < 2 ^ 32"
    using unat_u32_less [of s] by simp
  then show ?thesis by (simp add: unat_word_ariths and_mask_16 drop_16)
qed

text \<open>The loop that adds the carries back in.\<close>

function fold_carry :: "u32 \<Rightarrow> u32" where
  "fold_carry acc = (if drop_bit 16 acc \<noteq> 0 then fold_carry ((acc AND 0xffff) + drop_bit 16 acc) else acc)"
  by pat_completeness auto

lemma carry_decreases:
  assumes "drop_bit 16 s \<noteq> (0 :: u32)"
  shows "unat ((s AND 0xffff) + drop_bit 16 s) < unat s"
proof -
  from assms have "unat s div 65536 \<noteq> 0" by (metis drop_16 unsigned_eq_0_iff)
  moreover have "unat s = unat s mod 65536 + 65536 * (unat s div 65536)"
    by (rule mod_mult_div_eq [symmetric])
  ultimately have "unat s mod 65536 + unat s div 65536 < unat s" by linarith
  then show ?thesis by (simp only: unat_carry)
qed

termination fold_carry
  by (relation "measure unat") (simp_all add: carry_decreases)

declare fold_carry.simps [simp del]

definition raw_ipv4_header_checksum :: "bytes \<Rightarrow> u16" where
  "raw_ipv4_header_checksum header =
     (let acc = chunk_sum header 0;
          acc = (if odd (length header) then acc + push_bit 8 (ucast (last header)) else acc)
      in NOT (ucast (fold_carry acc)))"

definition raw_ip_ipv4_header_checksum :: "bytes \<Rightarrow> u16" where
  "raw_ip_ipv4_header_checksum header = NOT (ucast (fold_carry (chunk_sum header 0)))"

section \<open>What the code computes\<close>

text \<open>The sum of the 16-bit words, without a bound.\<close>

fun be_sum :: "bytes \<Rightarrow> nat" where
  "be_sum (a # b # rest) = 256 * unat a + unat b + be_sum rest"
| "be_sum _ = 0"

lemma be_sum_append: "even (length xs) \<Longrightarrow> be_sum (xs @ ys) = be_sum xs + be_sum ys"
  by (induction xs rule: be_sum.induct) auto

lemma be_sum_bound: "be_sum bs \<le> 65535 * (length bs div 2)"
proof (induction bs rule: be_sum.induct)
  case (1 a b rest)
  then show ?case using unat_u8_less [of a] unat_u8_less [of b] by simp
qed auto

lemma unat_ucast_u32: "unat (ucast w :: u32) = unat w" for w :: u16
  using unat_u16_less [of w] by (simp add: unsigned_ucast_eq take_bit_eq_mod)

lemma chunk_sum_unat:
  "unat s + be_sum bs < 2 ^ 32 \<Longrightarrow> unat (chunk_sum bs s) = unat s + be_sum bs"
proof (induction bs s rule: chunk_sum.induct)
  case (1 a b rest s)
  have "unat (s + ucast (u16_from_be a b)) = unat s + (256 * unat a + unat b)"
    using "1.prems" by (simp add: unat_word_ariths unat_ucast_u32 unat_u16_from_be)
  then show ?case using 1 by (simp add: algebra_simps)
qed auto

text \<open>Folding keeps the residue modulo \<open>2^16 - 1\<close> and whether the sum is zero.\<close>

lemma fold_carry_less: "unat (fold_carry s) < 65536"
proof (induction s rule: fold_carry.induct)
  case (1 s)
  show ?case
  proof (cases "drop_bit 16 s = 0")
    case True
    then have "unat s div 65536 = 0" by (metis drop_16 unsigned_0)
    then show ?thesis using True by (simp add: fold_carry.simps [of s] div_eq_0_iff)
  qed (use 1 in \<open>simp add: fold_carry.simps [of s]\<close>)
qed

lemma mod_65535_carry: "(n mod 65536 + n div 65536) mod 65535 = n mod 65535" for n :: nat
proof -
  have "n = n mod 65536 + n div 65536 + 65535 * (n div 65536)"
    using mod_mult_div_eq [of n 65536] by linarith
  then have "n mod 65535 = (n mod 65536 + n div 65536 + 65535 * (n div 65536)) mod 65535" by simp
  also have "\<dots> = (n mod 65536 + n div 65536) mod 65535" by (rule mod_mult_self2)
  finally show ?thesis by simp
qed

lemma fold_carry_mod: "unat (fold_carry s) mod 65535 = unat s mod 65535"
proof (induction s rule: fold_carry.induct)
  case (1 s)
  then show ?case
    by (cases "drop_bit 16 s = 0") (simp_all add: fold_carry.simps [of s] unat_carry mod_65535_carry)
qed

lemma fold_carry_zero: "fold_carry s = 0 \<longleftrightarrow> s = 0"
proof (induction s rule: fold_carry.induct)
  case (1 s)
  have "(s AND 0xffff) + drop_bit 16 s = 0 \<Longrightarrow> s = 0"
  proof -
    assume "(s AND 0xffff) + drop_bit 16 s = 0"
    then have "unat s mod 65536 + unat s div 65536 = 0" by (metis unat_carry unsigned_0)
    then show "s = 0"
      by (metis add_is_0 mod_mult_div_eq mult_0_right unsigned_eq_0_iff)
  qed
  then show ?case
    using 1 by (cases "drop_bit 16 s = 0") (auto simp: fold_carry.simps [of s])
qed

lemma unat_not_u16: "unat (NOT w :: u16) = 65535 - unat w"
proof -
  have "NOT w = - 1 - w" by (simp add: not_eq_complement)
  moreover have "unat (- 1 - w) = unat (- 1 :: u16) - unat w"
    by (rule unat_sub) (rule word_order.extremum)
  moreover have "unat (- 1 :: u16) = 65535" by (simp add: unsigned_minus_1_eq_mask mask_eq_exp_minus_1)
  ultimately show ?thesis by simp
qed

lemma unat_low_16: "unat (ucast s :: u16) = unat s mod 65536" for s :: u32
  by (simp add: unsigned_ucast_eq take_bit_eq_mod)

lemma checksum_unat:
  "unat (raw_ip_ipv4_header_checksum h) = 65535 - unat (fold_carry (chunk_sum h 0))"
  using fold_carry_less [of "chunk_sum h 0"]
  by (simp add: raw_ip_ipv4_header_checksum_def unat_not_u16 unat_low_16)

text \<open>A checksum of zero: the sum is a positive multiple of \<open>2^16 - 1\<close>.\<close>

lemma checksum_zero_iff:
  assumes "be_sum h < 2 ^ 32"
  shows "raw_ip_ipv4_header_checksum h = 0 \<longleftrightarrow> be_sum h \<noteq> 0 \<and> be_sum h mod 65535 = 0"
proof -
  let ?s = "chunk_sum h 0"
  have s: "unat ?s = be_sum h" using chunk_sum_unat [of 0 h] assms by simp
  have "raw_ip_ipv4_header_checksum h = 0 \<longleftrightarrow> 65535 - unat (fold_carry ?s) = 0"
    using checksum_unat [of h] by (metis unsigned_eq_0_iff)
  also have "\<dots> \<longleftrightarrow> unat (fold_carry ?s) = 65535"
    using fold_carry_less [of ?s] by linarith
  also have "\<dots> \<longleftrightarrow> unat (fold_carry ?s) \<noteq> 0 \<and> unat (fold_carry ?s) mod 65535 = 0"
    using fold_carry_less [of ?s] by (auto elim!: dvdE simp: mod_eq_0_iff_dvd)
  also have "\<dots> \<longleftrightarrow> be_sum h \<noteq> 0 \<and> be_sum h mod 65535 = 0"
    by (metis fold_carry_mod fold_carry_zero s unsigned_eq_0_iff)
  finally show ?thesis .
qed

lemma split_at_checksum:
  "12 \<le> length h \<Longrightarrow> h[10 := a, 11 := b] = take 10 h @ a # b # drop 12 h"
  by (rule nth_equalityI) (auto simp: nth_append nth_Cons' nth_list_update)

lemma be_sum_checksum_field:
  "12 \<le> length h \<Longrightarrow> be_sum (h[10 := a, 11 := b]) = be_sum (h[10 := 0, 11 := 0]) + 256 * unat a + unat b"
  by (simp add: split_at_checksum be_sum_append)

text \<open>Filling in the checksum makes a header sum to zero.\<close>

lemma checksum_fills:
  assumes "12 \<le> length h" and "length h \<le> 60"
    and "u16_to_be (raw_ip_ipv4_header_checksum (h[10 := 0, 11 := 0])) = (a, b)"
  shows "raw_ip_ipv4_header_checksum (h[10 := a, 11 := b]) = 0"
proof -
  let ?hz = "h[10 := 0, 11 := 0]" and ?h = "h[10 := a, 11 := b]"
  let ?c = "raw_ip_ipv4_header_checksum ?hz"
  let ?f = "unat (fold_carry (chunk_sum ?hz 0))"
  have bound: "be_sum x < 2 ^ 32" if "length x = length h" for x
    using be_sum_bound [of x] assms(2) that by simp
  have s: "unat (chunk_sum ?hz 0) = be_sum ?hz" using chunk_sum_unat [of 0 ?hz] bound [of ?hz] by simp
  have f: "?f mod 65535 = be_sum ?hz mod 65535" "?f = 0 \<longleftrightarrow> be_sum ?hz = 0" "?f \<le> 65535"
    subgoal using fold_carry_mod [of "chunk_sum ?hz 0"] by (simp add: s)
    subgoal using fold_carry_zero [of "chunk_sum ?hz 0"] s by (metis unsigned_eq_0_iff)
    subgoal using fold_carry_less [of "chunk_sum ?hz 0"] by simp
    done
  have "unat ?c = 256 * unat a + unat b" using unat_u16_from_be [of a b] unfolding u16_be_roundtrip [OF assms(3)] .
  then have total: "be_sum ?h = be_sum ?hz + (65535 - ?f)"
    using be_sum_checksum_field [OF assms(1), of a b] checksum_unat [of ?hz] by linarith
  have "(be_sum ?hz + (65535 - ?f)) mod 65535 = (?f + (65535 - ?f)) mod 65535"
    using mod_add_cong [OF f(1) refl, of "65535 - ?f"] by (rule sym)
  also have "\<dots> = 0" using f(3) by simp
  finally have "be_sum ?h mod 65535 = 0" using total by simp
  moreover have "be_sum ?h \<noteq> 0" using total f(2,3) by (cases "?f = 0") auto
  ultimately show ?thesis using checksum_zero_iff [of ?h] bound [of ?h] by simp
qed

text \<open>The two routines agree on headers of even length, which all parsed headers have.\<close>

lemma checksums_agree: "even (length h) \<Longrightarrow> raw_ipv4_header_checksum h = raw_ip_ipv4_header_checksum h"
  by (simp add: raw_ipv4_header_checksum_def raw_ip_ipv4_header_checksum_def)

end
