(* ===== verification/Raw_Datagram.thy ===== *)
theory Raw_Datagram
  imports Publication_Config Ip_Checksum
begin

text \<open>
  Complete IP datagrams supplied by the caller: the two parsers (\<open>src/raw/datagram.rs\<close>
  and the stricter one of \<open>src/raw_ip/datagram.rs\<close>), the rewriting of the TTL or hop limit,
  and the link-layer headers of \<open>src/raw/link.rs\<close>. Every index and slice of the source is
  a checked access here, so that a panic would be visible in the result.
\<close>

section \<open>The parser for raw multicast publications\<close>

record parsed_raw =
  pr_family :: address_family
  pr_source_ip :: ip_addr
  pr_destination_ip :: ip_addr
  pr_protocol :: u8
  pr_header_len :: nat
  pr_ttl_or_hop_limit :: u8

definition invalid :: "mctx_error failure + 'a" where
  "invalid = Err (Raised InvalidRawIpDatagram)"

text \<open>\<open>Ipv4Addr::new(d[i], d[i+1], d[i+2], d[i+3])\<close>\<close>

definition ipv4_at :: "bytes \<Rightarrow> nat \<Rightarrow> (ipv4_addr \<Rightarrow> 'e failure + 'b) \<Rightarrow> 'e failure + 'b" where
  "ipv4_at d i k = idx d i (\<lambda>a. idx d (i + 1) (\<lambda>b. idx d (i + 2) (\<lambda>c. idx d (i + 3) (\<lambda>e. k (Ipv4Addr a b c e)))))"

text \<open>\<open>u16::from_be_bytes([d[i], d[i+1]])\<close> as a \<open>usize\<close>\<close>

definition be16_at :: "bytes \<Rightarrow> nat \<Rightarrow> (nat \<Rightarrow> 'e failure + 'b) \<Rightarrow> 'e failure + 'b" where
  "be16_at d i k = idx d i (\<lambda>a. idx d (i + 1) (\<lambda>b. k (unat (u16_from_be a b))))"

definition raw_parse_ipv4_datagram :: "bytes \<Rightarrow> mctx_error failure + parsed_raw" where
  "raw_parse_ipv4_datagram d =
     (if length d < 20 then invalid
      else idx d 0 (\<lambda>b0.
        let ihl = unat (b0 AND 0x0f) * 4 in
        if ihl < 20 \<or> length d < ihl then invalid
        else be16_at d 2 (\<lambda>total_len.
          if total_len < ihl \<or> total_len \<noteq> length d then invalid
          else ipv4_at d 12 (\<lambda>source. ipv4_at d 16 (\<lambda>destination. idx d 9 (\<lambda>protocol. idx d 8 (\<lambda>ttl.
            Ok \<lparr>pr_family = Ipv4, pr_source_ip = V4 source, pr_destination_ip = V4 destination,
                pr_protocol = protocol, pr_header_len = ihl, pr_ttl_or_hop_limit = ttl\<rparr>)))))))"

definition raw_parse_ipv6_datagram :: "bytes \<Rightarrow> mctx_error failure + parsed_raw" where
  "raw_parse_ipv6_datagram d =
     (if length d < 40 then invalid
      else be16_at d 4 (\<lambda>payload_len.
        let total_len = 40 + payload_len in
        if total_len \<noteq> length d then invalid
        else slice d 8 24 (\<lambda>source. slice d 24 40 (\<lambda>destination. idx d 6 (\<lambda>protocol. idx d 7 (\<lambda>hop_limit.
          Ok \<lparr>pr_family = Ipv6, pr_source_ip = V6 (ipv6_from_octets source),
              pr_destination_ip = V6 (ipv6_from_octets destination), pr_protocol = protocol,
              pr_header_len = 40, pr_ttl_or_hop_limit = hop_limit\<rparr>))))))"

definition parse_raw_ip_datagram :: "bytes \<Rightarrow> mctx_error failure + parsed_raw" where
  "parse_raw_ip_datagram d =
     (case d of
        [] \<Rightarrow> invalid
      | byte # _ \<Rightarrow>
          let version = drop_bit 4 byte in
          if version = 4 then raw_parse_ipv4_datagram d
          else if version = 6 then raw_parse_ipv6_datagram d
          else invalid)"

definition apply_ttl_or_hop_limit_override ::
  "bytes \<Rightarrow> parsed_raw \<Rightarrow> u8 \<Rightarrow> mctx_error failure + bytes" where
  "apply_ttl_or_hop_limit_override d parsed ttl =
     (case pr_family parsed of
        Ipv4 \<Rightarrow>
          upd d 8 ttl (\<lambda>d. upd d 10 0 (\<lambda>d. upd d 11 0 (\<lambda>d.
          slice d 0 (pr_header_len parsed) (\<lambda>header.
          let (c0, c1) = u16_to_be (raw_ipv4_header_checksum header) in
          upd d 10 c0 (\<lambda>d. upd d 11 c1 Ok)))))
      | Ipv6 \<Rightarrow> upd d 7 ttl Ok)"

section \<open>The parser for generic raw IP publications\<close>

record parsed_raw_ip =
  pi_family :: address_family
  pi_source_ip :: ip_addr
  pi_destination_ip :: ip_addr
  pi_protocol :: u8
  pi_header_len :: nat
  pi_ttl_or_hop_limit :: u8
  pi_traffic_class :: u8

definition raw_ip_parse_ipv4_datagram :: "bytes \<Rightarrow> mctx_error failure + parsed_raw_ip" where
  "raw_ip_parse_ipv4_datagram d =
     (if length d < 20 then invalid
      else idx d 0 (\<lambda>b0.
        if drop_bit 4 b0 \<noteq> 4 then invalid
        else
          let header_len = unat (b0 AND 0x0f) * 4 in
          if header_len < 20 \<or> length d < header_len then invalid
          else be16_at d 2 (\<lambda>total_len.
            if total_len \<noteq> length d \<or> total_len < header_len then invalid
            else slice d 0 header_len (\<lambda>header.
              if raw_ip_ipv4_header_checksum header \<noteq> 0 then invalid
              else ipv4_at d 12 (\<lambda>source. ipv4_at d 16 (\<lambda>destination.
                if ipv4_is_unspecified source \<or> ipv4_is_unspecified destination then invalid
                else idx d 9 (\<lambda>protocol. idx d 8 (\<lambda>ttl. idx d 1 (\<lambda>tos.
                  Ok \<lparr>pi_family = Ipv4, pi_source_ip = V4 source, pi_destination_ip = V4 destination,
                      pi_protocol = protocol, pi_header_len = header_len, pi_ttl_or_hop_limit = ttl,
                      pi_traffic_class = tos\<rparr>)))))))))"

definition raw_ip_parse_ipv6_datagram :: "bytes \<Rightarrow> mctx_error failure + parsed_raw_ip" where
  "raw_ip_parse_ipv6_datagram d =
     (if length d < 40 then invalid
      else idx d 0 (\<lambda>b0.
        if drop_bit 4 b0 \<noteq> 6 then invalid
        else be16_at d 4 (\<lambda>payload_len.
          let total_len = 40 + payload_len in
          if total_len \<noteq> length d then invalid
          else slice d 8 24 (\<lambda>source. slice d 24 40 (\<lambda>destination.
            let source_ip = ipv6_from_octets source; destination_ip = ipv6_from_octets destination in
            if ipv6_is_unspecified source_ip \<or> ipv6_is_unspecified destination_ip then invalid
            else idx d 6 (\<lambda>protocol. idx d 7 (\<lambda>hop_limit. idx d 1 (\<lambda>b1.
              Ok \<lparr>pi_family = Ipv6, pi_source_ip = V6 source_ip, pi_destination_ip = V6 destination_ip,
                  pi_protocol = protocol, pi_header_len = 40, pi_ttl_or_hop_limit = hop_limit,
                  pi_traffic_class = push_bit 4 (b0 AND 0x0f) OR drop_bit 4 b1\<rparr>))))))))"

definition parse_complete_ip_datagram :: "bytes \<Rightarrow> mctx_error failure + parsed_raw_ip" where
  "parse_complete_ip_datagram d =
     (case d of
        [] \<Rightarrow> invalid
      | byte # _ \<Rightarrow>
          let version = drop_bit 4 byte in
          if version = 4 then raw_ip_parse_ipv4_datagram d
          else if version = 6 then raw_ip_parse_ipv6_datagram d
          else invalid)"

section \<open>Link-layer headers\<close>

definition ipv6_multicast_mac :: "ipv6_addr \<Rightarrow> bytes" where
  "ipv6_multicast_mac g =
     [0x33, 0x33, ipv6_octet g 12, ipv6_octet g 13, ipv6_octet g 14, ipv6_octet g 15]"

text \<open>
  Three \<open>copy_from_slice\<close> into a zeroed array of 14 bytes; the source address is an array
  of 6 bytes.
\<close>

definition ethernet_ipv6_header :: "ipv6_addr \<Rightarrow> bytes \<Rightarrow> bytes" where
  "ethernet_ipv6_header g source_mac =
     ipv6_multicast_mac g @ source_mac @ (let (a, b) = u16_to_be 0x86dd in [a, b])"

section \<open>What the parsers accept\<close>

definition field16 :: "bytes \<Rightarrow> nat \<Rightarrow> nat" where
  "field16 d i = 256 * unat (d ! i) + unat (d ! (i + 1))"

definition ihl_bytes :: "bytes \<Rightarrow> nat" where
  "ihl_bytes d = unat (d ! 0 AND 0x0f) * 4"

definition wellformed_v4 :: "bytes \<Rightarrow> bool" where
  "wellformed_v4 d \<longleftrightarrow> d \<noteq> [] \<and> drop_bit 4 (d ! 0) = 4 \<and>
     20 \<le> ihl_bytes d \<and> ihl_bytes d \<le> length d \<and> field16 d 2 = length d"

definition wellformed_v6 :: "bytes \<Rightarrow> bool" where
  "wellformed_v6 d \<longleftrightarrow> d \<noteq> [] \<and> drop_bit 4 (d ! 0) = 6 \<and> 40 \<le> length d \<and> 40 + field16 d 4 = length d"

definition addr4 :: "bytes \<Rightarrow> nat \<Rightarrow> ip_addr" where
  "addr4 d i = V4 (Ipv4Addr (d ! i) (d ! (i + 1)) (d ! (i + 2)) (d ! (i + 3)))"

definition addr6 :: "bytes \<Rightarrow> nat \<Rightarrow> ip_addr" where
  "addr6 d i = V6 (ipv6_from_octets (take 16 (drop i d)))"

definition fields_v4 :: "bytes \<Rightarrow> parsed_raw" where
  "fields_v4 d = \<lparr>pr_family = Ipv4, pr_source_ip = addr4 d 12, pr_destination_ip = addr4 d 16,
     pr_protocol = d ! 9, pr_header_len = ihl_bytes d, pr_ttl_or_hop_limit = d ! 8\<rparr>"

definition fields_v6 :: "bytes \<Rightarrow> parsed_raw" where
  "fields_v6 d = \<lparr>pr_family = Ipv6, pr_source_ip = addr6 d 8, pr_destination_ip = addr6 d 24,
     pr_protocol = d ! 6, pr_header_len = 40, pr_ttl_or_hop_limit = d ! 7\<rparr>"

lemma be16_at_in [simp]: "i + 1 < length d \<Longrightarrow> be16_at d i k = k (field16 d i)"
  by (simp add: be16_at_def field16_def unat_u16_from_be)

lemma ipv4_at_in [simp]:
  "i + 3 < length d \<Longrightarrow> ipv4_at d i k = k (Ipv4Addr (d ! i) (d ! (i + 1)) (d ! (i + 2)) (d ! (i + 3)))"
  by (simp add: ipv4_at_def)

lemma raw_parse_v4:
  assumes "d \<noteq> []" and "drop_bit 4 (d ! 0) = 4"
  shows "raw_parse_ipv4_datagram d = (if wellformed_v4 d then Ok (fields_v4 d) else invalid)"
proof (cases "length d < 20")
  case True
  then show ?thesis by (auto simp: raw_parse_ipv4_datagram_def wellformed_v4_def)
next
  case False
  then show ?thesis
    using assms
    by (auto simp: raw_parse_ipv4_datagram_def wellformed_v4_def ihl_bytes_def Let_def fields_v4_def addr4_def)
qed

lemma raw_parse_v6:
  assumes "d \<noteq> []" and "drop_bit 4 (d ! 0) = 6"
  shows "raw_parse_ipv6_datagram d = (if wellformed_v6 d then Ok (fields_v6 d) else invalid)"
proof (cases "length d < 40")
  case True
  then show ?thesis by (auto simp: raw_parse_ipv6_datagram_def wellformed_v6_def)
next
  case False
  then show ?thesis
    using assms by (auto simp: raw_parse_ipv6_datagram_def wellformed_v6_def Let_def fields_v6_def addr6_def)
qed

lemma wellformed_exclusive: "wellformed_v4 d \<Longrightarrow> \<not> wellformed_v6 d"
  by (simp add: wellformed_v4_def wellformed_v6_def)

text \<open>The dispatch on the version, shared by the two parsers.\<close>

lemma raw_parse_eq:
  "parse_raw_ip_datagram d =
     (if wellformed_v4 d then Ok (fields_v4 d) else if wellformed_v6 d then Ok (fields_v6 d) else invalid)"
proof (cases d)
  case Nil
  then show ?thesis by (simp add: parse_raw_ip_datagram_def wellformed_v4_def wellformed_v6_def)
next
  case (Cons b r)
  then have ne: "d \<noteq> []" "d ! 0 = b" by simp_all
  have "parse_raw_ip_datagram d =
      (if drop_bit 4 (d ! 0) = 4 then raw_parse_ipv4_datagram d
       else if drop_bit 4 (d ! 0) = 6 then raw_parse_ipv6_datagram d else invalid)"
    by (simp add: parse_raw_ip_datagram_def Cons)
  with raw_parse_v4 [OF ne(1)] raw_parse_v6 [OF ne(1)] show ?thesis
    by (auto simp: wellformed_v4_def wellformed_v6_def)
qed

definition specified :: "parsed_raw \<Rightarrow> bool" where
  "specified p \<longleftrightarrow> \<not> ip_is_unspecified (pr_source_ip p) \<and> \<not> ip_is_unspecified (pr_destination_ip p)"

definition traffic_class :: "bytes \<Rightarrow> u8" where
  "traffic_class d = (if drop_bit 4 (d ! 0) = 4 then d ! 1
     else push_bit 4 (d ! 0 AND 0x0f) OR drop_bit 4 (d ! 1))"

text \<open>What the strict parser adds to the fields the other parser returns.\<close>

definition with_class :: "parsed_raw \<Rightarrow> u8 \<Rightarrow> parsed_raw_ip" where
  "with_class p tc = \<lparr>pi_family = pr_family p, pi_source_ip = pr_source_ip p,
     pi_destination_ip = pr_destination_ip p, pi_protocol = pr_protocol p,
     pi_header_len = pr_header_len p, pi_ttl_or_hop_limit = pr_ttl_or_hop_limit p, pi_traffic_class = tc\<rparr>"

lemma raw_ip_parse_v4:
  assumes "d \<noteq> []" and "drop_bit 4 (d ! 0) = 4"
  shows "raw_ip_parse_ipv4_datagram d =
    (if wellformed_v4 d \<and> raw_ip_ipv4_header_checksum (take (ihl_bytes d) d) = 0 \<and> specified (fields_v4 d)
     then Ok (with_class (fields_v4 d) (traffic_class d)) else invalid)"
proof (cases "length d < 20")
  case True
  then show ?thesis by (auto simp: raw_ip_parse_ipv4_datagram_def wellformed_v4_def)
next
  case False
  then show ?thesis
    using assms
    by (auto simp: raw_ip_parse_ipv4_datagram_def wellformed_v4_def ihl_bytes_def [symmetric] Let_def
        fields_v4_def addr4_def specified_def with_class_def traffic_class_def)
qed

lemma raw_ip_parse_v6:
  assumes "d \<noteq> []" and "drop_bit 4 (d ! 0) = 6"
  shows "raw_ip_parse_ipv6_datagram d =
    (if wellformed_v6 d \<and> specified (fields_v6 d)
     then Ok (with_class (fields_v6 d) (traffic_class d)) else invalid)"
proof (cases "length d < 40")
  case True
  then show ?thesis by (auto simp: raw_ip_parse_ipv6_datagram_def wellformed_v6_def)
next
  case False
  then show ?thesis
    using assms
    by (auto simp: raw_ip_parse_ipv6_datagram_def wellformed_v6_def Let_def
        fields_v6_def addr6_def specified_def with_class_def traffic_class_def)
qed

text \<open>The strict parser as a restriction of the other one.\<close>

definition strict_ok :: "bytes \<Rightarrow> parsed_raw \<Rightarrow> bool" where
  "strict_ok d p \<longleftrightarrow> specified p \<and>
     (pr_family p = Ipv4 \<longrightarrow> raw_ip_ipv4_header_checksum (take (pr_header_len p) d) = 0)"

lemma parse_complete_eq:
  "parse_complete_ip_datagram d =
     and_then (parse_raw_ip_datagram d)
       (\<lambda>p. if strict_ok d p then Ok (with_class p (traffic_class d)) else invalid)"
proof (cases d)
  case Nil
  then show ?thesis by (simp add: parse_complete_ip_datagram_def parse_raw_ip_datagram_def invalid_def)
next
  case (Cons b r)
  then have ne: "d \<noteq> []" "d ! 0 = b" by simp_all
  have disp: "parse_complete_ip_datagram d =
      (if drop_bit 4 (d ! 0) = 4 then raw_ip_parse_ipv4_datagram d
       else if drop_bit 4 (d ! 0) = 6 then raw_ip_parse_ipv6_datagram d else invalid)"
    by (simp add: parse_complete_ip_datagram_def Cons)
  have v4: "wellformed_v4 d \<Longrightarrow> drop_bit 4 (d ! 0) = 4" and v6: "wellformed_v6 d \<Longrightarrow> drop_bit 4 (d ! 0) = 6"
    by (simp_all add: wellformed_v4_def wellformed_v6_def)
  show ?thesis
    using raw_ip_parse_v4 [OF ne(1)] raw_ip_parse_v6 [OF ne(1)] v4 v6
    by (auto simp: disp raw_parse_eq strict_ok_def fields_v4_def fields_v6_def invalid_def)
qed

end
