(* ===== verification/Raw_Datagram_Facts.thy ===== *)
theory Raw_Datagram_Facts
  imports Raw_Datagram
begin

text \<open>
  Properties of the datagram code of \<open>src/raw/datagram.rs\<close> and \<open>src/raw_ip/datagram.rs\<close>:
  the parsers are total and exact, the strict parser accepts a subset of what the other one
  accepts with the same fields, and rewriting the TTL or hop limit yields a datagram that both
  parsers read back with only that field changed.
\<close>

section \<open>The interface the senders rely on\<close>

locale ip_datagram_parser =
  fixes parse :: "bytes \<Rightarrow> mctx_error failure + 'p"
    and fam :: "'p \<Rightarrow> address_family"
    and src :: "'p \<Rightarrow> ip_addr"
    and dst :: "'p \<Rightarrow> ip_addr"
    and hlen :: "'p \<Rightarrow> nat"
  assumes parse_safe: "no_panic (parse d)"
    and parse_error: "parse d = Inl f \<Longrightarrow> f = Raised InvalidRawIpDatagram"
    and parse_bounds: "parse d = Inr p \<Longrightarrow> 20 \<le> hlen p \<and> hlen p \<le> length d \<and> length d < 65576"
    and parse_families: "parse d = Inr p \<Longrightarrow>
      (case fam p of Ipv4 \<Rightarrow> (\<exists>a. src p = V4 a) \<and> (\<exists>a. dst p = V4 a)
                   | Ipv6 \<Rightarrow> (\<exists>a. src p = V6 a) \<and> (\<exists>a. dst p = V6 a))"
begin

text \<open>Slicing the header off a parsed datagram, and indexing into it, does not panic.\<close>

lemma header_slice: "parse d = Inr p \<Longrightarrow> slice d 0 (hlen p) k = k (take (hlen p) d)"
  using parse_bounds [of d p] by simp

lemma header_index: "parse d = Inr p \<Longrightarrow> i < 20 \<Longrightarrow> idx d i k = k (d ! i)"
  using parse_bounds [of d p] by simp

lemma nonempty: "parse d = Inr p \<Longrightarrow> d \<noteq> []"
  using parse_bounds [of d p] by auto

lemma same_family: "parse d = Inr p \<Longrightarrow> same_family_ip (src p) (dst p)"
  using parse_families [of d p] by (auto split: address_family.splits)

lemma destination_v6: "parse d = Inr p \<Longrightarrow> fam p = Ipv6 \<longleftrightarrow> (\<exists>a. dst p = V6 a)"
  using parse_families [of d p] by (auto split: address_family.splits)

end

lemma field16_less: "field16 d i < 65536"
  using unat_u8_less [of "d ! i"] unat_u8_less [of "d ! (i + 1)"] by (simp add: field16_def)

lemma raw_parse_cases:
  assumes "parse_raw_ip_datagram d = Inr p"
  obtains (v4) "wellformed_v4 d" "p = fields_v4 d" | (v6) "wellformed_v6 d" "p = fields_v6 d"
  using assms by (auto simp: raw_parse_eq invalid_def split: if_splits)

interpretation raw_parser: ip_datagram_parser
  parse_raw_ip_datagram pr_family pr_source_ip pr_destination_ip pr_header_len
proof unfold_locales
  fix d p assume "parse_raw_ip_datagram d = Inr p"
  then show "20 \<le> pr_header_len p \<and> pr_header_len p \<le> length d \<and> length d < 65576"
    using field16_less [of d 2] field16_less [of d 4]
    by (cases rule: raw_parse_cases) (auto simp: wellformed_v4_def wellformed_v6_def fields_v4_def fields_v6_def)
next
  fix d p assume "parse_raw_ip_datagram d = Inr p"
  then show "case pr_family p of
      Ipv4 \<Rightarrow> (\<exists>a. pr_source_ip p = V4 a) \<and> (\<exists>a. pr_destination_ip p = V4 a)
    | Ipv6 \<Rightarrow> (\<exists>a. pr_source_ip p = V6 a) \<and> (\<exists>a. pr_destination_ip p = V6 a)"
    by (cases rule: raw_parse_cases) (auto simp: fields_v4_def fields_v6_def addr4_def addr6_def)
qed (auto simp: raw_parse_eq invalid_def split: if_splits)

lemma parse_complete_Ok:
  "parse_complete_ip_datagram d = Inr q \<longleftrightarrow>
     (\<exists>p. parse_raw_ip_datagram d = Inr p \<and> strict_ok d p \<and> q = with_class p (traffic_class d))"
  by (auto simp: parse_complete_eq mctx_result invalid_def split: if_splits)

text \<open>The strict parser inherits the interface from the parser it restricts.\<close>

interpretation raw_ip_parser: ip_datagram_parser
  parse_complete_ip_datagram pi_family pi_source_ip pi_destination_ip pi_header_len
proof unfold_locales
  fix d show "no_panic (parse_complete_ip_datagram d)"
    by (auto simp: parse_complete_eq invalid_def intro!: no_panic_and_then raw_parser.parse_safe)
next
  fix d f assume "parse_complete_ip_datagram d = Inl f"
  then show "f = Raised InvalidRawIpDatagram"
    by (auto simp: parse_complete_eq mctx_result invalid_def dest: raw_parser.parse_error split: if_splits)
next
  fix d p assume "parse_complete_ip_datagram d = Inr p"
  then show "20 \<le> pi_header_len p \<and> pi_header_len p \<le> length d \<and> length d < 65576"
    by (auto simp: parse_complete_Ok with_class_def dest: raw_parser.parse_bounds)
next
  fix d p assume "parse_complete_ip_datagram d = Inr p"
  then show "case pi_family p of
      Ipv4 \<Rightarrow> (\<exists>a. pi_source_ip p = V4 a) \<and> (\<exists>a. pi_destination_ip p = V4 a)
    | Ipv6 \<Rightarrow> (\<exists>a. pi_source_ip p = V6 a) \<and> (\<exists>a. pi_destination_ip p = V6 a)"
    by (auto simp: parse_complete_Ok with_class_def dest!: raw_parser.parse_families split: address_family.splits)
qed

text \<open>
  C35. The parser of raw multicast datagrams is total and exact: on no input does it panic;
  it accepts a byte string exactly when it is a well-formed IPv4 or IPv6 datagram whose length
  fields agree with its length, and then returns the header fields; everything else is
  rejected with the one error for invalid datagrams.
\<close>

theorem parse_raw_ip_datagram_exact:
  "parse_raw_ip_datagram d =
     (if wellformed_v4 d then Ok (fields_v4 d) else if wellformed_v6 d then Ok (fields_v6 d)
      else Err (Raised InvalidRawIpDatagram))"
  by (simp add: raw_parse_eq invalid_def)

text \<open>
  C36. The strict parser of complete IP datagrams accepts exactly those datagrams the other
  parser accepts, with the same fields, whose addresses are specified and whose IPv4 header
  words sum to a positive multiple of \<open>2^16 - 1\<close>; it never panics.
\<close>

theorem parse_complete_ip_datagram_exact:
  "(parse_complete_ip_datagram d = Ok q \<longleftrightarrow>
      (\<exists>p. parse_raw_ip_datagram d = Ok p \<and> q = with_class p (traffic_class d) \<and>
         \<not> ip_is_unspecified (pr_source_ip p) \<and> \<not> ip_is_unspecified (pr_destination_ip p) \<and>
         (pr_family p = Ipv6 \<or>
          be_sum (take (pr_header_len p) d) \<noteq> 0 \<and> be_sum (take (pr_header_len p) d) mod 65535 = 0))) \<and>
   no_panic (parse_complete_ip_datagram d)"
proof (intro conjI raw_ip_parser.parse_safe)
  have sum: "raw_ip_ipv4_header_checksum (take (pr_header_len p) d) = 0 \<longleftrightarrow>
      be_sum (take (pr_header_len p) d) \<noteq> 0 \<and> be_sum (take (pr_header_len p) d) mod 65535 = 0"
    if "parse_raw_ip_datagram d = Inr p" for p
  proof (rule checksum_zero_iff)
    have "pr_header_len p div 2 < 32788" using raw_parser.parse_bounds [OF that] by auto
    then show "be_sum (take (pr_header_len p) d) < 2 ^ 32"
      using raw_parser.parse_bounds [OF that] be_sum_bound [of "take (pr_header_len p) d"]
      by (simp add: min_absorb2)
  qed
  have fam: "(pr_family p = Ipv4 \<longrightarrow> A) \<longleftrightarrow> (pr_family p = Ipv6 \<or> A)" for p :: parsed_raw and A
    by (cases "pr_family p") auto
  show "parse_complete_ip_datagram d = Ok q \<longleftrightarrow>
      (\<exists>p. parse_raw_ip_datagram d = Ok p \<and> q = with_class p (traffic_class d) \<and>
         \<not> ip_is_unspecified (pr_source_ip p) \<and> \<not> ip_is_unspecified (pr_destination_ip p) \<and>
         (pr_family p = Ipv6 \<or>
          be_sum (take (pr_header_len p) d) \<noteq> 0 \<and> be_sum (take (pr_header_len p) d) mod 65535 = 0))"
    by (auto simp: parse_complete_Ok strict_ok_def specified_def fam sum)
qed

section \<open>Rewriting the TTL or the hop limit\<close>

lemma ihl_facts: "even (ihl_bytes d)" "ihl_bytes d \<le> 60"
proof -
  have "unat (d ! 0 AND 0x0f) \<le> 15"
    using word_and_le1 [of "d ! 0" "0x0f"] by (simp add: word_le_nat_alt)
  then show "ihl_bytes d \<le> 60" by (simp add: ihl_bytes_def)
qed (simp add: ihl_bytes_def)

lemma override_v4:
  assumes w: "wellformed_v4 d"
  shows "\<exists>a b. apply_ttl_or_hop_limit_override d (fields_v4 d) ttl = Ok (d[8 := ttl, 10 := a, 11 := b]) \<and>
    raw_ip_ipv4_header_checksum (take (ihl_bytes d) (d[8 := ttl, 10 := a, 11 := b])) = 0"
proof -
  let ?n = "ihl_bytes d"
  let ?h = "take ?n (d[8 := ttl])"
  have n: "20 \<le> ?n" "?n \<le> length d" "even ?n" "?n \<le> 60" using w ihl_facts by (auto simp: wellformed_v4_def)
  have tk: "take ?n (d[8 := ttl, 10 := a, 11 := b]) = ?h[10 := a, 11 := b]" for a b
    by (simp add: take_update_swap)
  obtain a b where ab: "u16_to_be (raw_ipv4_header_checksum (?h[10 := 0, 11 := 0])) = (a, b)" by force
  then have "u16_to_be (raw_ip_ipv4_header_checksum (?h[10 := 0, 11 := 0])) = (a, b)"
    using n by (simp add: checksums_agree)
  then have "raw_ip_ipv4_header_checksum (?h[10 := a, 11 := b]) = 0"
    using n by (intro checksum_fills) simp_all
  moreover have "apply_ttl_or_hop_limit_override d (fields_v4 d) ttl = Ok (d[8 := ttl, 10 := a, 11 := b])"
    using n ab by (simp add: apply_ttl_or_hop_limit_override_def fields_v4_def tk [simplified])
      (simp add: list_update_swap [of 11 10])
  ultimately show ?thesis using tk by auto
qed

lemma override_keeps_v4:
  assumes w: "wellformed_v4 d" and d': "d' = d[8 := ttl, 10 := a, 11 := b]"
  shows "wellformed_v4 d' \<and> fields_v4 d' = (fields_v4 d)\<lparr>pr_ttl_or_hop_limit := ttl\<rparr> \<and> ihl_bytes d' = ihl_bytes d"
  using w unfolding d'
  by (auto simp: wellformed_v4_def fields_v4_def ihl_bytes_def field16_def addr4_def nth_list_update)

lemma override_keeps_v6:
  assumes "wellformed_v6 d"
  shows "wellformed_v6 (d[7 := ttl]) \<and> fields_v6 (d[7 := ttl]) = (fields_v6 d)\<lparr>pr_ttl_or_hop_limit := ttl\<rparr>"
  using assms
  by (auto simp: wellformed_v6_def fields_v6_def field16_def addr6_def nth_list_update drop_update_cancel)

lemma override_roundtrip:
  assumes "parse_raw_ip_datagram d = Ok p"
  shows "\<exists>d'. apply_ttl_or_hop_limit_override d p ttl = Ok d' \<and> length d' = length d \<and>
     parse_raw_ip_datagram d' = Ok (p\<lparr>pr_ttl_or_hop_limit := ttl\<rparr>) \<and>
     (\<forall>i. i \<notin> (case pr_family p of Ipv4 \<Rightarrow> {8, 10, 11} | Ipv6 \<Rightarrow> {7}) \<longrightarrow> d' ! i = d ! i) \<and>
     (pr_family p = Ipv4 \<longrightarrow> raw_ip_ipv4_header_checksum (take (pr_header_len p) d') = 0) \<and>
     (specified p \<longrightarrow>
       parse_complete_ip_datagram d' =
         Ok (with_class (p\<lparr>pr_ttl_or_hop_limit := ttl\<rparr>) (traffic_class d)))"
  using assms
proof (cases rule: raw_parse_cases)
  case v4
  from override_v4 [OF v4(1)] obtain a b where ab:
      "apply_ttl_or_hop_limit_override d (fields_v4 d) ttl = Ok (d[8 := ttl, 10 := a, 11 := b])"
      "raw_ip_ipv4_header_checksum (take (ihl_bytes d) (d[8 := ttl, 10 := a, 11 := b])) = 0" by blast
  let ?d = "d[8 := ttl, 10 := a, 11 := b]"
  note keep = override_keeps_v4 [OF v4(1) refl, of ttl a b]
  have parse: "parse_raw_ip_datagram ?d = Ok (p\<lparr>pr_ttl_or_hop_limit := ttl\<rparr>)"
    using keep v4(2) by (simp add: raw_parse_eq)
  moreover have "pr_family p = Ipv4" "pr_header_len p = ihl_bytes d"
    by (simp_all add: v4(2) fields_v4_def)
  moreover have "traffic_class ?d = traffic_class d"
    using v4(1) by (simp add: traffic_class_def wellformed_v4_def nth_list_update)
  moreover have "specified (p\<lparr>pr_ttl_or_hop_limit := ttl\<rparr>) = specified p" by (simp add: specified_def)
  ultimately show ?thesis
    using ab v4(2) by (intro exI [of _ ?d]) (simp add: parse_complete_Ok strict_ok_def)
next
  case v6
  let ?d = "d[7 := ttl]"
  have parse: "parse_raw_ip_datagram ?d = Ok (p\<lparr>pr_ttl_or_hop_limit := ttl\<rparr>)"
    using override_keeps_v6 [OF v6(1), of ttl] v6(2) wellformed_exclusive [of ?d] by (auto simp: raw_parse_eq)
  moreover have "pr_family p = Ipv6" by (simp add: v6(2) fields_v6_def)
  moreover have "apply_ttl_or_hop_limit_override d p ttl = Ok ?d"
    using v6 by (simp add: apply_ttl_or_hop_limit_override_def fields_v6_def wellformed_v6_def)
  moreover have "traffic_class ?d = traffic_class d"
    using v6(1) by (simp add: traffic_class_def wellformed_v6_def nth_list_update)
  moreover have "specified (p\<lparr>pr_ttl_or_hop_limit := ttl\<rparr>) = specified p" by (simp add: specified_def)
  ultimately show ?thesis by (intro exI [of _ ?d]) (simp add: parse_complete_Ok strict_ok_def)
qed

text \<open>
  C22. Rewriting the TTL or hop limit of a datagram the parser accepted never panics and
  yields a datagram of the same length that parses to the same fields with only the TTL
  or hop limit changed. Bytes other than the TTL and the IPv4 checksum, or the hop limit,
  are unchanged, the IPv4 header checksum of the result is valid, and the strict
  parser accepts the result whenever the addresses are specified.
\<close>

theorem ttl_override_roundtrip:
  assumes "parse_raw_ip_datagram d = Ok p"
  shows "\<exists>d'. apply_ttl_or_hop_limit_override d p ttl = Ok d' \<and> length d' = length d \<and>
     parse_raw_ip_datagram d' = Ok (p\<lparr>pr_ttl_or_hop_limit := ttl\<rparr>) \<and>
     (\<forall>i. i \<notin> (case pr_family p of Ipv4 \<Rightarrow> {8, 10, 11} | Ipv6 \<Rightarrow> {7}) \<longrightarrow> d' ! i = d ! i) \<and>
     (pr_family p = Ipv4 \<longrightarrow> raw_ip_ipv4_header_checksum (take (pr_header_len p) d') = 0) \<and>
     (specified p \<longrightarrow>
       parse_complete_ip_datagram d' =
         Ok (with_class (p\<lparr>pr_ttl_or_hop_limit := ttl\<rparr>) (traffic_class d)))"
  by (rule override_roundtrip [OF assms])

definition sample_datagram :: bytes where
  "sample_datagram = [0x45, 0, 0, 21, 0, 0, 0, 0, 64, 17, 0, 0, 192, 0, 2, 1, 239, 1, 2, 3, 0x99]"

text \<open>A minimal IPv4 datagram without checksum: the rewritten one is accepted by the strict parser.\<close>

theorem ttl_override_roundtrip_witness:
  "parse_raw_ip_datagram sample_datagram = Ok (fields_v4 sample_datagram) \<and>
   specified (fields_v4 sample_datagram) \<and>
   (\<exists>d'. apply_ttl_or_hop_limit_override sample_datagram (fields_v4 sample_datagram) 5 = Ok d' \<and>
      parse_complete_ip_datagram sample_datagram = Err (Raised InvalidRawIpDatagram) \<and>
      parse_complete_ip_datagram d' =
        Ok (with_class ((fields_v4 sample_datagram)\<lparr>pr_ttl_or_hop_limit := 5\<rparr>) (traffic_class sample_datagram)))"
proof -
  have p: "parse_raw_ip_datagram sample_datagram = Ok (fields_v4 sample_datagram)" by code_simp
  have s: "specified (fields_v4 sample_datagram)" by code_simp
  have "parse_complete_ip_datagram sample_datagram = Err (Raised InvalidRawIpDatagram)" by code_simp
  with p s ttl_override_roundtrip [OF p, of 5] show ?thesis by blast
qed

section \<open>Link-layer headers\<close>

lemma u16_to_be_ipv6: "u16_to_be 0x86dd = (0x86, 0xdd)"
  by code_simp

text \<open>
  The Ethernet header for an IPv6 group has 14 bytes, starts with the multicast
  address \<open>33:33\<close> followed by the low 32 bits of the group, carries the source address and ends
  with the IPv6 ethertype. Two groups have the same link-layer address exactly when their low
  32 bits agree.
\<close>

theorem ethernet_ipv6_header_layout:
  assumes "length mac = 6"
  shows "length (ethernet_ipv6_header g mac) = 14 \<and>
    take 6 (ethernet_ipv6_header g mac) = [0x33, 0x33] @ drop 12 (ipv6_octets g) \<and>
    take 6 (drop 6 (ethernet_ipv6_header g mac)) = mac \<and>
    drop 12 (ethernet_ipv6_header g mac) = [0x86, 0xdd] \<and>
    (ipv6_multicast_mac g = ipv6_multicast_mac h \<longleftrightarrow> (ucast g :: u32) = ucast h)"
proof -
  have octs: "drop 12 (ipv6_octets g) = [ipv6_octet g 12, ipv6_octet g 13, ipv6_octet g 14, ipv6_octet g 15]" for g
    by (simp add: ipv6_octets_def drop_map upt_rec eval_nat_numeral)
  have "ipv6_multicast_mac g = ipv6_multicast_mac h \<longleftrightarrow> (\<forall>n < 32. bit g n = bit h n)"
    unfolding ipv6_multicast_mac_def all_less_32
    by (auto simp: word_eq_iff_bits bit_ipv6_octet add.commute)
  also have "\<dots> \<longleftrightarrow> (ucast g :: u32) = ucast h"
    by (auto simp: word_eq_iff_bits bit_simps)
  finally show ?thesis
    using assms by (simp add: ethernet_ipv6_header_def u16_to_be_ipv6 octs) (simp add: ipv6_multicast_mac_def)
qed

theorem ethernet_ipv6_header_layout_witness:
  "length [2, 0, 0, 0, 0, 1 :: u8] = 6 \<and>
   length (ethernet_ipv6_header 0xff3e0000000000000000000080001234 [2, 0, 0, 0, 0, 1]) = 14"
  using ethernet_ipv6_header_layout [of "[2, 0, 0, 0, 0, 1]" "0xff3e0000000000000000000080001234" 0] by simp

end
