(* ===== verification/Os_Api.thy ===== *)
theory Os_Api
  imports Mctx_Error
begin

text \<open>
  The operating system and the \<open>socket2\<close> and \<open>libc\<close> crates are not part of the
  sources: the calls the sender makes are the fields of a record that every operation takes
  as an argument. \<open>'w\<close> is the state of the outside world the calls read and change and
  \<open>'s\<close> the type of socket handles; nothing is assumed about either. Every call that
  only returns success or an error (an option setter, \<open>bind\<close>, \<open>connect\<close>) is one
  value of \<open>sock_call\<close>, so that the order in which they are issued can be recorded
  by wrapping any such interface (\<open>logged\<close>).
\<close>

datatype sock_domain = DomainIpv4 | DomainIpv6 | DomainPacket | DomainNetlink

text \<open>The variants with \<open>Nonblock\<close> stand for the flags \<open>SOCK_NONBLOCK\<close> passed at creation.\<close>

datatype sock_type = TypeDgram | TypeRaw | TypeDgramNonblock | TypeRawNonblock

datatype sock_call =
    SetNonblocking bool
  | SetOnlyV6 bool
  | SetMulticastIfV4 ipv4_addr
  | SetMulticastIfV6 u32
  | SetMulticastLoopV4 bool
  | SetMulticastLoopV6 bool
  | SetMulticastTtlV4 u32
  | SetMulticastHopsV6 u32
  | SetHeaderIncludedV4 bool
  | SetUnicastHopsV6 u32
  | SetTclassV6 u32
  | BindDeviceByIndexV4 u32
  | BindDeviceByIndexV6 u32
  | SetIpUnicastIf u32
  | Bind socket_addr
  | Connect socket_addr
  | BindNetlink u32
  | SetReceiveTimeout nat

text \<open>
  One entry of the list \<open>getifaddrs\<close> returns: the interface name and its address, if the
  pointer is not null. A packet address carries the interface index and the hardware type.
\<close>

datatype if_sockaddr = IfInet ipv4_addr | IfInet6 ipv6_addr | IfPacket i32 u16 | IfOther

record ifaddr =
  ifa_name :: string
  ifa_addr :: "if_sockaddr option"

text \<open>The fields of a link-layer address (\<open>libc::sockaddr_ll\<close>) the sources fill in.\<close>

record sockaddr_ll =
  sll_protocol :: u16
  sll_ifindex :: i32
  sll_hatype :: u16
  sll_halen :: u8
  sll_addr :: bytes

text \<open>
  \<open>os_recv_peek\<close> is the \<open>recv\<close> with \<open>MSG_PEEK\<close> and \<open>MSG_TRUNC\<close> that returns the length of
  the next datagram, \<open>os_recv\<close> the one that takes at most the given number of bytes.
\<close>

record ('w, 's) os_api =
  os_socket :: "sock_domain \<Rightarrow> sock_type \<Rightarrow> i32 \<Rightarrow> 'w \<Rightarrow> (io_error + 's) \<times> 'w"
  os_call :: "'s \<Rightarrow> sock_call \<Rightarrow> 'w \<Rightarrow> (io_error + unit) \<times> 'w"
  os_local_addr :: "'s \<Rightarrow> 'w \<Rightarrow> (io_error + socket_addr option) \<times> 'w"
  os_send :: "'s \<Rightarrow> bytes \<Rightarrow> 'w \<Rightarrow> (io_error + nat) \<times> 'w"
  os_send_to :: "'s \<Rightarrow> bytes \<Rightarrow> socket_addr \<Rightarrow> 'w \<Rightarrow> (io_error + nat) \<times> 'w"
  os_bind_ll :: "'s \<Rightarrow> sockaddr_ll \<Rightarrow> 'w \<Rightarrow> (io_error + unit) \<times> 'w"
  os_send_ll :: "'s \<Rightarrow> bytes \<Rightarrow> sockaddr_ll \<Rightarrow> 'w \<Rightarrow> (io_error + nat) \<times> 'w"
  os_send_netlink :: "'s \<Rightarrow> bytes \<Rightarrow> 'w \<Rightarrow> (io_error + nat) \<times> 'w"
  os_recv_peek :: "'s \<Rightarrow> 'w \<Rightarrow> (io_error + nat) \<times> 'w"
  os_recv :: "'s \<Rightarrow> nat \<Rightarrow> 'w \<Rightarrow> (io_error + bytes) \<times> 'w"
  os_getifaddrs :: "'w \<Rightarrow> (io_error + ifaddr list) \<times> 'w"
  os_nametoindex :: "'w \<Rightarrow> string \<Rightarrow> u32"

text \<open>A setter whose failure is reported as \<open>SocketOptionFailed\<close>.\<close>

definition sock_opt :: "('w, 's) os_api \<Rightarrow> 's \<Rightarrow> sock_call \<Rightarrow> ('w, mctx_error, unit) io" where
  "sock_opt os s call = io_sys SocketOptionFailed (os_call os s call)"

section \<open>Recording the calls\<close>

definition lift_log :: "('w \<Rightarrow> 'a \<times> 'w) \<Rightarrow> 'w \<times> 'l \<Rightarrow> 'a \<times> ('w \<times> 'l)" where
  "lift_log m = (\<lambda>(w, l). case m w of (r, w') \<Rightarrow> (r, (w', l)))"

text \<open>
  The same interface on worlds that also hold the list of calls issued so far, with the
  handle each was issued on. Only calls that succeeded are recorded.
\<close>

definition logged :: "('w, 's) os_api \<Rightarrow> ('w \<times> ('s \<times> sock_call) list, 's) os_api" where
  "logged os =
     \<lparr>os_socket = (\<lambda>d t p. lift_log (os_socket os d t p)),
      os_call = (\<lambda>s c (w, l). case os_call os s c w of
                   (Inl e, w') \<Rightarrow> (Inl e, (w', l))
                 | (Inr u, w') \<Rightarrow> (Inr u, (w', l @ [(s, c)]))),
      os_local_addr = (\<lambda>s. lift_log (os_local_addr os s)),
      os_send = (\<lambda>s b. lift_log (os_send os s b)),
      os_send_to = (\<lambda>s b a. lift_log (os_send_to os s b a)),
      os_bind_ll = (\<lambda>s a. lift_log (os_bind_ll os s a)),
      os_send_ll = (\<lambda>s b a. lift_log (os_send_ll os s b a)),
      os_send_netlink = (\<lambda>s b. lift_log (os_send_netlink os s b)),
      os_recv_peek = (\<lambda>s. lift_log (os_recv_peek os s)),
      os_recv = (\<lambda>s n. lift_log (os_recv os s n)),
      os_getifaddrs = lift_log (os_getifaddrs os),
      os_nametoindex = (\<lambda>(w, l). os_nametoindex os w)\<rparr>"

lemma lift_log_eq [mctx_result]:
  "lift_log m wl = (r, wl') \<longleftrightarrow> m (fst wl) = (r, fst wl') \<and> snd wl' = snd wl"
  by (cases wl; cases wl') (auto simp: lift_log_def split: prod.splits)

lemma logged_simps [simp]:
  "os_socket (logged os) d t p = lift_log (os_socket os d t p)"
  "os_local_addr (logged os) s = lift_log (os_local_addr os s)"
  "os_send (logged os) s b = lift_log (os_send os s b)"
  "os_send_to (logged os) s b a = lift_log (os_send_to os s b a)"
  "os_bind_ll (logged os) s bl = lift_log (os_bind_ll os s bl)"
  "os_send_ll (logged os) s b bl = lift_log (os_send_ll os s b bl)"
  "os_getifaddrs (logged os) = lift_log (os_getifaddrs os)"
  by (simp_all add: logged_def)

lemma logged_call_Ok [mctx_result]:
  "os_call (logged os) s c wl = (Inr u, wl') \<longleftrightarrow>
     os_call os s c (fst wl) = (Inr u, fst wl') \<and> snd wl' = snd wl @ [(s, c)]"
  by (cases wl; cases wl') (auto simp: logged_def split: prod.splits sum.splits)

lemma logged_call_Err [mctx_result]:
  "os_call (logged os) s c wl = (Inl e, wl') \<longleftrightarrow>
     os_call os s c (fst wl) = (Inl e, fst wl') \<and> snd wl' = snd wl"
  by (cases wl; cases wl') (auto simp: logged_def split: prod.splits sum.splits)

lemma sock_opt_Ok [mctx_result]:
  "sock_opt os s c w = (Inr u, w') \<longleftrightarrow> os_call os s c w = (Inr u, w')"
  by (simp add: sock_opt_def mctx_result)

lemma sock_opt_safe [mctx_panic]: "io_safe (sock_opt os s c)"
  by (simp add: sock_opt_def mctx_panic)

text \<open>An operation that issues no recorded call, whether it succeeds or fails.\<close>

definition quiet :: "('w \<times> 'l, 'e, 'a) io \<Rightarrow> bool" where
  "quiet m \<longleftrightarrow> (\<forall>wl. snd (snd (m wl)) = snd wl)"

lemma quietD: "quiet m \<Longrightarrow> m wl = (r, wl') \<Longrightarrow> snd wl' = snd wl"
  unfolding quiet_def by (metis snd_conv)

lemma quiet_intros [mctx_quiet]:
  "quiet (io_return x)"
  "quiet (io_raise e)"
  "quiet (io_res r)"
  "quiet (io_sys conv (lift_log call))"
  "quiet (io_try (lift_log call))"
  by (auto simp: quiet_def io_sys_def io_try_def lift_log_def split: prod.splits sum.splits)

lemma quiet_then [mctx_quiet]: "quiet m \<Longrightarrow> (\<And>x. quiet (f x)) \<Longrightarrow> quiet (io_then m f)"
  by (auto simp: quiet_def io_then_def split: prod.splits sum.splits) (metis snd_conv)+

lemma quiet_when [mctx_quiet]: "quiet m \<Longrightarrow> quiet (io_when b m)"
  by (cases b) (auto intro: mctx_quiet)

section \<open>A recording device\<close>

text \<open>
  A small concrete world for evaluating the model: each socket handle is a number, the
  device keeps the bytes sent, the datagrams to receive and the local address that \<open>bind\<close> set, and a call fails
  with \<open>would block\<close> once the credit for sends is used up.
\<close>

record device =
  dev_next :: nat
  dev_local :: "socket_addr option"
  dev_credit :: nat
  dev_sent :: "bytes list"
  dev_inbox :: "bytes list"
  dev_table :: "(ifaddr \<times> u32) list"

definition would_block :: io_error where
  "would_block = io_error_os WouldBlock 11"

definition device_send :: "bytes \<Rightarrow> device \<Rightarrow> (io_error + nat) \<times> device" where
  "device_send b d =
     (case dev_credit d of
        0 \<Rightarrow> (Inl would_block, d)
      | Suc k \<Rightarrow> (Inr (length b), d\<lparr>dev_credit := k, dev_sent := dev_sent d @ [b]\<rparr>))"

definition device_os :: "(device, nat) os_api" where
  "device_os =
     \<lparr>os_socket = (\<lambda>d t p w. (Inr (dev_next w), w\<lparr>dev_next := Suc (dev_next w)\<rparr>)),
      os_call = (\<lambda>s c w. case c of
                   Bind a \<Rightarrow> (Inr (), w\<lparr>dev_local := Some a\<rparr>)
                 | _ \<Rightarrow> (Inr (), w)),
      os_local_addr = (\<lambda>s w. (Inr (Some (case dev_local w of
                   Some a \<Rightarrow> a | None \<Rightarrow> SockV4 (socket_addr_v4_new ipv4_unspecified 0))), w)),
      os_send = (\<lambda>s. device_send),
      os_send_to = (\<lambda>s b a. device_send b),
      os_bind_ll = (\<lambda>s a w. (Inr (), w)),
      os_send_ll = (\<lambda>s b a. device_send b),
      os_send_netlink = (\<lambda>s b w. (Inr (length b), w)),
      os_recv_peek = (\<lambda>s w. (case dev_inbox w of
                   [] \<Rightarrow> (Inl would_block, w) | d # ds \<Rightarrow> (Inr (length d), w))),
      os_recv = (\<lambda>s n w. (case dev_inbox w of
                   [] \<Rightarrow> (Inl would_block, w) | d # ds \<Rightarrow> (Inr (take n d), w\<lparr>dev_inbox := ds\<rparr>))),
      os_getifaddrs = (\<lambda>w. (Inr (map fst (dev_table w)), w)),
      os_nametoindex = (\<lambda>w name.
         case find (\<lambda>e. ifa_name (fst e) = name) (dev_table w) of None \<Rightarrow> 0 | Some e \<Rightarrow> snd e)\<rparr>"

definition device_start :: "nat \<Rightarrow> device" where
  "device_start credit =
     \<lparr>dev_next = 3, dev_local = None, dev_credit = credit, dev_sent = [], dev_inbox = [], dev_table = []\<rparr>"

lemmas device_defs = device_os_def device_start_def device_send_def would_block_def

end
