(* ===== verification/Interface_Resolve.thy ===== *)
theory Interface_Resolve
  imports Os_Api
begin

text \<open>
  Resolution of a local address to an interface index on Unix (\<open>src/platform.rs\<close>): one
  pass over the list \<open>getifaddrs\<close> returns. Interfaces are taken to keep their index
  during one pass. The pass is shown to return an index exactly when all the interfaces
  that carry the address and still exist have that one index.
\<close>

section \<open>The pass over the interface list\<close>

fun scan_ifaddrs ::
  "(if_sockaddr \<Rightarrow> bool) \<Rightarrow> (u32 \<Rightarrow> u32 \<Rightarrow> mctx_error) \<Rightarrow> mctx_error \<Rightarrow> (string \<Rightarrow> u32) \<Rightarrow>
   ifaddr list \<Rightarrow> u32 option \<Rightarrow> mctx_error + u32" where
  "scan_ifaddrs matches ambiguous missing nametoindex [] matched_index = ok_or missing matched_index"
| "scan_ifaddrs matches ambiguous missing nametoindex (cursor # rest) matched_index =
     (if (case ifa_addr cursor of None \<Rightarrow> False | Some addr \<Rightarrow> matches addr) then
        let index = nametoindex (ifa_name cursor) in
        if index \<noteq> 0 then
          (case matched_index of
             Some existing \<Rightarrow>
               if existing \<noteq> index then Err (ambiguous existing index)
               else scan_ifaddrs matches ambiguous missing nametoindex rest matched_index
           | None \<Rightarrow> scan_ifaddrs matches ambiguous missing nametoindex rest (Some index))
        else scan_ifaddrs matches ambiguous missing nametoindex rest matched_index
      else scan_ifaddrs matches ambiguous missing nametoindex rest matched_index)"

definition ambiguous_interface_error_v4 :: "ipv4_addr \<Rightarrow> u32 \<Rightarrow> u32 \<Rightarrow> mctx_error" where
  "ambiguous_interface_error_v4 interface first second =
     InterfaceDiscoveryFailed
       (''IPv4 interface address {interface} is ambiguous across interface indices {first} and {second}; provide an explicit interface index or choose a unique local address'',
        [FIp (V4 interface), FNum (uint first), FNum (uint second)])"

definition ambiguous_interface_error_v6 :: "ipv6_addr \<Rightarrow> u32 \<Rightarrow> u32 \<Rightarrow> mctx_error" where
  "ambiguous_interface_error_v6 interface first second =
     InterfaceDiscoveryFailed
       (''IPv6 interface address {interface} is ambiguous across interface indices {first} and {second}; provide an explicit interface index or scoped bind address'',
        [FIp (V6 interface), FNum (uint first), FNum (uint second)])"

definition missing_interface_error_v4 :: "ipv4_addr \<Rightarrow> mctx_error" where
  "missing_interface_error_v4 interface =
     InterfaceDiscoveryFailed
       (''failed to resolve IPv4 interface address {interface} to an interface index'', [FIp (V4 interface)])"

definition missing_interface_error_v6 :: "ipv6_addr \<Rightarrow> mctx_error" where
  "missing_interface_error_v6 interface =
     InterfaceDiscoveryFailed
       (''failed to resolve IPv6 interface address {interface} to an interface index'', [FIp (V6 interface)])"

text \<open>\<open>io::Error::last_os_error().to_string()\<close>: the text of the system error.\<close>

definition os_error_text :: "io_error \<Rightarrow> message" where
  "os_error_text e = (''{}'', [FNum (case raw_os_error e of Some c \<Rightarrow> sint c | None \<Rightarrow> 0)])"

definition resolve_ipv4_interface_index ::
  "('w, 's) os_api \<Rightarrow> ipv4_addr \<Rightarrow> ('w, mctx_error, u32) io" where
  "resolve_ipv4_interface_index os interface =
     io_then (io_sys (\<lambda>e. InterfaceDiscoveryFailed (os_error_text e)) (os_getifaddrs os))
       (\<lambda>ifaddrs w.
          (lift_res (scan_ifaddrs (\<lambda>a. a = IfInet interface)
             (ambiguous_interface_error_v4 interface) (missing_interface_error_v4 interface)
             (os_nametoindex os w) ifaddrs None), w))"

definition resolve_ipv6_interface_index ::
  "('w, 's) os_api \<Rightarrow> ipv6_addr \<Rightarrow> ('w, mctx_error, u32) io" where
  "resolve_ipv6_interface_index os interface =
     io_then (io_sys (\<lambda>e. InterfaceDiscoveryFailed (os_error_text e)) (os_getifaddrs os))
       (\<lambda>ifaddrs w.
          (lift_res (scan_ifaddrs (\<lambda>a. a = IfInet6 interface)
             (ambiguous_interface_error_v6 interface) (missing_interface_error_v6 interface)
             (os_nametoindex os w) ifaddrs None), w))"

section \<open>What the pass returns\<close>

text \<open>The indices of the existing interfaces that carry a matching address.\<close>

definition carrier_indices :: "(if_sockaddr \<Rightarrow> bool) \<Rightarrow> (string \<Rightarrow> u32) \<Rightarrow> ifaddr list \<Rightarrow> u32 set" where
  "carrier_indices matches nametoindex ifaddrs =
     {nametoindex (ifa_name i) | i a. i \<in> set ifaddrs \<and> ifa_addr i = Some a \<and> matches a} - {0}"

lemma carrier_indices_Nil [simp]: "carrier_indices m f [] = {}"
  by (simp add: carrier_indices_def)

lemma carrier_indices_Cons:
  "carrier_indices m f (i # is) =
     (if (case ifa_addr i of None \<Rightarrow> False | Some a \<Rightarrow> m a) \<and> f (ifa_name i) \<noteq> 0
      then insert (f (ifa_name i)) (carrier_indices m f is) else carrier_indices m f is)"
  by (auto simp: carrier_indices_def split: option.splits)

lemma scan_ifaddrs_Ok_iff:
  "scan_ifaddrs m amb miss f is acc = Inr k \<longleftrightarrow>
     set_option acc \<union> carrier_indices m f is = {k}"
proof (induction m amb miss f "is" acc rule: scan_ifaddrs.induct)
  case (1 m amb miss f acc)
  then show ?case by (cases acc) auto
next
  case (2 m amb miss f i "is" acc)
  show ?case
  proof (cases "(case ifa_addr i of None \<Rightarrow> False | Some a \<Rightarrow> m a) \<and> f (ifa_name i) \<noteq> 0")
    case True
    then show ?thesis using 2 by (cases acc) (auto simp: carrier_indices_Cons Let_def)
  next
    case False
    then show ?thesis using 2 by (auto simp: carrier_indices_Cons Let_def split: if_splits)
  qed
qed

lemma scan_ifaddrs_Err:
  assumes "scan_ifaddrs m amb miss f is acc = Inl e"
  shows "(e = miss \<and> acc = None \<and> carrier_indices m f is = {}) \<or>
         (\<exists>a b. a \<noteq> b \<and> {a, b} \<subseteq> set_option acc \<union> carrier_indices m f is \<and> e = amb a b)"
  using assms
proof (induction m amb miss f "is" acc rule: scan_ifaddrs.induct)
  case (1 m amb miss f acc)
  then show ?case by (cases acc) (auto simp: mctx_result)
next
  case (2 m amb miss f i "is" acc)
  show ?case
  proof (cases "(case ifa_addr i of None \<Rightarrow> False | Some a \<Rightarrow> m a) \<and> f (ifa_name i) \<noteq> 0")
    case True
    then show ?thesis using 2 
      by (cases acc) (auto simp: carrier_indices_Cons Let_def split: if_splits)
  next
    case False
    then show ?thesis using 2 by (auto simp: carrier_indices_Cons Let_def split: if_splits)
  qed
qed

lemma resolve_ipv4_Ok_iff:
  "resolve_ipv4_interface_index os a w = (Inr k, w') \<longleftrightarrow>
     (\<exists>ifs. os_getifaddrs os w = (Inr ifs, w') \<and>
        carrier_indices (\<lambda>x. x = IfInet a) (os_nametoindex os w') ifs = {k})"
  by (auto simp: resolve_ipv4_interface_index_def mctx_result scan_ifaddrs_Ok_iff)

lemma resolve_ipv6_Ok_iff:
  "resolve_ipv6_interface_index os a w = (Inr k, w') \<longleftrightarrow>
     (\<exists>ifs. os_getifaddrs os w = (Inr ifs, w') \<and>
        carrier_indices (\<lambda>x. x = IfInet6 a) (os_nametoindex os w') ifs = {k})"
  by (auto simp: resolve_ipv6_interface_index_def mctx_result scan_ifaddrs_Ok_iff)

lemma carrier_indices_nonzero: "carrier_indices m f is = {k} \<Longrightarrow> k \<noteq> 0"
  by (auto simp: carrier_indices_def)

section \<open>The interface offered to socket setup\<close>

text \<open>
  What the users of a resolver rely on: it never panics, and the index it returns is a
  real one (index 0 stands for no interface in every system call that takes one).
\<close>

locale interface_resolver =
  fixes resolve :: "'a \<Rightarrow> ('w, mctx_error, u32) io"
  assumes resolve_safe: "io_safe (resolve a)"
    and resolve_nonzero: "resolve a w = (Inr k, w') \<Longrightarrow> k \<noteq> 0"
begin

lemma resolve_then_safe:
  assumes "\<And>k. k \<noteq> 0 \<Longrightarrow> io_safe (f k)"
  shows "io_safe (io_then (resolve a) f)"
  using resolve_safe by (rule io_safe_then) (auto intro: assms dest: resolve_nonzero)

lemma resolve_not_zero: "resolve a w \<noteq> (Inr 0, w')"
  using resolve_nonzero by blast

end

lemma resolve_ipv4_safe: "io_safe (resolve_ipv4_interface_index os a)"
  by (auto simp: resolve_ipv4_interface_index_def io_safe_def io_then_def io_sys_def
      split: prod.splits sum.splits)

lemma resolve_ipv6_safe: "io_safe (resolve_ipv6_interface_index os a)"
  by (auto simp: resolve_ipv6_interface_index_def io_safe_def io_then_def io_sys_def
      split: prod.splits sum.splits)

lemma resolve_quiet [mctx_quiet]:
  "quiet (resolve_ipv4_interface_index (logged os) x)" "quiet (resolve_ipv6_interface_index (logged os) y)"
  by (auto simp: resolve_ipv4_interface_index_def resolve_ipv6_interface_index_def quiet_def io_then_def io_sys_def
      lift_log_def split: prod.splits sum.splits)

interpretation resolver_v4: interface_resolver "resolve_ipv4_interface_index os"
  for os :: "('w, 's) os_api"
  by unfold_locales
    (auto simp: resolve_ipv4_safe resolve_ipv4_Ok_iff dest: carrier_indices_nonzero)

interpretation resolver_v6: interface_resolver "resolve_ipv6_interface_index os"
  for os :: "('w, 's) os_api"
  by unfold_locales
    (auto simp: resolve_ipv6_safe resolve_ipv6_Ok_iff dest: carrier_indices_nonzero)

text \<open>
  C34. Resolving a local IPv6 address returns an index exactly when the interfaces that carry
  the address and still exist all have that index; when the list was read, every error is
  either that no interface carries the address or that two carry it with different indices.
\<close>

theorem resolve_ipv6_interface_index_exact:
  "(resolve_ipv6_interface_index os a w = (Inr k, w') \<longleftrightarrow>
     (\<exists>ifs. os_getifaddrs os w = (Inr ifs, w') \<and>
        carrier_indices (\<lambda>x. x = IfInet6 a) (os_nametoindex os w') ifs = {k})) \<and>
   (os_getifaddrs os w = (Inr ifs, w') \<and> resolve_ipv6_interface_index os a w = (Inl f, w') \<longrightarrow>
     f = Raised (missing_interface_error_v6 a) \<and>
       carrier_indices (\<lambda>x. x = IfInet6 a) (os_nametoindex os w') ifs = {} \<or>
     (\<exists>i j. i \<noteq> j \<and> {i, j} \<subseteq> carrier_indices (\<lambda>x. x = IfInet6 a) (os_nametoindex os w') ifs \<and>
       f = Raised (ambiguous_interface_error_v6 a i j)))"
proof (intro conjI impI)
  assume h: "os_getifaddrs os w = (Inr ifs, w') \<and> resolve_ipv6_interface_index os a w = (Inl f, w')"
  then obtain e where e: "f = Raised e"
      "scan_ifaddrs (\<lambda>x. x = IfInet6 a) (ambiguous_interface_error_v6 a)
         (missing_interface_error_v6 a) (os_nametoindex os w') ifs None = Inl e"
    by (auto simp: resolve_ipv6_interface_index_def mctx_result)
  from scan_ifaddrs_Err [OF e(2)] e(1)
  show "f = Raised (missing_interface_error_v6 a) \<and>
       carrier_indices (\<lambda>x. x = IfInet6 a) (os_nametoindex os w') ifs = {} \<or>
     (\<exists>i j. i \<noteq> j \<and> {i, j} \<subseteq> carrier_indices (\<lambda>x. x = IfInet6 a) (os_nametoindex os w') ifs \<and>
       f = Raised (ambiguous_interface_error_v6 a i j))"
    by auto
qed (rule resolve_ipv6_Ok_iff)

text \<open>
  The hypothesis of the error case holds on a host where two interfaces carry \<open>fe80::1\<close>
  with the indices 2 and 3, and the resolution reports the ambiguity.
\<close>

theorem resolve_ipv6_interface_index_exact_witness:
  "let ifs = [\<lparr>ifa_name = ''eth0'', ifa_addr = Some (IfInet6 1)\<rparr>,
              \<lparr>ifa_name = ''eth1'', ifa_addr = Some (IfInet6 1)\<rparr>];
       w = device_start 0\<lparr>dev_table := zip ifs [2, 3]\<rparr>
   in os_getifaddrs device_os w = (Inr ifs, w) \<and>
      resolve_ipv6_interface_index device_os 1 w = (Inl (Raised (ambiguous_interface_error_v6 1 2 3)), w) \<and>
      (\<exists>i j. i \<noteq> j \<and> ambiguous_interface_error_v6 1 2 3 = ambiguous_interface_error_v6 1 i j)"
proof -
  define ifs :: "ifaddr list" where
    "ifs = [\<lparr>ifa_name = ''eth0'', ifa_addr = Some (IfInet6 1)\<rparr>,
            \<lparr>ifa_name = ''eth1'', ifa_addr = Some (IfInet6 1)\<rparr>]"
  define w where "w = device_start 0\<lparr>dev_table := zip ifs [2, 3]\<rparr>"
  have list: "os_getifaddrs device_os w = (Inr ifs, w)"
    by (simp add: device_defs w_def ifs_def)
  have err: "resolve_ipv6_interface_index device_os 1 w =
      (Inl (Raised (ambiguous_interface_error_v6 1 2 3)), w)"
    by (simp add: resolve_ipv6_interface_index_def io_then_def io_sys_def device_defs w_def ifs_def)
  have "\<exists>i j. i \<noteq> j \<and> ambiguous_interface_error_v6 1 2 3 = ambiguous_interface_error_v6 1 i j"
    using resolve_ipv6_interface_index_exact [of device_os 1 w 0 w ifs
        "Raised (ambiguous_interface_error_v6 1 2 3)"] list err
    by (auto simp: missing_interface_error_v6_def ambiguous_interface_error_v6_def)
  with list err show ?thesis by (simp add: w_def ifs_def)
qed

end
