(* ===== verification/Linux_Egress.thy ===== *)
theory Linux_Egress
  imports Os_Api Raw_Datagram Interface_Resolve Netlink_Route
begin

text \<open>
  Full-header IPv6 egress on Linux: packet sockets (\<open>src/raw/linux_packet.rs\<close>) and the
  route-selected egress with its cached route (\<open>src/raw/linux_route.rs\<close>). Receiving retries
  interrupted calls in loops that need not end, so the functions from there on return an
  option: \<open>None\<close> is a call that does not return. The receive buffer is scratch storage
  and not part of the state: a receive yields the bytes it wrote.
\<close>

section \<open>Packet sockets\<close>

definition packet_interface_index :: "u32 \<Rightarrow> mctx_error + i32" where
  "packet_interface_index interface_index =
     (if uint interface_index < 2 ^ 31 then Ok interface_index
      else Err (InterfaceDiscoveryFailed
        (''Linux interface index {interface_index} exceeds the packet-socket range'', [FNum (uint interface_index)])))"

fun find_link :: "u32 \<Rightarrow> ifaddr list \<Rightarrow> (string \<times> u16) option" where
  "find_link interface_index [] = None"
| "find_link interface_index (cursor # rest) =
     (case ifa_addr cursor of
        Some (IfPacket ifindex hatype) \<Rightarrow>
          if ifindex = interface_index then Some (ifa_name cursor, hatype) else find_link interface_index rest
      | _ \<Rightarrow> find_link interface_index rest)"

definition link_info :: "('w, 's) os_api \<Rightarrow> u32 \<Rightarrow> ('w, mctx_error, string \<times> u16) io" where
  "link_info os interface_index =
     io_then (io_sys (\<lambda>e. InterfaceDiscoveryFailed (os_error_text e)) (os_getifaddrs os)) (\<lambda>ifaddrs.
     io_res (lift_res (ok_or (InterfaceDiscoveryFailed
       (''failed to resolve Linux interface metadata for index {interface_index}'', [FNum (uint interface_index)]))
       (find_link interface_index ifaddrs))))"

definition validate_ethernet_link_type :: "string \<Rightarrow> u16 \<Rightarrow> mctx_error + unit" where
  "validate_ethernet_link_type interface_name link_type =
     (if link_type \<noteq> 1
      then Err (RawUnsupportedLinkType
        (''{interface_name} (Linux ARPHRD {link_type})'', [FStr interface_name, FNum (uint link_type)]))
      else Ok ())"

definition ensure_ethernet_interface :: "('w, 's) os_api \<Rightarrow> u32 \<Rightarrow> ('w, mctx_error, unit) io" where
  "ensure_ethernet_interface os interface_index =
     io_then (link_info os interface_index) (\<lambda>(name, link_type).
     io_res (lift_res (validate_ethernet_link_type name link_type)))"

text \<open>\<open>(libc::ETH_P_IPV6 as u16).to_be()\<close> on a little-endian host\<close>

definition eth_p_ipv6_be :: u16 where "eth_p_ipv6_be = 0xdd86"

definition packet_open_ipv6 :: "('w, 's) os_api \<Rightarrow> u32 \<Rightarrow> ('w, mctx_error, 's) io" where
  "packet_open_ipv6 os interface_index =
     io_then (io_res (lift_res (packet_interface_index interface_index))) (\<lambda>ifindex.
     io_then (ensure_ethernet_interface os ifindex) (\<lambda>_.
     io_then (io_sys RawSocketCreateFailed
       (os_socket os DomainPacket TypeDgramNonblock (ucast eth_p_ipv6_be))) (\<lambda>s.
     io_then (io_sys RawSocketBindFailed (os_bind_ll os s
       \<lparr>sll_protocol = eth_p_ipv6_be, sll_ifindex = ifindex, sll_hatype = 0, sll_halen = 0,
        sll_addr = replicate 8 0\<rparr>)) (\<lambda>_.
     io_return s))))"

definition packet_send_ipv6 ::
  "('w, 's) os_api \<Rightarrow> 's \<Rightarrow> u32 \<Rightarrow> ipv6_addr \<Rightarrow> bytes \<Rightarrow> ('w, mctx_error, nat) io" where
  "packet_send_ipv6 os s interface_index g datagram =
     io_then (io_res (lift_res (packet_interface_index interface_index))) (\<lambda>ifindex.
     let mac = ipv6_multicast_mac g in
     io_then (io_sys RawSendFailed (os_send_ll os s datagram
       \<lparr>sll_protocol = eth_p_ipv6_be, sll_ifindex = ifindex, sll_hatype = 1, sll_halen = of_nat (length mac),
        sll_addr = mac @ replicate (8 - length mac) 0\<rparr>)) (\<lambda>n.
     if n \<noteq> length datagram
     then io_raise (RawSendFailed (io_error_new WriteZero
       (''partial Linux packet-socket send: wrote {result} of {} bytes'', [FNum (int n), FNum (int (length datagram))])))
     else io_return n))"

section \<open>Calls that may not return\<close>

type_synonym ('w, 'e, 'a) pio = "'w \<Rightarrow> (('e failure + 'a) \<times> 'w) option"

section \<open>The netlink sockets\<close>

definition open_netlink_socket ::
  "('w, 's) os_api \<Rightarrow> u32 \<Rightarrow> bool \<Rightarrow> ('w, mctx_error, 's) io" where
  "open_netlink_socket os groups nonblocking =
     io_then (io_sys RawSocketCreateFailed
       (os_socket os DomainNetlink (if nonblocking then TypeRawNonblock else TypeRaw) 0)) (\<lambda>s.
     io_then (io_sys RawSocketBindFailed (os_call os s (BindNetlink groups))) (\<lambda>_.
     io_then (io_when (\<not> nonblocking) (sock_opt os s (SetReceiveTimeout 1))) (\<lambda>_.
     io_return s)))"

partial_function (option) peek_loop ::
  "('w, 's) os_api \<Rightarrow> 's \<Rightarrow> 'w \<Rightarrow> ((io_error + nat) \<times> 'w) option" where
  "peek_loop os s w =
     (case os_recv_peek os s w of (r, w') \<Rightarrow>
        (if (case r of Inl e \<Rightarrow> io_kind e = Interrupted | Inr _ \<Rightarrow> False) then peek_loop os s w' else Some (r, w')))"

partial_function (option) recv_loop ::
  "('w, 's) os_api \<Rightarrow> 's \<Rightarrow> nat \<Rightarrow> 'w \<Rightarrow> ((io_error + bytes) \<times> 'w) option" where
  "recv_loop os s n w =
     (case os_recv os s n w of (r, w') \<Rightarrow>
        (if (case r of Inl e \<Rightarrow> io_kind e = Interrupted | Inr _ \<Rightarrow> False) then recv_loop os s n w' else Some (r, w')))"

definition NETLINK_MAX_DATAGRAM_LEN :: nat where "NETLINK_MAX_DATAGRAM_LEN = 1024 * 1024"

definition receive_netlink_datagram ::
  "('w, 's) os_api \<Rightarrow> 's \<Rightarrow> ('w, io_error, bytes) pio" where
  "receive_netlink_datagram os s w =
     (case peek_loop os s w of
        None \<Rightarrow> None
      | Some (Inl e, w1) \<Rightarrow> Some (Err (Raised e), w1)
      | Some (Inr datagram_len, w1) \<Rightarrow>
          if datagram_len = 0 \<or> datagram_len > NETLINK_MAX_DATAGRAM_LEN
          then Some (Err (Raised (invalid_netlink_data ''invalid netlink datagram length'')), w1)
          else
            (case recv_loop os s datagram_len w1 of
               None \<Rightarrow> None
             | Some (Inl e, w2) \<Rightarrow> Some (Err (Raised e), w2)
             | Some (Inr bs, w2) \<Rightarrow>
                 if length bs \<noteq> datagram_len
                 then Some (Err (Raised (invalid_netlink_data ''netlink datagram length changed'')), w2)
                 else Some (Ok bs, w2)))"

definition route_result :: "route_candidate option \<Rightarrow> io_error + u32" where
  "route_result best =
     (case map_option cand_disposition best of
        Some (Interface interface_index) \<Rightarrow> Ok interface_index
      | Some (RouteError error) \<Rightarrow> Err (from_raw_os_error error)
      | None \<Rightarrow> Err (from_raw_os_error 101))"

partial_function (option) receive_route_dump_loop ::
  "('w, 's) os_api \<Rightarrow> 's \<Rightarrow> u32 \<Rightarrow> ipv6_addr \<Rightarrow> route_candidate option \<Rightarrow> ('w, io_error, u32) pio" where
  "receive_route_dump_loop os s sequence destination best w =
     (case receive_netlink_datagram os s w of
        None \<Rightarrow> None
      | Some (r, w1) \<Rightarrow>
          (case and_then r (\<lambda>bs. parse_route_dump_datagram bs sequence destination best) of
             Inl e \<Rightarrow> Some (Inl e, w1)
           | Inr (complete, best') \<Rightarrow>
               if complete then Some (lift_res (route_result best'), w1)
               else receive_route_dump_loop os s sequence destination best' w1))"

definition receive_route_dump ::
  "('w, 's) os_api \<Rightarrow> 's \<Rightarrow> u32 \<Rightarrow> ipv6_addr \<Rightarrow> ('w, io_error, u32) pio" where
  "receive_route_dump os s sequence destination = receive_route_dump_loop os s sequence destination None"

partial_function (option) drain_loop ::
  "('w, 's) os_api \<Rightarrow> 's \<Rightarrow> bool \<Rightarrow> 'w \<Rightarrow> ((io_error + bool) \<times> 'w) option" where
  "drain_loop os s invalidated w =
     (case os_recv os s 8192 w of (r, w') \<Rightarrow>
        (case r of
           Inl error \<Rightarrow>
             if io_kind error = Interrupted then drain_loop os s invalidated w'
             else if io_kind error = WouldBlock then Some (Ok invalidated, w')
             else if raw_os_error error = Some 105 then Some (Ok True, w')
             else Some (Err error, w')
         | Inr bs \<Rightarrow>
             if bs = [] then Some (Ok True, w')
             else drain_loop os s (invalidated \<or> notification_buffer_invalidates_route bs) w'))"

definition drain_invalidation_notifications ::
  "('w, 's) os_api \<Rightarrow> 's \<Rightarrow> 'w \<Rightarrow> ((io_error + bool) \<times> 'w) option" where
  "drain_invalidation_notifications os s = drain_loop os s False"

section \<open>Route-selected egress\<close>

record 's cached_route =
  cr_destination :: ipv6_addr
  cr_interface_index :: u32
  cr_socket :: 's

record 's linux_ipv6_route_egress =
  re_request_socket :: 's
  re_notification_socket :: 's
  re_next_sequence :: u32
  re_cached :: "'s cached_route option"

definition route_egress_new :: "('w, 's) os_api \<Rightarrow> ('w, mctx_error, 's linux_ipv6_route_egress) io" where
  "route_egress_new os =
     io_then (open_netlink_socket os 0 False) (\<lambda>request.
     io_then (open_netlink_socket os (1 OR 0x400) True) (\<lambda>notification.
     io_return \<lparr>re_request_socket = request, re_notification_socket = notification,
                re_next_sequence = 1, re_cached = None\<rparr>))"

text \<open>The bytes of the \<open>RouteDumpRequest\<close>: netlink header and route message.\<close>

definition dump_request :: "u32 \<Rightarrow> bytes" where
  "dump_request sequence =
     enc32 28 @ enc16 26 @ enc16 (1 OR 0x300) @ enc32 sequence @ enc32 0 @
     [10, 0, 0, 0, 254, 0, 0, 0] @ enc32 0"

definition egress_lookup ::
  "('w, 's) os_api \<Rightarrow> ipv6_addr \<Rightarrow> 's linux_ipv6_route_egress \<Rightarrow> 'w \<Rightarrow>
   ((io_error failure + u32) \<times> 's linux_ipv6_route_egress \<times> 'w) option" where
  "egress_lookup os destination st w =
     (let sequence = re_next_sequence st;
          st1 = st\<lparr>re_next_sequence := max (sequence + 1) 1\<rparr>;
          request = dump_request sequence in
      case os_send_netlink os (re_request_socket st1) request w of
        (Inl e, w1) \<Rightarrow> Some (Err (Raised e), st1, w1)
      | (Inr sent, w1) \<Rightarrow>
          if sent \<noteq> length request
          then Some (Err (Raised (io_error_new WriteZero (''partial NETLINK_ROUTE request'', []))), st1, w1)
          else (case receive_route_dump os (re_request_socket st1) sequence destination w1 of
                  None \<Rightarrow> None
                | Some (r, w2) \<Rightarrow> Some (r, st1, w2)))"

text \<open>\<open>.map_err(MctxError::RawSendFailed)?\<close> on a result that may be a panic\<close>

definition map_raised :: "('a \<Rightarrow> 'b) \<Rightarrow> 'a failure \<Rightarrow> 'b failure" where
  "map_raised f x = (case x of Raised e \<Rightarrow> Raised (f e) | Panicked \<Rightarrow> Panicked)"

text \<open>The part of \<open>egress\<close> after the cache: look the route up, open a socket and cache both.\<close>

definition egress_fresh ::
  "('w, 's) os_api \<Rightarrow> ipv6_addr \<Rightarrow> 's linux_ipv6_route_egress \<Rightarrow> 'w \<Rightarrow>
   ((mctx_error failure + u32 \<times> 's) \<times> 's linux_ipv6_route_egress \<times> 'w) option" where
  "egress_fresh os destination st w =
     (case egress_lookup os destination st w of
        None \<Rightarrow> None
      | Some (Inl f, st1, w1) \<Rightarrow> Some (Err (map_raised RawSendFailed f), st1, w1)
      | Some (Inr interface_index, st1, w1) \<Rightarrow>
          (case packet_open_ipv6 os interface_index w1 of
             (Inl f, w2) \<Rightarrow> Some (Err f, st1, w2)
           | (Inr s, w2) \<Rightarrow>
               Some (Ok (interface_index, s),
                 st1\<lparr>re_cached := Some \<lparr>cr_destination = destination,
                   cr_interface_index = interface_index, cr_socket = s\<rparr>\<rparr>, w2)))"

definition egress ::
  "('w, 's) os_api \<Rightarrow> ipv6_addr \<Rightarrow> 's linux_ipv6_route_egress \<Rightarrow> 'w \<Rightarrow>
   ((mctx_error failure + u32 \<times> 's) \<times> 's linux_ipv6_route_egress \<times> 'w) option" where
  "egress os destination st w =
     (case ensure_route_selectable_scope destination of
        Inl e \<Rightarrow> Some (Err (Raised e), st, w)
      | Inr _ \<Rightarrow>
        (case drain_invalidation_notifications os (re_notification_socket st) w of
           None \<Rightarrow> None
         | Some (Inl e, w1) \<Rightarrow> Some (Err (Raised (RawSendFailed e)), st, w1)
         | Some (Inr invalidated, w1) \<Rightarrow>
             let st1 = (if invalidated then st\<lparr>re_cached := None\<rparr> else st) in
             (case re_cached st1 of
                Some cached \<Rightarrow>
                  if cr_destination cached = destination
                  then Some (Ok (cr_interface_index cached, cr_socket cached), st1, w1)
                  else egress_fresh os destination st1 w1
              | None \<Rightarrow> egress_fresh os destination st1 w1)))"

definition egress_invalidate :: "u32 \<Rightarrow> 's linux_ipv6_route_egress \<Rightarrow> 's linux_ipv6_route_egress" where
  "egress_invalidate interface_index st =
     (if (case re_cached st of Some cached \<Rightarrow> cr_interface_index cached = interface_index | None \<Rightarrow> False)
      then st\<lparr>re_cached := None\<rparr> else st)"

end
