(* ===== verification/Raw_Linux.thy ===== *)
theory Raw_Linux
  imports Raw_Config Raw_Datagram_Facts Linux_Egress
begin

text \<open>
  Raw multicast publications on Linux (\<open>src/raw/platform.rs\<close> and \<open>src/raw/publication.rs\<close>):
  opening the transmit socket of a configuration, checking a datagram against the
  configuration, and sending it through one of the three backends. Sends take \<open>&self\<close> in the
  source and change the cached packet socket or the route state behind a mutex, so they return
  the transmit socket as they leave it.
\<close>

section \<open>State\<close>

datatype linux_backend = RawIpv4 | RawIpv6Explicit | RawIpv6RouteSelected

record 's raw_transmit_socket =
  ts_socket :: "'s option"
  ts_packet_ipv6_socket :: "'s option"
  ts_route_ipv6 :: "'s linux_ipv6_route_egress option"
  ts_family :: address_family
  ts_interface_index :: "u32 option"
  ts_local_bind_addr :: "ip_addr option"
  ts_backend :: linux_backend

record raw_send_report =
  rr_publication_id :: u64
  rr_family :: address_family
  rr_source_ip :: "ip_addr option"
  rr_destination_ip :: "ip_addr option"
  rr_ip_protocol :: "u8 option"
  rr_bytes_sent :: nat
  rr_local_bind_addr :: "ip_addr option"
  rr_outgoing_interface :: "outgoing_interface option"
  rr_outgoing_interface_index :: "u32 option"

record raw_ipv4_selection =
  s4_bind_addr :: ipv4_addr
  s4_interface_addr :: ipv4_addr
  s4_interface_index :: u32

record raw_ipv6_selection =
  s6_bind_addr :: "ipv6_addr option"
  s6_interface_index :: u32

section \<open>Checks\<close>

definition validate_datagram_against_config :: "parsed_raw \<Rightarrow> raw_publication_config \<Rightarrow> mctx_error + unit" where
  "validate_datagram_against_config parsed c =
     (if (case rc_family c of Some expected \<Rightarrow> expected \<noteq> pr_family parsed | None \<Rightarrow> False)
      then Err InvalidRawIpDatagram
      else if (case rc_bind_addr c of Some a \<Rightarrow> \<not> family_matches_ip (pr_family parsed) a | None \<Rightarrow> False)
      then Err RawBindAddressFamilyMismatch
      else if (case rc_outgoing_interface c of
                 Some i \<Rightarrow> \<not> interface_matches_family (pr_family parsed) i | None \<Rightarrow> False)
      then Err OutgoingInterfaceFamilyMismatch
      else if rc_validation_mode c = StrictMulticastDestination \<and> \<not> ip_is_multicast (pr_destination_ip parsed)
      then Err InvalidRawMulticastDestination
      else Ok ())"

definition ensure_ipv6_header_is_not_overridden :: "raw_publication_config \<Rightarrow> parsed_raw \<Rightarrow> mctx_error + unit" where
  "ensure_ipv6_header_is_not_overridden c parsed =
     (if (case rc_ttl c of Some hop_limit \<Rightarrow> hop_limit \<noteq> pr_ttl_or_hop_limit parsed | None \<Rightarrow> False)
      then Err (unsupported ''full-header IPv6 egress preserves the supplied hop limit and cannot override it'')
      else Ok ())"

definition raw_send_report_with_metadata ::
  "u64 \<Rightarrow> parsed_raw \<Rightarrow> nat \<Rightarrow> outgoing_interface option \<Rightarrow> ip_addr option \<Rightarrow> u32 option \<Rightarrow> raw_send_report" where
  "raw_send_report_with_metadata publication_id parsed bytes_sent outgoing_interface local_bind_addr index =
     \<lparr>rr_publication_id = publication_id, rr_family = pr_family parsed, rr_source_ip = Some (pr_source_ip parsed),
      rr_destination_ip = Some (pr_destination_ip parsed), rr_ip_protocol = Some (pr_protocol parsed),
      rr_bytes_sent = bytes_sent, rr_local_bind_addr = local_bind_addr,
      rr_outgoing_interface = outgoing_interface, rr_outgoing_interface_index = index\<rparr>"

definition make_raw_send_report ::
  "'s raw_transmit_socket \<Rightarrow> u64 \<Rightarrow> parsed_raw \<Rightarrow> nat \<Rightarrow> outgoing_interface option \<Rightarrow> raw_send_report" where
  "make_raw_send_report ts publication_id parsed bytes_sent outgoing_interface =
     raw_send_report_with_metadata publication_id parsed bytes_sent outgoing_interface
       (ts_local_bind_addr ts) (ts_interface_index ts)"

section \<open>Selecting the interface\<close>

definition resolve_raw_ipv4_selection ::
  "('w, 's) os_api \<Rightarrow> raw_publication_config \<Rightarrow> ('w, mctx_error, raw_ipv4_selection) io" where
  "resolve_raw_ipv4_selection os c =
     (let configured = (case rc_bind_addr c of Some (V4 addr) \<Rightarrow> Some addr | _ \<Rightarrow> None);
          selected = (case rc_outgoing_interface c of Some (OutIpv4Addr addr) \<Rightarrow> Some addr | _ \<Rightarrow> None) in
      io_then (io_res (lift_res (ok_or RawInterfaceRequired (or_else selected configured)))) (\<lambda>interface_addr.
      let bind_addr = (case configured of Some a \<Rightarrow> a | None \<Rightarrow> interface_addr) in
      io_then (resolve_ipv4_interface_index os interface_addr) (\<lambda>interface_index.
      io_then (if bind_addr = interface_addr then io_return interface_index
               else resolve_ipv4_interface_index os bind_addr) (\<lambda>bind_index.
      if bind_index \<noteq> interface_index
      then io_raise (InterfaceDiscoveryFailed
        (''raw bind address {bind_addr} resolves to interface index {bind_index}, expected {interface_index}'',
         [FIp (V4 bind_addr), FNum (uint bind_index), FNum (uint interface_index)]))
      else io_return \<lparr>s4_bind_addr = bind_addr, s4_interface_addr = interface_addr,
                      s4_interface_index = interface_index\<rparr>))))"

definition resolve_raw_ipv6_selection ::
  "('w, 's) os_api \<Rightarrow> raw_publication_config \<Rightarrow> ('w, mctx_error, raw_ipv6_selection) io" where
  "resolve_raw_ipv6_selection os c =
     (let configured = (case rc_bind_addr c of Some (V6 addr) \<Rightarrow> Some addr | _ \<Rightarrow> None);
          bind_addr = or_else configured
            (case rc_outgoing_interface c of Some (OutIpv6Addr addr) \<Rightarrow> Some addr | _ \<Rightarrow> None) in
      io_then (case rc_outgoing_interface c of
                 Some (OutIpv6Index index) \<Rightarrow> io_return (Some index)
               | Some (OutIpv6Addr addr) \<Rightarrow>
                   io_then (resolve_ipv6_interface_index os addr) (\<lambda>k. io_return (Some k))
               | _ \<Rightarrow> io_return None) (\<lambda>explicit_interface_index.
      io_then (case bind_addr of
                 None \<Rightarrow> io_return None
               | Some bind \<Rightarrow>
                   if rc_outgoing_interface c = Some (OutIpv6Addr bind)
                   then io_return explicit_interface_index
                   else io_then (resolve_ipv6_interface_index os bind) (\<lambda>k. io_return (Some k)))
        (\<lambda>bind_interface_index.
      io_then (case (bind_addr, bind_interface_index, explicit_interface_index) of
                 (Some bind, Some bi, Some ei) \<Rightarrow>
                   if bi \<noteq> ei then io_raise (Ipv6SourceInterfaceMismatch (V6 bind) bi ei) else io_return ()
               | _ \<Rightarrow> io_return ()) (\<lambda>_.
      io_then (io_res (lift_res (ok_or RawInterfaceRequired
                 (or_else explicit_interface_index bind_interface_index)))) (\<lambda>interface_index.
      io_return \<lparr>s6_bind_addr = bind_addr, s6_interface_index = interface_index\<rparr>)))))"

section \<open>Opening\<close>

definition open_linux_raw_socket_v4 ::
  "('w, 's) os_api \<Rightarrow> raw_publication_config \<Rightarrow> ('w, mctx_error, 's raw_transmit_socket) io" where
  "open_linux_raw_socket_v4 os c =
     io_then (resolve_raw_ipv4_selection os c) (\<lambda>selection.
     io_then (io_sys RawSocketCreateFailed (os_socket os DomainIpv4 TypeRaw ipproto_raw)) (\<lambda>s.
     io_then (sock_opt os s (SetNonblocking True)) (\<lambda>_.
     io_then (sock_opt os s (SetHeaderIncludedV4 True)) (\<lambda>_.
     io_then (io_sys RawSocketBindFailed
       (os_call os s (Bind (SockV4 (socket_addr_v4_new (s4_bind_addr selection) 0))))) (\<lambda>_.
     io_then (sock_opt os s (SetMulticastIfV4 (s4_interface_addr selection))) (\<lambda>_.
     io_then (case rc_loopback c of
                Some loopback \<Rightarrow> sock_opt os s (SetMulticastLoopV4 loopback) | None \<Rightarrow> io_return ()) (\<lambda>_.
     io_return \<lparr>ts_socket = Some s, ts_packet_ipv6_socket = None, ts_route_ipv6 = None, ts_family = Ipv4,
                ts_interface_index = Some (s4_interface_index selection),
                ts_local_bind_addr = Some (V4 (s4_bind_addr selection)), ts_backend = RawIpv4\<rparr>)))))))"

definition open_linux_route_selected_raw_socket_v4 ::
  "('w, 's) os_api \<Rightarrow> raw_publication_config \<Rightarrow> ('w, mctx_error, 's raw_transmit_socket) io" where
  "open_linux_route_selected_raw_socket_v4 os c =
     io_then (io_sys RawSocketCreateFailed (os_socket os DomainIpv4 TypeRaw ipproto_raw)) (\<lambda>s.
     io_then (sock_opt os s (SetNonblocking True)) (\<lambda>_.
     io_then (sock_opt os s (SetHeaderIncludedV4 True)) (\<lambda>_.
     io_then (case rc_loopback c of
                Some loopback \<Rightarrow> sock_opt os s (SetMulticastLoopV4 loopback) | None \<Rightarrow> io_return ()) (\<lambda>_.
     io_return \<lparr>ts_socket = Some s, ts_packet_ipv6_socket = None, ts_route_ipv6 = None, ts_family = Ipv4,
                ts_interface_index = None, ts_local_bind_addr = None, ts_backend = RawIpv4\<rparr>))))"

definition open_linux_route_selected_raw_socket_v6 ::
  "('w, 's) os_api \<Rightarrow> raw_publication_config \<Rightarrow> ('w, mctx_error, 's raw_transmit_socket) io" where
  "open_linux_route_selected_raw_socket_v6 os c =
     (if rc_loopback c = Some True
      then io_raise (unsupported
        ''Linux route-selected IPv6 uses AF_PACKET and cannot enable local IP multicast loopback'')
      else io_then (route_egress_new os) (\<lambda>route.
        io_return \<lparr>ts_socket = None, ts_packet_ipv6_socket = None, ts_route_ipv6 = Some route, ts_family = Ipv6,
                   ts_interface_index = None, ts_local_bind_addr = None, ts_backend = RawIpv6RouteSelected\<rparr>))"

definition open_linux_raw_socket_v6 ::
  "('w, 's) os_api \<Rightarrow> raw_publication_config \<Rightarrow> ('w, mctx_error, 's raw_transmit_socket) io" where
  "open_linux_raw_socket_v6 os c =
     io_then (resolve_raw_ipv6_selection os c) (\<lambda>selection.
     if rc_loopback c = Some True
     then io_raise (unsupported
       ''Linux full-header IPv6 uses AF_PACKET and cannot enable local IP multicast loopback'')
     else io_return
       \<lparr>ts_socket = None, ts_packet_ipv6_socket = None, ts_route_ipv6 = None, ts_family = Ipv6,
        ts_interface_index = Some (s6_interface_index selection),
        ts_local_bind_addr = map_option V6 (s6_bind_addr selection), ts_backend = RawIpv6Explicit\<rparr>)"

definition open_raw_transmit_socket ::
  "('w, 's) os_api \<Rightarrow> raw_publication_config \<Rightarrow> ('w, mctx_error, 's raw_transmit_socket) io" where
  "open_raw_transmit_socket os c =
     io_then (io_res (lift_res (raw_config_validate c))) (\<lambda>_.
     if uses_route_selected_egress c then
       (case configured_socket_family c of
          Some Ipv4 \<Rightarrow> open_linux_route_selected_raw_socket_v4 os c
        | Some Ipv6 \<Rightarrow> open_linux_route_selected_raw_socket_v6 os c
        | None \<Rightarrow> io_res (Err Panicked))
     else
       (case configured_socket_family c of
          Some Ipv4 \<Rightarrow> open_linux_raw_socket_v4 os c
        | _ \<Rightarrow> open_linux_raw_socket_v6 os c))"

section \<open>Sending\<close>

type_synonym ('w, 's, 'a) ts_op =
  "'s raw_transmit_socket \<Rightarrow> 'w \<Rightarrow> ((mctx_error failure + 'a) \<times> 's raw_transmit_socket \<times> 'w) option"

text \<open>An operation that leaves the transmit socket as it is.\<close>

definition keep_ts :: "('w, mctx_error, 'a) io \<Rightarrow> ('w, 's, 'a) ts_op" where
  "keep_ts m ts w = (case m w of (r, w') \<Rightarrow> Some (r, ts, w'))"

definition send_linux_raw_ipv4_datagram ::
  "('w, 's) os_api \<Rightarrow> 's raw_transmit_socket \<Rightarrow> u64 \<Rightarrow> raw_publication_config \<Rightarrow> parsed_raw \<Rightarrow> bytes \<Rightarrow>
   ('w, mctx_error, raw_send_report) io" where
  "send_linux_raw_ipv4_datagram os ts i c parsed datagram =
     io_then (case pr_destination_ip parsed of
         V4 g \<Rightarrow>
           if ipv4_is_multicast g then io_return (socket_addr_v4_new g 0)
           else (case rc_validation_mode c of
                   StrictMulticastDestination \<Rightarrow> io_raise InvalidRawMulticastDestination
                 | AllowAnyDestination \<Rightarrow> io_raise (unsupported
                     ''Linux raw IPv4 transmit currently supports multicast destinations only''))
       | V6 _ \<Rightarrow> io_raise (unsupported ''Linux raw IPv4 transmit cannot send IPv6 datagrams'')) (\<lambda>destination.
     case ts_socket ts of
       None \<Rightarrow> io_res (Err Panicked)
     | Some s \<Rightarrow>
         io_then (io_sys RawSendFailed (os_send_to os s datagram (SockV4 destination))) (\<lambda>bytes_sent.
         io_return (make_raw_send_report ts i parsed bytes_sent (rc_outgoing_interface c))))"

definition cached_linux_packet_ipv6_socket :: "('w, 's) os_api \<Rightarrow> ('w, 's, 's) ts_op" where
  "cached_linux_packet_ipv6_socket os ts w =
     (case ts_packet_ipv6_socket ts of
        Some s \<Rightarrow> Some (Ok s, ts, w)
      | None \<Rightarrow>
          (case ts_interface_index ts of
             None \<Rightarrow> Some (Err (Raised RawInterfaceRequired), ts, w)
           | Some interface_index \<Rightarrow>
               (case packet_open_ipv6 os interface_index w of
                  (Inl f, w') \<Rightarrow> Some (Err f, ts, w')
                | (Inr s, w') \<Rightarrow> Some (Ok s, ts\<lparr>ts_packet_ipv6_socket := Some s\<rparr>, w'))))"

definition send_linux_packet_ipv6_datagram ::
  "('w, 's) os_api \<Rightarrow> u64 \<Rightarrow> raw_publication_config \<Rightarrow> parsed_raw \<Rightarrow> bytes \<Rightarrow> ipv6_addr \<Rightarrow>
   ('w, 's, raw_send_report) ts_op" where
  "send_linux_packet_ipv6_datagram os i c parsed ip_datagram g ts w =
     (case ts_interface_index ts of
        None \<Rightarrow> Some (Err (Raised RawInterfaceRequired), ts, w)
      | Some interface_index \<Rightarrow>
          (case cached_linux_packet_ipv6_socket os ts w of
             None \<Rightarrow> None
           | Some (Inl f, ts1, w1) \<Rightarrow> Some (Err f, ts1, w1)
           | Some (Inr s, ts1, w1) \<Rightarrow>
               (case packet_send_ipv6 os s interface_index g ip_datagram w1 of
                  (Inl f, w2) \<Rightarrow> Some (Err f, ts1, w2)
                | (Inr bytes_sent, w2) \<Rightarrow>
                    Some (Ok (make_raw_send_report ts1 i parsed bytes_sent (rc_outgoing_interface c)), ts1, w2))))"

text \<open>The check of the destination that the two IPv6 backends make, with their message.\<close>

definition ipv6_destination_group ::
  "string \<Rightarrow> raw_publication_config \<Rightarrow> parsed_raw \<Rightarrow> mctx_error + ipv6_addr" where
  "ipv6_destination_group only_multicast c parsed =
     (case pr_destination_ip parsed of
        V6 g \<Rightarrow>
          if ipv6_is_multicast g then Ok g
          else if rc_validation_mode c = StrictMulticastDestination then Err InvalidRawMulticastDestination
          else Err (unsupported only_multicast)
      | V4 _ \<Rightarrow> Err InvalidRawIpDatagram)"

definition send_linux_raw_ipv6_datagram ::
  "('w, 's) os_api \<Rightarrow> u64 \<Rightarrow> raw_publication_config \<Rightarrow> parsed_raw \<Rightarrow> bytes \<Rightarrow> ('w, 's, raw_send_report) ts_op" where
  "send_linux_raw_ipv6_datagram os i c parsed datagram ts w =
     (case ipv6_destination_group
         ''Linux full-header raw IPv6 transmit supports multicast destinations only'' c parsed of
        Inl e \<Rightarrow> Some (Err (Raised e), ts, w)
      | Inr g \<Rightarrow>
          (case ensure_ipv6_header_is_not_overridden c parsed of
             Inl e \<Rightarrow> Some (Err (Raised e), ts, w)
           | Inr _ \<Rightarrow> send_linux_packet_ipv6_datagram os i c parsed datagram g ts w))"

definition send_linux_route_selected_ipv6_datagram ::
  "('w, 's) os_api \<Rightarrow> u64 \<Rightarrow> raw_publication_config \<Rightarrow> parsed_raw \<Rightarrow> bytes \<Rightarrow> ('w, 's, raw_send_report) ts_op" where
  "send_linux_route_selected_ipv6_datagram os i c parsed datagram ts w =
     (case ipv6_destination_group
         ''Linux route-selected raw IPv6 transmit supports multicast destinations only'' c parsed of
        Inl e \<Rightarrow> Some (Err (Raised e), ts, w)
      | Inr g \<Rightarrow>
          (case ts_route_ipv6 ts of
             None \<Rightarrow> Some (Err Panicked, ts, w)
           | Some route \<Rightarrow>
               (case egress os g route w of
                  None \<Rightarrow> None
                | Some (Inl f, route1, w1) \<Rightarrow> Some (Err f, ts\<lparr>ts_route_ipv6 := Some route1\<rparr>, w1)
                | Some (Inr (interface_index, s), route1, w1) \<Rightarrow>
                    (case packet_send_ipv6 os s interface_index g datagram w1 of
                       (Inl f, w2) \<Rightarrow>
                         Some (Err f, ts\<lparr>ts_route_ipv6 := Some (egress_invalidate interface_index route1)\<rparr>, w2)
                     | (Inr bytes_sent, w2) \<Rightarrow>
                         Some (Ok (raw_send_report_with_metadata i parsed bytes_sent
                                     (rc_outgoing_interface c) None (Some interface_index)),
                               ts\<lparr>ts_route_ipv6 := Some route1\<rparr>, w2)))))"

text \<open>The override of the TTL is applied only when it changes something.\<close>

definition datagram_with_ttl :: "raw_publication_config \<Rightarrow> parsed_raw \<Rightarrow> bytes \<Rightarrow> mctx_error failure + bytes" where
  "datagram_with_ttl c parsed ip_datagram =
     (case rc_ttl c of
        Some ttl \<Rightarrow>
          if ttl \<noteq> pr_ttl_or_hop_limit parsed then apply_ttl_or_hop_limit_override ip_datagram parsed ttl
          else Ok ip_datagram
      | None \<Rightarrow> Ok ip_datagram)"

definition send_raw_ip_datagram ::
  "('w, 's) os_api \<Rightarrow> u64 \<Rightarrow> raw_publication_config \<Rightarrow> bytes \<Rightarrow> ('w, 's, raw_send_report) ts_op" where
  "send_raw_ip_datagram os i c ip_datagram ts w =
     (case and_then (parse_raw_ip_datagram ip_datagram)
             (\<lambda>parsed. and_then (lift_res (validate_datagram_against_config parsed c)) (\<lambda>_. Ok parsed)) of
        Inl f \<Rightarrow> Some (Err f, ts, w)
      | Inr parsed \<Rightarrow>
          (case ts_backend ts of
             RawIpv4 \<Rightarrow>
               keep_ts (io_then (io_res (datagram_with_ttl c parsed ip_datagram)) (\<lambda>datagram.
                 send_linux_raw_ipv4_datagram os ts i c parsed datagram)) ts w
           | RawIpv6Explicit \<Rightarrow> send_linux_raw_ipv6_datagram os i c parsed ip_datagram ts w
           | RawIpv6RouteSelected \<Rightarrow> send_linux_route_selected_ipv6_datagram os i c parsed ip_datagram ts w))"

section \<open>The publication\<close>

record 's raw_publication =
  rp_id :: u64
  rp_config :: raw_publication_config
  rp_socket :: "'s raw_transmit_socket"

definition raw_publication_new ::
  "('w, 's) os_api \<Rightarrow> u64 \<Rightarrow> raw_publication_config \<Rightarrow> ('w, mctx_error, 's raw_publication) io" where
  "raw_publication_new os i c =
     io_then (open_raw_transmit_socket os c) (\<lambda>s.
     io_return \<lparr>rp_id = i, rp_config = c, rp_socket = s\<rparr>)"

definition publication_send_raw ::
  "('w, 's) os_api \<Rightarrow> bytes \<Rightarrow> 's raw_publication \<Rightarrow> 'w \<Rightarrow>
   ((mctx_error failure + raw_send_report) \<times> 's raw_publication \<times> 'w) option" where
  "publication_send_raw os ip_datagram p w =
     map_option (\<lambda>(r, ts, w'). (r, p\<lparr>rp_socket := ts\<rparr>, w'))
       (send_raw_ip_datagram os (rp_id p) (rp_config p) ip_datagram (rp_socket p) w)"

end
