(* ===== verification/Linux_Egress_Facts.thy ===== *)
theory Linux_Egress_Facts
  imports Linux_Egress Netlink_Route_Facts
begin

text \<open>
  Properties of the route-selected IPv6 egress of \<open>src/raw/linux_route.rs\<close>: it never panics,
  its cached route is coherent with what it returns, its sequence numbers are never zero, and it
  returns whenever only finitely many receives deliver data or are interrupted.
\<close>

section \<open>No panics\<close>

lemma packet_open_safe: "io_safe (packet_open_ipv6 os i)"
  unfolding packet_open_ipv6_def ensure_ethernet_interface_def link_info_def
  by (auto intro!: mctx_panic split: prod.splits)

lemma packet_send_safe: "io_safe (packet_send_ipv6 os s i g d)"
  unfolding packet_send_ipv6_def Let_def by (auto intro!: mctx_panic)

lemma receive_datagram_safe: "receive_netlink_datagram os s w = Some (r, w') \<Longrightarrow> no_panic r"
  by (auto simp: receive_netlink_datagram_def split: option.splits sum.splits if_splits)

lemma receive_dump_loop_safe:
  assumes "receive_route_dump_loop os s sequence destination best w = Some y"
  shows "no_panic (fst y)"
proof (rule receive_route_dump_loop.raw_induct [where P = "\<lambda>os s sq d b w y. no_panic (fst y)", OF _ assms],
    goal_cases)
  case (1 f os s sq d b w y)
  from 1(2) obtain r w1 where r: "receive_netlink_datagram os s w = Some (r, w1)"
    by (auto split: option.splits)
  have p: "no_panic (and_then r (\<lambda>bs. parse_route_dump_datagram bs sq d b))"
    using receive_datagram_safe [OF r] by (intro no_panic_and_then)
      (auto simp: parse_route_dump_datagram_def intro: dump_loop_safe)
  show ?case
  proof (cases "and_then r (\<lambda>bs. parse_route_dump_datagram bs sq d b)")
    case (Inl e)
    with 1(2) r p show ?thesis by auto
  next
    case (Inr cb)
    with 1(2) r show ?thesis by (auto split: prod.splits if_splits intro: 1(1))
  qed
qed

lemma lookup_effect:
  assumes "egress_lookup os destination st w = Some (r, st', w')"
  shows "no_panic r \<and> st' = st\<lparr>re_next_sequence := max (re_next_sequence st + 1) 1\<rparr>"
proof -
  have "receive_route_dump os s sq d v = Some (q, v') \<Longrightarrow> no_panic q" for s sq d v q v'
    using receive_dump_loop_safe [of os s sq d None v "(q, v')"] by (simp add: receive_route_dump_def)
  with assms show ?thesis
    by (auto simp: egress_lookup_def Let_def split: prod.splits sum.splits if_splits option.splits)
qed

lemma egress_fresh_effect:
  assumes "egress_fresh os destination st w = Some (r, st', w')"
  shows "no_panic r \<and> re_next_sequence st' = max (re_next_sequence st + 1) 1 \<and>
    (case r of Inl _ \<Rightarrow> re_cached st' = re_cached st
     | Inr (i, s) \<Rightarrow> re_cached st' = Some \<lparr>cr_destination = destination, cr_interface_index = i, cr_socket = s\<rparr>)"
proof -
  have m: "no_panic (Inl f :: io_error failure + u32) \<Longrightarrow> no_panic (Inl (map_raised RawSendFailed f) :: mctx_error failure + u32 \<times> 's)"
    for f by (cases f) (auto simp: map_raised_def)
  have o: "packet_open_ipv6 os i v \<noteq> (Inl Panicked, v')" for i v v'
    using io_safeD [OF packet_open_safe] .
  obtain q st1 w1 where q: "egress_lookup os destination st w = Some (q, st1, w1)"
    using assms by (auto simp: egress_fresh_def split: option.splits)
  note l = lookup_effect [OF q]
  show ?thesis
  proof (cases q)
    case (Inl f)
    with assms q l show ?thesis by (cases f) (auto simp: egress_fresh_def map_raised_def)
  next
    case (Inr i)
    with assms q l o show ?thesis
      by (auto simp: egress_fresh_def no_panic_def split: prod.splits sum.splits)
  qed
qed

section \<open>The cached route\<close>

definition scope_restricted :: "ipv6_addr \<Rightarrow> bool" where
  "scope_restricted g \<longleftrightarrow> ipv6_octet g 1 AND 0x0f \<in> {1, 2}"

lemma egress_cases:
  assumes "egress os destination st w = Some (r, st', w')"
  obtains (scope) "scope_restricted destination" "r = Err (Raised Ipv6ScopedMulticastRequiresInterface)" "st' = st" "w' = w"
  | (drain) e where "\<not> scope_restricted destination" "r = Err (Raised (RawSendFailed e))" "st' = st"
      "drain_invalidation_notifications os (re_notification_socket st) w = Some (Err e, w')"
  | (hit) c where "\<not> scope_restricted destination" "re_cached st = Some c" "cr_destination c = destination"
      "r = Ok (cr_interface_index c, cr_socket c)" "st' = st"
      "drain_invalidation_notifications os (re_notification_socket st) w = Some (Ok False, w')"
  | (fresh) inv w1 where "\<not> scope_restricted destination"
      "drain_invalidation_notifications os (re_notification_socket st) w = Some (Ok inv, w1)"
      "egress_fresh os destination (if inv then st\<lparr>re_cached := None\<rparr> else st) w1 = Some (r, st', w')"
proof (cases "scope_restricted destination")
  case True
  with assms scope show ?thesis by (auto simp: egress_def ensure_route_selectable_scope_def scope_restricted_def Let_def)
next
  case False
  then have ok: "ensure_route_selectable_scope destination = Ok ()"
    by (simp add: ensure_route_selectable_scope_def scope_restricted_def Let_def)
  obtain q w1 where q: "drain_invalidation_notifications os (re_notification_socket st) w = Some (q, w1)"
    using assms ok by (auto simp: egress_def split: option.splits)
  show ?thesis
  proof (cases q)
    case (Inl e)
    with assms ok q False drain show ?thesis by (auto simp: egress_def)
  next
    case (Inr inv)
    with assms ok q False hit fresh show ?thesis
      by (cases "re_cached st"; cases inv) (auto simp: egress_def Let_def split: if_splits)
  qed
qed

text \<open>
  C11. The route-selected egress. A group whose scope needs an explicit interface is refused before
  anything is sent. A successful call leaves exactly the returned interface and socket cached for
  the destination; it comes from the cache only when the cache already held it for this
  destination and the pending notifications reported no change of links or routes. An error
  never leaves a route cached that was not cached before, sequence numbers are never zero, and no
  call panics.
\<close>

theorem egress_effect:
  assumes "egress os destination st w = Some (r, st', w')"
  shows "no_panic r \<and>
    (scope_restricted destination \<longrightarrow> r = Err (Raised Ipv6ScopedMulticastRequiresInterface) \<and> st' = st \<and> w' = w) \<and>
    (re_next_sequence st \<noteq> 0 \<longrightarrow> re_next_sequence st' \<noteq> 0) \<and>
    (case r of
       Inl _ \<Rightarrow> re_cached st' \<in> {None, re_cached st}
     | Inr (i, s) \<Rightarrow>
         re_cached st' = Some \<lparr>cr_destination = destination, cr_interface_index = i, cr_socket = s\<rparr> \<and>
         (re_cached st' = re_cached st \<and>
            drain_invalidation_notifications os (re_notification_socket st) w = Some (Ok False, w') \<or>
          re_next_sequence st' = max (re_next_sequence st + 1) 1))"
  using assms
proof (cases rule: egress_cases)
  case (hit c)
  then show ?thesis by (cases c) auto
next
  case (fresh inv w1)
  have "max (re_next_sequence st + 1) 1 \<noteq> 0"
    by (metis leD max.cobounded2 word_gt_0_no zero_neq_one word_coorder.not_eq_extremum)
  with egress_fresh_effect [OF fresh(3)] fresh show ?thesis
    by (auto split: sum.splits prod.splits)
qed auto

definition sample_egress :: "nat linux_ipv6_route_egress" where
  "sample_egress = \<lparr>re_request_socket = 3, re_notification_socket = 4, re_next_sequence = 1,
     re_cached = Some \<lparr>cr_destination = 0xff3e0000000000000000000080001234, cr_interface_index = 2, cr_socket = 9\<rparr>\<rparr>"

lemma sample_drain:
  "drain_invalidation_notifications device_os s (device_start 0) = Some (Ok False, device_start 0)"
  by (simp add: drain_invalidation_notifications_def drain_loop.simps device_defs io_error_os_def)

text \<open>A cached route with no pending notification is used as it is.\<close>

theorem egress_effect_witness:
  "egress device_os 0xff3e0000000000000000000080001234 sample_egress (device_start 0) =
     Some (Ok (2, 9), sample_egress, device_start 0) \<and>
   no_panic (Ok (2, 9) :: mctx_error failure + u32 \<times> nat) \<and> re_next_sequence sample_egress \<noteq> 0"
proof -
  have scope: "ensure_route_selectable_scope 0xff3e0000000000000000000080001234 = Ok ()" by code_simp
  have run: "egress device_os 0xff3e0000000000000000000080001234 sample_egress (device_start 0) =
      Some (Ok (2, 9), sample_egress, device_start 0)"
    by (simp add: egress_def scope sample_drain) (simp add: sample_egress_def)
  have "re_next_sequence sample_egress \<noteq> 0" by (simp add: sample_egress_def)
  with egress_effect [OF run] run show ?thesis by blast
qed

section \<open>The calls return\<close>

text \<open>
  A bound on the receives that deliver data or are interrupted: \<open>\<mu>\<close> counts what the sockets
  still have to deliver. Sending a request may make it larger, receiving makes it smaller.
\<close>

definition retry :: "io_error + 'a \<Rightarrow> bool" where
  "retry r = (case r of Inl e \<Rightarrow> io_kind e = Interrupted | Inr _ \<Rightarrow> False)"

definition bounded_input :: "('w, 's) os_api \<Rightarrow> ('w \<Rightarrow> nat) \<Rightarrow> bool" where
  "bounded_input os \<mu> \<longleftrightarrow>
     (\<forall>s w r w'. os_recv_peek os s w = (r, w') \<longrightarrow> \<mu> w' \<le> \<mu> w \<and> (retry r \<longrightarrow> \<mu> w' < \<mu> w)) \<and>
     (\<forall>s n w r w'. os_recv os s n w = (r, w') \<longrightarrow> \<mu> w' \<le> \<mu> w \<and> (retry r \<or> is_ok r \<longrightarrow> \<mu> w' < \<mu> w))"

lemma bounded_peek:
  "bounded_input os \<mu> \<Longrightarrow> os_recv_peek os s w = (r, w') \<Longrightarrow> \<mu> w' \<le> \<mu> w \<and> (retry r \<longrightarrow> \<mu> w' < \<mu> w)"
  unfolding bounded_input_def by blast

lemma bounded_recv:
  "bounded_input os \<mu> \<Longrightarrow> os_recv os s n w = (r, w') \<Longrightarrow> \<mu> w' \<le> \<mu> w \<and> (retry r \<or> is_ok r \<longrightarrow> \<mu> w' < \<mu> w)"
  unfolding bounded_input_def by blast

lemma peek_loop_returns:
  assumes "bounded_input os \<mu>"
  shows "\<exists>r w'. peek_loop os s w = Some (r, w') \<and> \<mu> w' \<le> \<mu> w"
proof (induction "\<mu> w" arbitrary: w rule: less_induct)
  case less
  obtain r w1 where r: "os_recv_peek os s w = (r, w1)" by force
  note b = bounded_peek [OF assms r]
  show ?case
  proof (cases "retry r")
    case True
    with b less obtain r2 w2 where "peek_loop os s w1 = Some (r2, w2)" "\<mu> w2 \<le> \<mu> w1" by blast
    with True b show ?thesis by (subst peek_loop.simps) (auto simp: r retry_def split: sum.splits)
  next
    case False
    with b show ?thesis by (subst peek_loop.simps) (auto simp: r retry_def split: sum.splits)
  qed
qed

lemma recv_loop_returns:
  assumes "bounded_input os \<mu>"
  shows "\<exists>r w'. recv_loop os s n w = Some (r, w') \<and> \<mu> w' \<le> \<mu> w \<and> (is_ok r \<longrightarrow> \<mu> w' < \<mu> w)"
proof (induction "\<mu> w" arbitrary: w rule: less_induct)
  case less
  obtain r w1 where r: "os_recv os s n w = (r, w1)" by force
  note b = bounded_recv [OF assms r]
  show ?case
  proof (cases "retry r")
    case True
    with b less obtain r2 w2 where "recv_loop os s n w1 = Some (r2, w2)" "\<mu> w2 \<le> \<mu> w1" by blast
    with True b show ?thesis by (subst recv_loop.simps) (auto simp: r retry_def split: sum.splits)
  next
    case False
    with b show ?thesis by (subst recv_loop.simps) (auto simp: r retry_def split: sum.splits)
  qed
qed

lemma receive_datagram_returns:
  assumes "bounded_input os \<mu>"
  shows "\<exists>r w'. receive_netlink_datagram os s w = Some (r, w') \<and> (is_ok r \<longrightarrow> \<mu> w' < \<mu> w)"
proof -
  obtain p w1 where p: "peek_loop os s w = Some (p, w1)" "\<mu> w1 \<le> \<mu> w"
    using peek_loop_returns [OF assms] by blast
  obtain q w2 where q: "recv_loop os s (projr p) w1 = Some (q, w2)" "is_ok q \<longrightarrow> \<mu> w2 < \<mu> w1"
    using recv_loop_returns [OF assms] by blast
  show ?thesis
    using p q by (cases p; cases q) (auto simp: receive_netlink_datagram_def)
qed

lemma dump_loop_returns:
  assumes "bounded_input os \<mu>"
  shows "\<exists>y. receive_route_dump_loop os s sequence destination best w = Some y"
proof (induction "\<mu> w" arbitrary: best w rule: less_induct)
  case less
  obtain r w1 where r: "receive_netlink_datagram os s w = Some (r, w1)" "is_ok r \<longrightarrow> \<mu> w1 < \<mu> w"
    using receive_datagram_returns [OF assms] by blast
  have ih: "is_ok r \<Longrightarrow> \<exists>y. receive_route_dump_loop os s sequence destination b w1 = Some y" for b
    using less r(2) by blast
  show ?case
    using r(1) ih
    by (subst receive_route_dump_loop.simps) (cases r; auto split: sum.splits prod.splits)
qed

lemma drain_loop_returns:
  assumes "bounded_input os \<mu>"
  shows "\<exists>y. drain_loop os s iv w = Some y"
proof (induction "\<mu> w" arbitrary: iv w rule: less_induct)
  case less
  obtain r w1 where r: "os_recv os s 8192 w = (r, w1)" by force
  note b = bounded_recv [OF assms r]
  have ih: "retry r \<or> is_ok r \<Longrightarrow> \<exists>y. drain_loop os s i w1 = Some y" for i
    using less b by blast
  show ?case
    using ih by (subst drain_loop.simps) (cases r; auto simp: r retry_def)
qed

lemma egress_returns:
  assumes "bounded_input os \<mu>"
  shows "\<exists>r st' w'. egress os destination st w = Some (r, st', w')"
proof -
  obtain d w1 where d: "drain_invalidation_notifications os (re_notification_socket st) w = Some (d, w1)"
    using drain_loop_returns [OF assms] unfolding drain_invalidation_notifications_def by (metis prod.exhaust)
  have l: "\<exists>q. egress_lookup os destination st1 w1 = Some q" for st1
  proof -
    obtain q w2 where q: "os_send_netlink os (re_request_socket st1) (dump_request (re_next_sequence st1)) w1 = (q, w2)"
      by force
    obtain y where y: "receive_route_dump os (re_request_socket st1) (re_next_sequence st1) destination w2 = Some y"
      using dump_loop_returns [OF assms] unfolding receive_route_dump_def by blast
    show ?thesis by (cases q; cases y) (simp_all add: egress_lookup_def Let_def q y)
  qed
  have f: "\<exists>q. egress_fresh os destination st1 w1 = Some q" for st1
    using l [of st1] by (auto simp: egress_fresh_def split: prod.splits sum.splits)
  show ?thesis
    using d f by (cases d) (auto simp: egress_def Let_def split: sum.splits option.splits)
qed

text \<open>The device with a finite inbox satisfies the bound.\<close>

lemma device_bounded: "bounded_input device_os (\<lambda>w. length (dev_inbox w))"
  by (auto simp: bounded_input_def device_defs retry_def io_error_os_def split: list.splits)

end
