(* ===== verification/Raw_Linux_Facts.thy ===== *)
theory Raw_Linux_Facts
  imports Raw_Linux Linux_Egress_Facts
begin

text \<open>
  Properties of raw multicast publications on Linux (\<open>src/raw/platform.rs\<close>): opening
  establishes an invariant of the transmit socket that every send keeps and under which none of the
  \<open>expect\<close> and \<open>unreachable!\<close> calls is reached; what a successful send has handed to the
  operating system is the datagram of the caller, and it goes to a multicast destination.
\<close>

section \<open>The invariant of a transmit socket\<close>

definition ts_ok :: "raw_publication_config \<Rightarrow> 's raw_transmit_socket \<Rightarrow> bool" where
  "ts_ok c ts \<longleftrightarrow> raw_config_validate c = Ok () \<and> configured_socket_family c = Some (ts_family ts) \<and>
     (case ts_backend ts of
        RawIpv4 \<Rightarrow> ts_family ts = Ipv4 \<and> ts_socket ts \<noteq> None
      | RawIpv6Explicit \<Rightarrow> ts_family ts = Ipv6 \<and> ts_interface_index ts \<notin> {None, Some 0}
      | RawIpv6RouteSelected \<Rightarrow> ts_family ts = Ipv6 \<and> uses_route_selected_egress c \<and>
          (\<exists>route. ts_route_ipv6 ts = Some route \<and> re_next_sequence route \<noteq> 0))"

lemma ipv4_selection_safe: "io_safe (resolve_raw_ipv4_selection os c)"
  unfolding resolve_raw_ipv4_selection_def Let_def
  by (auto intro!: mctx_panic resolver_v4.resolve_safe)

lemma ipv6_selection_safe: "io_safe (resolve_raw_ipv6_selection os c)"
  unfolding resolve_raw_ipv6_selection_def Let_def
  by (intro io_safe_then) (auto intro!: mctx_panic resolver_v6.resolve_safe
      split: option.splits outgoing_interface.splits)

lemma route_egress_new_safe: "io_safe (route_egress_new os)"
  unfolding route_egress_new_def open_netlink_socket_def by (auto intro!: mctx_panic)

lemma route_validated_family:
  "raw_config_validate c = Ok u \<Longrightarrow> uses_route_selected_egress c \<Longrightarrow> configured_socket_family c \<noteq> None"
  by (auto simp: raw_config_validate_def uses_route_selected_egress_def validate_route_selected_egress_def
      configured_socket_family_def split: if_splits)

lemma open_raw_safe: "io_safe (open_raw_transmit_socket os c)"
  unfolding open_raw_transmit_socket_def
proof (rule io_safe_then)
  fix u w w' assume "io_res (lift_res (raw_config_validate c)) w = (Inr u, w')"
  then have v: "raw_config_validate c = Ok u" by (simp add: mctx_result)
  have o4: "io_safe (open_linux_raw_socket_v4 os c)" "io_safe (open_linux_route_selected_raw_socket_v4 os c)"
    unfolding open_linux_raw_socket_v4_def open_linux_route_selected_raw_socket_v4_def
    by (auto intro!: mctx_panic ipv4_selection_safe split: option.splits)
  have o6: "io_safe (open_linux_raw_socket_v6 os c)" "io_safe (open_linux_route_selected_raw_socket_v6 os c)"
    unfolding open_linux_raw_socket_v6_def open_linux_route_selected_raw_socket_v6_def
    by (auto intro!: mctx_panic ipv6_selection_safe route_egress_new_safe)
  show "io_safe (if uses_route_selected_egress c
      then (case configured_socket_family c of
          Some Ipv4 \<Rightarrow> open_linux_route_selected_raw_socket_v4 os c
        | Some Ipv6 \<Rightarrow> open_linux_route_selected_raw_socket_v6 os c
        | None \<Rightarrow> io_res (Err Panicked))
      else (case configured_socket_family c of
          Some Ipv4 \<Rightarrow> open_linux_raw_socket_v4 os c
        | _ \<Rightarrow> open_linux_raw_socket_v6 os c))"
    using o4 o6 route_validated_family [OF v]
    by (auto split: option.splits address_family.splits)
qed (auto intro!: mctx_panic)

lemma ipv6_selection_nonzero:
  assumes "resolve_raw_ipv6_selection os c w = (Inr sel, w')"
    and "raw_config_validate c = Ok ()" and "\<not> uses_route_selected_egress c"
  shows "s6_interface_index sel \<noteq> 0"
proof -
  have i0: "rc_outgoing_interface c \<noteq> Some (OutIpv6Index 0)"
    using explicit_validate_Ok [OF assms(2,3), of InvalidIpv6InterfaceIndex] by (simp add: explicit_defect_def)
  from assms(1) obtain ba ei w1 bi w2 where st:
      "(case rc_outgoing_interface c of
           Some (OutIpv6Index index) \<Rightarrow> io_return (Some index)
         | Some (OutIpv6Addr addr) \<Rightarrow>
             io_then (resolve_ipv6_interface_index os addr) (\<lambda>k. io_return (Some k))
         | _ \<Rightarrow> io_return None) w = (Inr ei, w1)"
      "(case ba of
           None \<Rightarrow> io_return None
         | Some bind \<Rightarrow>
             if rc_outgoing_interface c = Some (OutIpv6Addr bind)
             then io_return ei
             else io_then (resolve_ipv6_interface_index os bind) (\<lambda>k. io_return (Some k))) w1 = (Inr bi, w2)"
      "or_else ei bi = Some (s6_interface_index sel)"
    unfolding resolve_raw_ipv6_selection_def Let_def
    by (clarsimp simp only: io_then_eq_Ok io_simps prod.inject sum.inject lift_res_eq ok_or_eq) force
  have ei: "ei \<noteq> Some 0"
    using st(1) i0
    by (auto simp: mctx_result resolver_v6.resolve_not_zero split: option.splits outgoing_interface.splits)
  have "bi \<noteq> Some 0"
    using st(2) ei by (auto simp: mctx_result resolver_v6.resolve_not_zero split: option.splits if_splits)
  with ei st(3) show ?thesis by (cases ei) auto
qed

lemma open_raw_Ok:
  assumes "open_raw_transmit_socket os c w = (Inr ts, w')"
  shows "ts_ok c ts"
proof -
  from assms have v: "raw_config_validate c = Ok ()" by (auto simp: open_raw_transmit_socket_def mctx_result)
  show ?thesis
  proof (cases "uses_route_selected_egress c")
    case True
    then obtain f where f: "configured_socket_family c = Some f" using route_validated_family [OF v] by auto
    show ?thesis
      using assms True v f
      by (cases f) (auto simp: open_raw_transmit_socket_def mctx_result ts_ok_def
          open_linux_route_selected_raw_socket_v4_def open_linux_route_selected_raw_socket_v6_def
          route_egress_new_def split: if_splits)
  next
    case False
    from explicit_family [of c] explicit_validate_Ok [OF v False] obtain f where
      f: "configured_socket_family c = Some f" by blast
    show ?thesis
    proof (cases f)
      case Ipv4
      with assms False v f show ?thesis
        by (auto simp: open_raw_transmit_socket_def mctx_result ts_ok_def open_linux_raw_socket_v4_def)
    next
      case Ipv6
      with assms False v f obtain sel w1 w2 where sel: "resolve_raw_ipv6_selection os c w1 = (Inr sel, w2)"
          and ts: "ts = \<lparr>ts_socket = None, ts_packet_ipv6_socket = None, ts_route_ipv6 = None, ts_family = Ipv6,
            ts_interface_index = Some (s6_interface_index sel),
            ts_local_bind_addr = map_option V6 (s6_bind_addr sel), ts_backend = RawIpv6Explicit\<rparr>"
        by (auto simp: open_raw_transmit_socket_def mctx_result open_linux_raw_socket_v6_def split: if_splits)
      show ?thesis
        using ipv6_selection_nonzero [OF sel v False] Ipv6 v f by (simp add: ts ts_ok_def)
    qed
  qed
qed

section \<open>Sending\<close>

text \<open>A datagram that passes the checks has the family the socket was opened for.\<close>

lemma checked_family:
  assumes "validate_datagram_against_config p c = Ok ()" and "configured_socket_family c = Some f"
  shows "pr_family p = f"
  using assms
  by (auto simp: validate_datagram_against_config_def configured_socket_family_def match_iffs
      split: option.splits if_splits outgoing_interface.splits)

text \<open>The TTL a datagram leaves with: the configured one, or the one it has.\<close>

definition effective_ttl :: "raw_publication_config \<Rightarrow> parsed_raw \<Rightarrow> u8" where
  "effective_ttl c p = (case rc_ttl c of None \<Rightarrow> pr_ttl_or_hop_limit p | Some ttl \<Rightarrow> ttl)"

lemma datagram_with_ttl_Ok:
  assumes "parse_raw_ip_datagram d = Ok p" and "pr_family p = Ipv4"
  shows "\<exists>d'. datagram_with_ttl c p d = Ok d' \<and> length d' = length d \<and>
    parse_raw_ip_datagram d' = Ok (p\<lparr>pr_ttl_or_hop_limit := effective_ttl c p\<rparr>) \<and>
    (\<forall>j. j \<notin> {8, 10, 11} \<longrightarrow> d' ! j = d ! j)"
  using override_roundtrip [OF assms(1), of "the (rc_ttl c)"] assms
  by (auto simp: datagram_with_ttl_def effective_ttl_def split: option.splits)

text \<open>The link-layer address of a group on an interface.\<close>

definition group_link :: "u32 \<Rightarrow> ipv6_addr \<Rightarrow> sockaddr_ll" where
  "group_link k g = \<lparr>sll_protocol = eth_p_ipv6_be, sll_ifindex = k, sll_hatype = 1, sll_halen = 6,
     sll_addr = ipv6_multicast_mac g @ [0, 0]\<rparr>"

lemma packet_send_Ok:
  assumes "packet_send_ipv6 os s k g d w = (Inr n, w')"
  shows "os_send_ll os s d (group_link k g) w = (Inr (length d), w') \<and> n = length d"
  using assms
  by (auto simp: packet_send_ipv6_def Let_def mctx_result packet_interface_index_def group_link_def
      ipv6_multicast_mac_def eval_nat_numeral split: if_splits)

text \<open>What a successful send has done: its last call, and the report.\<close>

definition raw_sent ::
  "('w, 's) os_api \<Rightarrow> u64 \<Rightarrow> raw_publication_config \<Rightarrow> bytes \<Rightarrow> 's raw_transmit_socket \<Rightarrow> 'w \<Rightarrow>
   raw_send_report \<Rightarrow> parsed_raw \<Rightarrow> bool" where
  "raw_sent os i c d ts w' rep p \<longleftrightarrow>
     ip_is_multicast (pr_destination_ip p) \<and>
     rr_publication_id rep = i \<and> rr_family rep = ts_family ts \<and>
     rr_source_ip rep = Some (pr_source_ip p) \<and> rr_destination_ip rep = Some (pr_destination_ip p) \<and>
     (case pr_destination_ip p of
        V4 g \<Rightarrow> \<exists>s d' w1. ts_socket ts = Some s \<and>
          os_send_to os s d' (SockV4 (socket_addr_v4_new g 0)) w1 = (Inr (rr_bytes_sent rep), w') \<and>
          length d' = length d \<and>
          parse_raw_ip_datagram d' = Ok (p\<lparr>pr_ttl_or_hop_limit := effective_ttl c p\<rparr>) \<and>
          (\<forall>j. j \<notin> {8, 10, 11} \<longrightarrow> d' ! j = d ! j)
      | V6 g \<Rightarrow> \<exists>s k w1. os_send_ll os s d (group_link k g) w1 = (Inr (length d), w') \<and>
          rr_bytes_sent rep = length d \<and> rr_outgoing_interface_index rep = Some k \<and>
          effective_ttl c p = pr_ttl_or_hop_limit p)"

lemma send_v4_effect:
  assumes "parse_raw_ip_datagram d = Ok p" and "pr_family p = Ipv4" and "ts_socket ts = Some s" "ts_family ts = Ipv4"
    and "io_then (io_res (datagram_with_ttl c p d)) (send_linux_raw_ipv4_datagram os ts i c p) w = (r, w')"
  shows "no_panic r \<and> (\<forall>rep. r = Ok rep \<longrightarrow> raw_sent os i c d ts w' rep p)"
proof -
  obtain d' where d': "datagram_with_ttl c p d = Ok d'" "length d' = length d"
      "parse_raw_ip_datagram d' = Ok (p\<lparr>pr_ttl_or_hop_limit := effective_ttl c p\<rparr>)"
      "\<forall>j. j \<notin> {8, 10, 11} \<longrightarrow> d' ! j = d ! j"
    using datagram_with_ttl_Ok [OF assms(1,2)] by blast
  obtain g where g: "pr_destination_ip p = V4 g"
    using raw_parser.parse_families [OF assms(1)] assms(2) by auto
  have r: "send_linux_raw_ipv4_datagram os ts i c p d' w = (r, w')"
    using assms(5) d'(1) by simp
  then show ?thesis
    using d' g assms(2-4)
    by (cases "os_send_to os s d' (SockV4 (socket_addr_v4_new g 0)) w" rule: prod.exhaust)
      (auto simp: send_linux_raw_ipv4_datagram_def raw_sent_def make_raw_send_report_def
        raw_send_report_with_metadata_def io_then_def io_sys_def split: sum.splits if_splits raw_validation_mode.splits intro!: exI [of _ d'])
qed

lemma same_packet_socket [simp]: "\<exists>x. ts = ts\<lparr>ts_packet_ipv6_socket := x\<rparr>"
  by (rule exI [of _ "ts_packet_ipv6_socket ts"]) simp

lemma cached_packet_effect:
  assumes "cached_linux_packet_ipv6_socket os ts w = Some (r, ts', w')"
  shows "no_panic r \<and> (\<exists>x. ts' = ts\<lparr>ts_packet_ipv6_socket := x\<rparr>)"
proof -
  have "packet_open_ipv6 os k w \<noteq> (Inl Panicked, v)" for k v
    using packet_open_safe by (rule io_safeD)
  then show ?thesis
    using assms unfolding cached_linux_packet_ipv6_socket_def
    by (auto simp: no_panic_def split: option.splits prod.splits sum.splits)
qed

lemma send_packet_effect:
  assumes "send_linux_packet_ipv6_datagram os i c p d g ts w = Some (r, ts', w')"
  shows "no_panic r \<and> (\<exists>x. ts' = ts\<lparr>ts_packet_ipv6_socket := x\<rparr>) \<and>
    (\<forall>rep. r = Ok rep \<longrightarrow> (\<exists>s k w1. os_send_ll os s d (group_link k g) w1 = (Inr (length d), w') \<and>
       ts_interface_index ts = Some k \<and>
       rep = raw_send_report_with_metadata i p (length d) (rc_outgoing_interface c) (ts_local_bind_addr ts) (Some k)))"
proof (cases "ts_interface_index ts")
  case None
  then show ?thesis
    using assms by (auto simp: send_linux_packet_ipv6_datagram_def)
next
  case (Some k)
  obtain q ts1 w1 where q: "cached_linux_packet_ipv6_socket os ts w = Some (q, ts1, w1)"
    using assms Some by (auto simp: send_linux_packet_ipv6_datagram_def split: option.splits)
  note eff = cached_packet_effect [OF q]
  show ?thesis
  proof (cases q)
    case (Inl f)
    then show ?thesis using assms Some q eff by (auto simp: send_linux_packet_ipv6_datagram_def no_panic_def)
  next
    case (Inr s)
    obtain n w2 where n: "packet_send_ipv6 os s k g d w1 = (n, w2)" by force
    have "n \<noteq> Inl Panicked" using io_safeD [OF packet_send_safe] n by metis
    then show ?thesis
      using assms Some q Inr eff n
      by (cases n) (auto simp: send_linux_packet_ipv6_datagram_def make_raw_send_report_def no_panic_def
          dest!: packet_send_Ok)
  qed
qed

lemma ipv6_group_facts:
  assumes "ipv6_destination_group m c p = r"
  shows "(\<forall>g. r = Ok g \<longrightarrow> pr_destination_ip p = V6 g \<and> ipv6_is_multicast g)"
  using assms by (auto simp: ipv6_destination_group_def split: ip_addr.splits if_splits)

lemma raw_sent_v6:
  assumes "os_send_ll os s d (group_link k g) w1 = (Inr (length d), w')"
    and "pr_destination_ip p = V6 g" "ipv6_is_multicast g" "effective_ttl c p = pr_ttl_or_hop_limit p"
    and "ts_family ts = Ipv6" "pr_family p = Ipv6"
  shows "raw_sent os i c d ts w' (raw_send_report_with_metadata i p (length d) oi lb (Some k)) p"
  using assms(2-) unfolding raw_sent_def
  by (simp add: raw_send_report_with_metadata_def) (blast intro: assms(1))

lemma send_explicit_effect:
  assumes "send_linux_raw_ipv6_datagram os i c p d ts w = Some (r, ts', w')"
    and "ts_family ts = Ipv6" and "pr_family p = Ipv6"
  shows "no_panic r \<and> (\<exists>x. ts' = ts\<lparr>ts_packet_ipv6_socket := x\<rparr>) \<and>
    (\<forall>rep. r = Ok rep \<longrightarrow> raw_sent os i c d ts w' rep p)"
proof -
  have ttl: "ensure_ipv6_header_is_not_overridden c p = Ok u \<Longrightarrow> effective_ttl c p = pr_ttl_or_hop_limit p" for u
    by (auto simp: ensure_ipv6_header_is_not_overridden_def effective_ttl_def split: option.splits if_splits)
  consider (rej) e where "r = Err (Raised e)" "ts' = ts"
    | (sent) g where "pr_destination_ip p = V6 g" "ipv6_is_multicast g" "effective_ttl c p = pr_ttl_or_hop_limit p"
        "send_linux_packet_ipv6_datagram os i c p d g ts w = Some (r, ts', w')"
    using assms(1) ipv6_group_facts ttl
    by (auto simp: send_linux_raw_ipv6_datagram_def split: sum.splits)
  then show ?thesis
  proof cases
    case rej
    then show ?thesis by simp
  next
    case sent
    show ?thesis
      using send_packet_effect [OF sent(4)] sent assms(2,3)
      by (auto intro: raw_sent_v6)
  qed
qed

lemma egress_keeps_sequence:
  assumes "egress os g st w = Some (r, st', w')"
  shows "no_panic r \<and> (re_next_sequence st \<noteq> 0 \<longrightarrow> re_next_sequence st' \<noteq> 0)"
  using assms by (cases rule: egress_cases) (auto simp: max_def split: if_splits dest!: egress_fresh_effect)

lemma invalidate_keeps_sequence [simp]: "re_next_sequence (egress_invalidate k st) = re_next_sequence st"
  by (simp add: egress_invalidate_def)

lemma send_route_effect:
  assumes "send_linux_route_selected_ipv6_datagram os i c p d ts w = Some (r, ts', w')"
    and "ts_family ts = Ipv6" and "pr_family p = Ipv6" and "rc_ttl c = None"
    and "ts_route_ipv6 ts = Some st" "re_next_sequence st \<noteq> 0"
  shows "no_panic r \<and> re_next_sequence (the (ts_route_ipv6 ts')) \<noteq> 0 \<and>
    ts' = ts\<lparr>ts_route_ipv6 := Some (the (ts_route_ipv6 ts'))\<rparr> \<and>
    (\<forall>rep. r = Ok rep \<longrightarrow> raw_sent os i c d ts w' rep p)"
proof (cases "ipv6_destination_group
    ''Linux route-selected raw IPv6 transmit supports multicast destinations only'' c p")
  case (Inl e)
  have "ts = ts\<lparr>ts_route_ipv6 := Some st\<rparr>" using assms(5) by simp
  with Inl assms show ?thesis by (auto simp: send_linux_route_selected_ipv6_datagram_def)
next
  case (Inr g)
  note g = ipv6_group_facts [OF Inr]
  obtain q st1 w1 where q: "egress os g st w = Some (q, st1, w1)"
    using assms(1,5) Inr by (auto simp: send_linux_route_selected_ipv6_datagram_def split: option.splits)
  note eff = egress_keeps_sequence [OF q]
  have ttl: "effective_ttl c p = pr_ttl_or_hop_limit p" using assms(4) by (simp add: effective_ttl_def)
  show ?thesis
  proof (cases q)
    case f: (Inl f)
    then show ?thesis
      using assms q eff Inr by (auto simp: send_linux_route_selected_ipv6_datagram_def no_panic_def)
  next
    case ks: (Inr ks)
    obtain k s where k: "ks = (k, s)" by force
    obtain n w2 where n: "packet_send_ipv6 os s k g d w1 = (n, w2)" by force
    have "n \<noteq> Inl Panicked" using io_safeD [OF packet_send_safe] n by metis
    then show ?thesis
      using assms q eff Inr ks k n g ttl
      by (cases n) (auto simp: send_linux_route_selected_ipv6_datagram_def no_panic_def
          dest!: packet_send_Ok intro: raw_sent_v6)
  qed
qed

text \<open>All backends together.\<close>

lemma raw_send_outcome:
  assumes "ts_ok c ts" and "send_raw_ip_datagram os i c d ts w = Some (r, ts', w')"
  shows "no_panic r \<and> ts_ok c ts' \<and>
    (\<forall>rep. r = Ok rep \<longrightarrow> (\<exists>p. parse_raw_ip_datagram d = Ok p \<and> raw_sent os i c d ts w' rep p))"
proof (cases "and_then (parse_raw_ip_datagram d)
    (\<lambda>p. and_then (lift_res (validate_datagram_against_config p c)) (\<lambda>_. Ok p))")
  case (Inl f)
  then have "no_panic (Inl f :: mctx_error failure + raw_send_report)"
    using raw_parser.parse_safe [of d] by (auto simp: mctx_result no_panic_def)
  with Inl assms show ?thesis by (auto simp: send_raw_ip_datagram_def)
next
  case (Inr p)
  then have p: "parse_raw_ip_datagram d = Ok p" "validate_datagram_against_config p c = Ok ()"
    by (auto simp: mctx_result)
  have fam: "pr_family p = ts_family ts" using checked_family [OF p(2)] assms(1) by (auto simp: ts_ok_def)
  show ?thesis
  proof (cases "ts_backend ts")
    case RawIpv4
    then obtain s where s: "ts_socket ts = Some s" "ts_family ts = Ipv4" using assms(1) by (auto simp: ts_ok_def)
    show ?thesis
      using send_v4_effect [OF p(1) _ s(1), of c os i w r w'] assms Inr RawIpv4 s fam p(1)
      by (auto simp: send_raw_ip_datagram_def keep_ts_def split: prod.splits)
  next
    case RawIpv6Explicit
    then have s: "ts_family ts = Ipv6" using assms(1) by (auto simp: ts_ok_def)
    with send_explicit_effect [of os i c p d ts w r ts' w'] assms Inr RawIpv6Explicit fam p(1) show ?thesis
      by (auto simp: send_raw_ip_datagram_def ts_ok_def)
  next
    case RawIpv6RouteSelected
    then obtain st where s: "ts_family ts = Ipv6" "ts_route_ipv6 ts = Some st" "re_next_sequence st \<noteq> 0"
      using assms(1) by (auto simp: ts_ok_def)
    have "uses_route_selected_egress c" using assms(1) RawIpv6RouteSelected by (simp add: ts_ok_def)
    then have "rc_ttl c = None"
      using assms(1) route_validate [of c] by (auto simp: ts_ok_def route_defect_def)
    then have eff: "no_panic r" "re_next_sequence (the (ts_route_ipv6 ts')) \<noteq> 0"
        "ts' = ts\<lparr>ts_route_ipv6 := Some (the (ts_route_ipv6 ts'))\<rparr>"
        "\<forall>rep. r = Ok rep \<longrightarrow> raw_sent os i c d ts w' rep p"
      using send_route_effect [of os i c p d ts w r ts' w' st] assms(2) Inr RawIpv6RouteSelected s fam
      by (simp_all add: send_raw_ip_datagram_def)
    have "ts_ok c ts'"
      using assms(1) RawIpv6RouteSelected eff(2) by (subst eff(3)) (simp add: ts_ok_def)
    with eff p(1) show ?thesis by blast
  qed
qed

section \<open>Raw publications\<close>

definition raw_publication_ok :: "'s raw_publication \<Rightarrow> bool" where
  "raw_publication_ok p \<longleftrightarrow> ts_ok (rp_config p) (rp_socket p)"

lemma raw_publication_new_Ok:
  assumes "raw_publication_new os i c w = (Inr p, w')"
  shows "raw_publication_ok p \<and> rp_id p = i \<and> rp_config p = c"
  using assms by (auto simp: raw_publication_new_def mctx_result raw_publication_ok_def dest: open_raw_Ok)

lemma raw_publication_new_safe: "io_safe (raw_publication_new os i c)"
  unfolding raw_publication_new_def by (intro mctx_panic open_raw_safe)

lemma publication_send_outcome:
  assumes "raw_publication_ok p" and "publication_send_raw os d p w = Some (r, p', w')"
  shows "no_panic r \<and> raw_publication_ok p' \<and> rp_id p' = rp_id p \<and> rp_config p' = rp_config p \<and>
    (\<forall>rep. r = Ok rep \<longrightarrow>
       (\<exists>q. parse_raw_ip_datagram d = Ok q \<and> raw_sent os (rp_id p) (rp_config p) d (rp_socket p) w' rep q))"
  using assms raw_send_outcome [of "rp_config p" "rp_socket p" os "rp_id p" d w r]
  by (auto simp: publication_send_raw_def raw_publication_ok_def)

text \<open>
  C3. Sending a raw datagram on a publication whose socket is as opening left it, or as
  earlier sends left it, never panics and keeps the publication in that state. A successful
  send was given a well-formed datagram to a multicast destination, and its last call handed it to
  the operating system: for IPv4 with nothing changed but the TTL and the checksum, for IPv6
  unchanged and in full, on the interface the report names, to the link-layer address of the group.
\<close>

theorem raw_send_effect:
  assumes "raw_publication_ok p" and "publication_send_raw os d p w = Some (r, p', w')"
  shows "no_panic r \<and> raw_publication_ok p' \<and> rp_id p' = rp_id p \<and> rp_config p' = rp_config p \<and>
    (\<forall>rep. r = Ok rep \<longrightarrow>
       (\<exists>q. parse_raw_ip_datagram d = Ok q \<and> raw_sent os (rp_id p) (rp_config p) d (rp_socket p) w' rep q))"
  by (rule publication_send_outcome [OF assms])

definition sample_raw_config :: raw_publication_config where
  "sample_raw_config = raw_with_ttl (raw_with_interface raw_config_new (Ipv4Addr 192 0 2 1)) 9"

definition sample_raw_device :: device where
  "sample_raw_device = (device_start 1)
     \<lparr>dev_table := [(\<lparr>ifa_name = ''eth0'', ifa_addr = Some (IfInet (Ipv4Addr 192 0 2 1))\<rparr>, 2)]\<rparr>"

definition sample_raw_publication :: "nat raw_publication" where
  "sample_raw_publication = projr (fst (raw_publication_new device_os 1 sample_raw_config sample_raw_device))"

text \<open>An IPv4 publication on \<open>192.0.2.1\<close> with TTL 9 sends the sample datagram.\<close>

theorem raw_send_effect_witness:
  "raw_publication_ok sample_raw_publication \<and>
   (\<exists>rep w'. publication_send_raw device_os sample_datagram sample_raw_publication (device_start 1) =
       Some (Ok rep, sample_raw_publication, w') \<and> rr_bytes_sent rep = 21 \<and>
     (\<exists>q. parse_raw_ip_datagram sample_datagram = Ok q \<and>
       raw_sent device_os 1 sample_raw_config sample_datagram (rp_socket sample_raw_publication) w' rep q))"
proof -
  have new: "raw_publication_new device_os 1 sample_raw_config sample_raw_device =
      (Inr sample_raw_publication, snd (raw_publication_new device_os 1 sample_raw_config sample_raw_device))"
    by code_simp
  note ok = raw_publication_new_Ok [OF new]
  have "case publication_send_raw device_os sample_datagram sample_raw_publication (device_start 1) of
      None \<Rightarrow> False | Some (r, p', w') \<Rightarrow> p' = sample_raw_publication \<and> is_ok r \<and> rr_bytes_sent (projr r) = 21"
    by code_simp
  then obtain r p' w' where run: "publication_send_raw device_os sample_datagram sample_raw_publication (device_start 1) =
      Some (r, p', w')" "p' = sample_raw_publication" "is_ok r" "rr_bytes_sent (projr r) = 21"
    by (auto split: option.splits)
  then obtain rep where "r = Ok rep" by (cases r) auto
  with raw_send_effect [OF _ run(1)] run ok show ?thesis by auto
qed

text \<open>
  C21. Sending a raw datagram returns, with a report or an error, whenever the number of
  receives on the netlink sockets that deliver data or are interrupted is bounded: no answer
  of the kernel to the route lookup keeps the parsers or the loops around them going forever.
\<close>

theorem raw_send_returns:
  assumes "bounded_input os \<mu>"
  shows "\<exists>r p' w'. publication_send_raw os d p w = Some (r, p', w')"
proof -
  have packet: "\<exists>y. send_linux_packet_ipv6_datagram os i c q d g ts v = Some y" for i c q d g ts v
    by (auto simp: send_linux_packet_ipv6_datagram_def cached_linux_packet_ipv6_socket_def
        split: option.splits prod.splits sum.splits)
  have explicit: "\<exists>y. send_linux_raw_ipv6_datagram os i c q d ts v = Some y" for i c q d ts v
    using packet by (auto simp: send_linux_raw_ipv6_datagram_def split: sum.splits)
  have route: "\<exists>y. send_linux_route_selected_ipv6_datagram os i c q d ts v = Some y" for i c q d ts v
  proof -
    have ne: "egress os g st u \<noteq> None" for g st u using egress_returns [OF assms, of g st u] by auto
    show ?thesis
      by (auto simp: send_linux_route_selected_ipv6_datagram_def simp del: not_None_eq
          split: sum.splits option.splits prod.splits dest: notE [OF ne])
  qed
  have "\<exists>y. send_raw_ip_datagram os i c d ts v = Some y" for i c d ts v
    using explicit route
    by (auto simp: send_raw_ip_datagram_def keep_ts_def split: sum.splits linux_backend.splits prod.splits)
  then show ?thesis
    unfolding publication_send_raw_def by (metis (mono_tags, lifting) case_prod_conv option.simps(9) prod.exhaust)
qed

theorem raw_send_returns_witness:
  "bounded_input device_os (\<lambda>w. length (dev_inbox w)) \<and>
   (\<exists>r p' w'. publication_send_raw device_os sample_datagram sample_raw_publication sample_raw_device = Some (r, p', w'))"
  using device_bounded raw_send_returns [OF device_bounded] by blast

end
