(* ===== verification/Raw_Context.thy ===== *)
theory Raw_Context
  imports Publication_Table Raw_Linux_Facts
begin

text \<open>
  The owner of raw multicast publications (\<open>src/raw/context.rs\<close>): adding, replacing, taking and
  sending. A send changes the transmit socket of one publication behind a mutex, so it returns
  the context with that publication as the send left it, or nothing when the send does not return.
\<close>

section \<open>Operations\<close>

type_synonym 's raw_context = "'s raw_publication publication_table"

definition raw_context_new :: "'s raw_context" where
  "raw_context_new = table_new"

definition raw_publication_count :: "'s raw_context \<Rightarrow> nat" where
  "raw_publication_count = table_count"

definition raw_contains_publication :: "'s raw_context \<Rightarrow> u64 \<Rightarrow> bool" where
  "raw_contains_publication ctx i \<longleftrightarrow> pt_indices ctx i \<noteq> None"

definition raw_get_publication :: "'s raw_context \<Rightarrow> u64 \<Rightarrow> 's raw_publication option" where
  "raw_get_publication = table_get"

text \<open>What a caller does through the reference \<open>get_publication_mut\<close> hands out: an update of the one found.\<close>

definition raw_get_publication_mut ::
  "('s raw_publication \<Rightarrow> 's raw_publication) \<Rightarrow> 's raw_context \<Rightarrow> u64 \<Rightarrow> 's raw_context option" where
  "raw_get_publication_mut f ctx i =
     (case pt_indices ctx i of
        None \<Rightarrow> None
      | Some k \<Rightarrow>
          if k < length (pt_publications ctx)
          then Some (ctx\<lparr>pt_publications := (pt_publications ctx)[k := f (pt_publications ctx ! k)]\<rparr>)
          else None)"

definition raw_ensure_unique :: "'s raw_context \<Rightarrow> raw_publication_config \<Rightarrow> u64 option \<Rightarrow> mctx_error + unit" where
  "raw_ensure_unique ctx c excluded =
     (if list_ex (\<lambda>p. Some (rp_id p) \<noteq> excluded \<and> rp_config p = c) (pt_publications ctx)
      then Err DuplicatePublication else Ok ())"

definition raw_add_publication ::
  "('w, 's) os_api \<Rightarrow> raw_publication_config \<Rightarrow> 's raw_context \<Rightarrow> 'w \<Rightarrow>
   (mctx_error failure + u64) \<times> 's raw_context \<times> 'w" where
  "raw_add_publication os c ctx w =
     (case raw_ensure_unique ctx c None of
        Inl e \<Rightarrow> (Err (Raised e), ctx, w)
      | Inr _ \<Rightarrow>
          let i = pt_next_id ctx; ctx1 = table_bump ctx in
          (case raw_publication_new os i c w of
             (Inl f, w') \<Rightarrow> (Err f, ctx1, w')
           | (Inr p, w') \<Rightarrow> (Ok i, table_push i p ctx1, w')))"

definition raw_replace_publication ::
  "('w, 's) os_api \<Rightarrow> u64 \<Rightarrow> raw_publication_config \<Rightarrow> 's raw_context \<Rightarrow> 'w \<Rightarrow>
   (mctx_error failure + unit) \<times> 's raw_context \<times> 'w" where
  "raw_replace_publication os i c ctx w =
     (case pt_indices ctx i of
        None \<Rightarrow> (Err (Raised PublicationNotFound), ctx, w)
      | Some index \<Rightarrow>
          (case raw_ensure_unique ctx c (Some i) of
             Inl e \<Rightarrow> (Err (Raised e), ctx, w)
           | Inr _ \<Rightarrow>
               (case raw_publication_new os i c w of
                  (Inl f, w') \<Rightarrow> (Err f, ctx, w')
                | (Inr replacement, w') \<Rightarrow>
                    (case table_put index replacement ctx of
                       Inl f \<Rightarrow> (Err f, ctx, w')
                     | Inr ctx' \<Rightarrow> (Ok (), ctx', w')))))"

definition raw_take_publication ::
  "u64 \<Rightarrow> 's raw_context \<Rightarrow> mctx_error failure + 's raw_publication option \<times> 's raw_context" where
  "raw_take_publication = table_take rp_id"

definition raw_remove_publication :: "u64 \<Rightarrow> 's raw_context \<Rightarrow> mctx_error failure + bool \<times> 's raw_context" where
  "raw_remove_publication i ctx =
     and_then (raw_take_publication i ctx) (\<lambda>(p, ctx'). Ok (p \<noteq> None, ctx'))"

definition raw_send ::
  "('w, 's) os_api \<Rightarrow> u64 \<Rightarrow> bytes \<Rightarrow> 's raw_context \<Rightarrow> 'w \<Rightarrow>
   ((mctx_error failure + raw_send_report) \<times> 's raw_context \<times> 'w) option" where
  "raw_send os i ip_datagram ctx w =
     (case raw_get_publication ctx i of
        None \<Rightarrow> Some (Err (Raised PublicationNotFound), ctx, w)
      | Some p \<Rightarrow>
          map_option (\<lambda>(r, p', w'). (r, table_store i p' ctx, w')) (publication_send_raw os ip_datagram p w))"

section \<open>The registry interface\<close>

definition raw_insert :: "'s raw_publication \<Rightarrow> 's raw_context \<Rightarrow> 's raw_context" where
  "raw_insert p ctx = table_push (rp_id p) p (table_bump ctx)"

interpretation raw_registry: publication_registry "table_ok rp_id" pt_next_id raw_get_publication raw_insert
  table_bump raw_take_publication raw_publication_count rp_id
proof unfold_locales
  fix ctx :: "'s raw_context" and p :: "'s raw_publication"
  assume "table_ok rp_id ctx" "rp_id p = pt_next_id ctx" "pt_next_id ctx \<noteq> - 1"
  then show "table_ok rp_id (raw_insert p ctx) \<and>
      raw_get_publication (raw_insert p ctx) = (raw_get_publication ctx)(pt_next_id ctx \<mapsto> p) \<and>
      pt_next_id (raw_insert p ctx) = pt_next_id ctx + 1"
    unfolding raw_insert_def raw_get_publication_def by (rule table_push_Ok)
next
  fix ctx :: "'s raw_context"
  assume "table_ok rp_id ctx" "pt_next_id ctx \<noteq> - 1"
  then show "table_ok rp_id (table_bump ctx) \<and> raw_get_publication (table_bump ctx) = raw_get_publication ctx \<and>
      pt_next_id (table_bump ctx) = pt_next_id ctx + 1"
    unfolding raw_get_publication_def by (rule table_bump_Ok)
next
  fix ctx :: "'s raw_context" and i
  assume "table_ok rp_id ctx"
  then show "\<exists>ctx'. raw_take_publication i ctx = Inr (raw_get_publication ctx i, ctx') \<and> table_ok rp_id ctx' \<and>
     raw_get_publication ctx' = (raw_get_publication ctx)(i := None) \<and> pt_next_id ctx' = pt_next_id ctx"
    unfolding raw_take_publication_def raw_get_publication_def by (rule table_take_Ok)
next
  fix ctx :: "'s raw_context" and i p
  assume "table_ok rp_id ctx" "raw_get_publication ctx i = Some p"
  then show "rp_id p = i \<and> i < pt_next_id ctx"
    using table_get_Some [of rp_id ctx i p] by (simp add: raw_get_publication_def)
next
  fix ctx :: "'s raw_context"
  assume "table_ok rp_id ctx"
  then show "finite (dom (raw_get_publication ctx)) \<and> raw_publication_count ctx = card (dom (raw_get_publication ctx))"
    unfolding raw_get_publication_def raw_publication_count_def by (rule table_card)
qed

section \<open>The invariant\<close>

text \<open>
  Identifiers and positions agree, every publication is as opening or a send left it, and no
  two publications have the same configuration.
\<close>

definition raw_context_ok :: "'s raw_context \<Rightarrow> bool" where
  "raw_context_ok ctx \<longleftrightarrow> table_ok rp_id ctx \<and>
     (\<forall>i p. raw_get_publication ctx i = Some p \<longrightarrow> raw_publication_ok p) \<and>
     (\<forall>i j p q. raw_get_publication ctx i = Some p \<and> raw_get_publication ctx j = Some q \<and>
        rp_config p = rp_config q \<longrightarrow> i = j)"

lemma raw_context_ok_new: "raw_context_ok raw_context_new"
  by (simp add: raw_context_ok_def raw_context_new_def raw_get_publication_def)

lemma raw_unique_Ok:
  assumes "table_ok rp_id ctx" and "raw_ensure_unique ctx c ex = Ok u"
    and "raw_get_publication ctx i = Some p" and "Some i \<noteq> ex"
  shows "rp_config p \<noteq> c"
proof -
  have "rp_id p = i" "p \<in> set (pt_publications ctx)"
    using table_get_Some [of rp_id ctx i p] assms(1,3) by (simp_all add: raw_get_publication_def)
  with assms(2,4) show ?thesis by (auto simp: raw_ensure_unique_def list_ex_iff split: if_splits)
qed

text \<open>Storing one good publication whose configuration is new keeps the invariant.\<close>

lemma raw_context_ok_upd:
  assumes "raw_context_ok ctx" and "table_ok rp_id ctx'"
    and "raw_get_publication ctx' = (raw_get_publication ctx)(i \<mapsto> p)" and "raw_publication_ok p"
    and "\<And>j q. raw_get_publication ctx j = Some q \<Longrightarrow> j \<noteq> i \<Longrightarrow> rp_config q \<noteq> rp_config p"
  shows "raw_context_ok ctx'"
  unfolding raw_context_ok_def assms(3)
proof (intro conjI allI impI assms(2))
  fix j q assume "((raw_get_publication ctx)(i \<mapsto> p)) j = Some q"
  then show "raw_publication_ok q" using assms(1,4) by (auto simp: raw_context_ok_def split: if_splits)
next
  fix j k q r
  assume "((raw_get_publication ctx)(i \<mapsto> p)) j = Some q \<and> ((raw_get_publication ctx)(i \<mapsto> p)) k = Some r \<and>
    rp_config q = rp_config r"
  then show "j = k"
    using assms(1) assms(5) [of j q] assms(5) [of k r] by (auto simp: raw_context_ok_def split: if_splits)
qed

lemma raw_add_effect:
  assumes "raw_context_ok ctx" and "pt_next_id ctx \<noteq> - 1" and "raw_add_publication os c ctx w = (r, ctx', w')"
  shows "no_panic r \<and> raw_context_ok ctx' \<and>
    (case r of
       Inl _ \<Rightarrow> raw_get_publication ctx' = raw_get_publication ctx \<and>
         pt_next_id ctx' \<in> {pt_next_id ctx, pt_next_id ctx + 1}
     | Inr i \<Rightarrow> i = pt_next_id ctx \<and> pt_next_id ctx' = pt_next_id ctx + 1 \<and>
         (\<exists>p. raw_get_publication ctx' = (raw_get_publication ctx)(i \<mapsto> p) \<and> rp_id p = i \<and> rp_config p = c))"
proof -
  have ok: "table_ok rp_id ctx" using assms(1) by (simp add: raw_context_ok_def)
  note bump = table_bump_Ok [OF ok assms(2)]
  have bumped: "raw_context_ok (table_bump ctx)"
    using assms(1) bump by (simp add: raw_context_ok_def raw_get_publication_def)
  show ?thesis
  proof (cases "raw_ensure_unique ctx c None")
    case (Inl e)
    then show ?thesis using assms by (auto simp: raw_add_publication_def)
  next
    case (Inr u)
    obtain q w1 where q: "raw_publication_new os (pt_next_id ctx) c w = (q, w1)" by force
    show ?thesis
    proof (cases q)
      case f: (Inl f)
      then have "f \<noteq> Panicked" using io_safeD [OF raw_publication_new_safe] q by metis
      then show ?thesis
        using assms(3) Inr q f bump bumped
        by (auto simp: raw_add_publication_def Let_def raw_get_publication_def no_panic_def)
    next
      case p: (Inr p)
      have new: "raw_publication_ok p" "rp_id p = pt_next_id ctx" "rp_config p = c"
        using raw_publication_new_Ok q p by metis+
      note push = table_push_Ok [OF ok new(2) assms(2)]
      have "raw_context_ok (table_push (pt_next_id ctx) p (table_bump ctx))"
        using raw_context_ok_upd [OF assms(1), of "table_push (pt_next_id ctx) p (table_bump ctx)" "pt_next_id ctx" p]
          push new raw_unique_Ok [OF ok Inr] by (simp add: raw_get_publication_def)
      then show ?thesis
        using assms(3) Inr q p push new
        by (auto simp: raw_add_publication_def Let_def raw_get_publication_def no_panic_def)
    qed
  qed
qed

lemma raw_replace_outcome:
  assumes "raw_context_ok ctx" and "raw_replace_publication os i c ctx w = (r, ctx', w')"
  shows "no_panic r \<and> raw_context_ok ctx' \<and> pt_next_id ctx' = pt_next_id ctx \<and>
    (case r of
       Inl _ \<Rightarrow> ctx' = ctx
     | Inr _ \<Rightarrow> raw_get_publication ctx i \<noteq> None \<and> raw_publication_count ctx' = raw_publication_count ctx \<and>
         (\<exists>p. raw_get_publication ctx' = (raw_get_publication ctx)(i \<mapsto> p) \<and> rp_id p = i \<and> rp_config p = c))"
proof -
  have ok: "table_ok rp_id ctx" using assms(1) by (simp add: raw_context_ok_def)
  show ?thesis
  proof (cases "\<exists>k u. pt_indices ctx i = Some k \<and> raw_ensure_unique ctx c (Some i) = Ok u")
    case False
    then show ?thesis
      using assms by (auto simp: raw_replace_publication_def split: option.splits sum.splits)
  next
    case True
    then obtain k u where k: "pt_indices ctx i = Some k" and u: "raw_ensure_unique ctx c (Some i) = Ok u" by blast
    obtain q w1 where q: "raw_publication_new os i c w = (q, w1)" by force
    show ?thesis
    proof (cases q)
      case f: (Inl f)
      then have "f \<noteq> Panicked" using io_safeD [OF raw_publication_new_safe] q by metis
      then show ?thesis
        using assms k u q f by (auto simp: raw_replace_publication_def no_panic_def)
    next
      case p: (Inr p)
      have new: "raw_publication_ok p" "rp_id p = i" "rp_config p = c"
        using raw_publication_new_Ok q p by metis+
      from table_put_Ok [OF ok k new(2)] obtain t where t: "table_put k p ctx = Ok t" "table_ok rp_id t"
          "raw_get_publication t = (raw_get_publication ctx)(i \<mapsto> p)" "pt_next_id t = pt_next_id ctx"
          "raw_publication_count t = raw_publication_count ctx"
        by (auto simp: raw_get_publication_def raw_publication_count_def)
      have "raw_context_ok t"
        using raw_context_ok_upd [OF assms(1) t(2,3) new(1)] raw_unique_Ok [OF ok u] new(3) by auto
      moreover have "k < length (pt_publications ctx)" using ok k by (simp add: table_ok_def)
      then have "raw_get_publication ctx i \<noteq> None" using k by (simp add: raw_get_publication_def table_get_def)
      ultimately show ?thesis
        using assms(2) k u q p t new by (auto simp: raw_replace_publication_def no_panic_def)
    qed
  qed
qed

lemma raw_take_effect:
  assumes "raw_context_ok ctx"
  shows "\<exists>ctx'. raw_take_publication i ctx = Ok (raw_get_publication ctx i, ctx') \<and> raw_context_ok ctx' \<and>
    raw_get_publication ctx' = (raw_get_publication ctx)(i := None) \<and> pt_next_id ctx' = pt_next_id ctx"
proof -
  have ok: "table_ok rp_id ctx" using assms by (simp add: raw_context_ok_def)
  from raw_registry.tak_law [OF ok, of i] obtain ctx' where
    t: "raw_take_publication i ctx = Ok (raw_get_publication ctx i, ctx')" "table_ok rp_id ctx'"
      "raw_get_publication ctx' = (raw_get_publication ctx)(i := None)" "pt_next_id ctx' = pt_next_id ctx" by blast
  then have "raw_context_ok ctx'"
    using assms unfolding raw_context_ok_def by (auto split: if_splits)
  with t show ?thesis by blast
qed

lemma raw_send_context_effect:
  assumes "raw_context_ok ctx" and "raw_send os i d ctx w = Some (r, ctx', w')"
  shows "no_panic r \<and> raw_context_ok ctx' \<and> pt_next_id ctx' = pt_next_id ctx \<and>
    dom (raw_get_publication ctx') = dom (raw_get_publication ctx)"
proof (cases "raw_get_publication ctx i")
  case None
  then show ?thesis using assms by (auto simp: raw_send_def)
next
  case (Some p)
  have ok: "table_ok rp_id ctx" "raw_publication_ok p" and pid: "rp_id p = i"
    using assms(1) Some raw_registry.lkp_law [of ctx i p] by (auto simp: raw_context_ok_def)
  obtain p' where p': "publication_send_raw os d p w = Some (r, p', w')" "ctx' = table_store i p' ctx"
    using assms(2) Some by (auto simp: raw_send_def)
  note out = publication_send_outcome [OF ok(2) p'(1)]
  have st: "table_ok rp_id ctx'" "raw_get_publication ctx' = (raw_get_publication ctx)(i \<mapsto> p')"
      "pt_next_id ctx' = pt_next_id ctx"
    using table_store_Ok [OF ok(1), of i p p'] Some out pid by (auto simp: p'(2) raw_get_publication_def)
  have "raw_context_ok ctx'"
    by (rule raw_context_ok_upd [OF assms(1) st(1,2)])
      (use out assms(1) Some in \<open>auto simp: raw_context_ok_def\<close>)
  with out st Some show ?thesis by auto
qed

section \<open>Properties\<close>

text \<open>
  C15. Replacing a raw publication is transactional: a failure of any kind leaves the context exactly
  as it was; a success changes nothing but the publication stored under the identifier, which
  keeps its identifier and has the new configuration. The number of publications and the
  next identifier stay the same, and no call panics.
\<close>

theorem raw_replace_transactional:
  assumes "raw_context_ok ctx" and "raw_replace_publication os i c ctx w = (r, ctx', w')"
  shows "no_panic r \<and> raw_context_ok ctx' \<and> pt_next_id ctx' = pt_next_id ctx \<and>
    (case r of
       Inl _ \<Rightarrow> ctx' = ctx
     | Inr _ \<Rightarrow> raw_get_publication ctx i \<noteq> None \<and> raw_publication_count ctx' = raw_publication_count ctx \<and>
         (\<exists>p. raw_get_publication ctx' = (raw_get_publication ctx)(i \<mapsto> p) \<and> rp_id p = i \<and> rp_config p = c))"
  by (rule raw_replace_outcome [OF assms])

definition sample_raw_context :: "nat raw_context" where
  "sample_raw_context = fst (snd (raw_add_publication device_os sample_raw_config raw_context_new sample_raw_device))"

text \<open>A replacement that fails validation leaves the context with its publication as it was.\<close>

theorem raw_replace_transactional_witness:
  "raw_context_ok sample_raw_context \<and>
   (\<exists>e w'. raw_replace_publication device_os 1 raw_config_ipv4 sample_raw_context sample_raw_device =
      (Err (Raised e), sample_raw_context, w')) \<and> raw_publication_count sample_raw_context = 1"
proof -
  obtain r w' where add: "raw_add_publication device_os sample_raw_config raw_context_new sample_raw_device =
      (r, sample_raw_context, w')" by (metis prod.collapse sample_raw_context_def)
  have ok: "raw_context_ok sample_raw_context"
    using raw_add_effect [OF raw_context_ok_new _ add] by (simp add: raw_context_new_def table_new_def)
  obtain q t v where run: "raw_replace_publication device_os 1 raw_config_ipv4 sample_raw_context sample_raw_device = (q, t, v)"
    by (metis prod.collapse)
  have "q = fst (raw_replace_publication device_os 1 raw_config_ipv4 sample_raw_context sample_raw_device)"
    by (simp add: run)
  also have "\<dots> = Err (Raised RawInterfaceRequired)" by code_simp
  finally have "q = Err (Raised RawInterfaceRequired)" .
  moreover have "raw_publication_count sample_raw_context = 1" by code_simp
  ultimately show ?thesis using raw_replace_transactional [OF ok run] ok run by auto
qed

text \<open>The contexts reachable through the public operations, with any behaviour of the system.\<close>

inductive raw_context_run :: "('w, 's) os_api \<Rightarrow> 's raw_context \<Rightarrow> bool" for os where
  run_new: "raw_context_run os raw_context_new"
| run_add: "raw_context_run os ctx \<Longrightarrow> pt_next_id ctx \<noteq> - 1 \<Longrightarrow>
    raw_add_publication os c ctx w = (r, ctx', w') \<Longrightarrow> raw_context_run os ctx'"
| run_replace: "raw_context_run os ctx \<Longrightarrow> raw_replace_publication os i c ctx w = (r, ctx', w') \<Longrightarrow>
    raw_context_run os ctx'"
| run_take: "raw_context_run os ctx \<Longrightarrow> raw_take_publication i ctx = Ok (p, ctx') \<Longrightarrow> raw_context_run os ctx'"
| run_remove: "raw_context_run os ctx \<Longrightarrow> raw_remove_publication i ctx = Ok (b, ctx') \<Longrightarrow> raw_context_run os ctx'"
| run_send: "raw_context_run os ctx \<Longrightarrow> raw_send os i d ctx w = Some (r, ctx', w') \<Longrightarrow> raw_context_run os ctx'"

lemma raw_run_ok:
  assumes "raw_context_run os ctx"
  shows "raw_context_ok ctx"
  using assms
proof induction
  case run_new
  show ?case by (rule raw_context_ok_new)
next
  case (run_take ctx i p ctx')
  with raw_take_effect [of ctx i] show ?case by auto
next
  case (run_remove ctx i b ctx')
  with raw_take_effect [of ctx i] show ?case by (auto simp: raw_remove_publication_def)
qed (blast dest: raw_add_effect raw_replace_outcome raw_send_context_effect)+

text \<open>
  C5. In every raw context reachable through the public operations, as long as no publication is stored
  through the reference of \<open>get_publication_mut\<close>, the index map holds exactly the
  positions of the stored identifiers, all below the next one, no two publications have the same
  configuration, and every transmit socket is one its configuration allows; taking a publication
  there never panics and returns the one stored, and neither adding, replacing nor sending panics.
\<close>

theorem raw_context_run_invariant:
  assumes "raw_context_run os ctx"
  shows "raw_context_ok ctx \<and>
    (\<exists>ctx'. raw_take_publication i ctx = Ok (raw_get_publication ctx i, ctx') \<and>
       raw_get_publication ctx' = (raw_get_publication ctx)(i := None)) \<and>
    (pt_next_id ctx \<noteq> - 1 \<longrightarrow> no_panic (fst (raw_add_publication os c ctx w))) \<and>
    no_panic (fst (raw_replace_publication os i c ctx w)) \<and>
    (\<forall>r ctx' w'. raw_send os i d ctx w = Some (r, ctx', w') \<longrightarrow> no_panic r)"
proof -
  note ok = raw_run_ok [OF assms]
  obtain a b where add: "raw_add_publication os c ctx w = (a, b)" by (rule prod.exhaust)
  obtain a' b' where rep: "raw_replace_publication os i c ctx w = (a', b')" by (rule prod.exhaust)
  show ?thesis
    using ok raw_take_effect [OF ok, of i] raw_add_effect [OF ok, of os c w a "fst b" "snd b"] add
      raw_replace_outcome [OF ok, of os i c w a' "fst b'" "snd b'"] rep raw_send_context_effect [OF ok, of os i d w]
    by auto
qed

theorem raw_context_run_invariant_witness:
  "raw_context_run device_os sample_raw_context \<and> raw_context_ok sample_raw_context \<and>
   (\<exists>ctx'. raw_take_publication 1 sample_raw_context = Ok (raw_get_publication sample_raw_context 1, ctx'))"
proof -
  obtain r w' where add: "raw_add_publication device_os sample_raw_config raw_context_new sample_raw_device =
      (r, sample_raw_context, w')" by (metis prod.collapse sample_raw_context_def)
  have run: "raw_context_run device_os sample_raw_context"
    by (rule run_add [OF run_new _ add]) (simp add: raw_context_new_def table_new_def)
  with raw_context_run_invariant [OF run, of 1 sample_raw_config sample_raw_device "[]"] show ?thesis by blast
qed

text \<open>
  A raw context refines a finite map: any sequence of insertions, failed insertions and
  removals runs without a panic and acts like the same operations on the map from identifiers to
  publications, in spite of the swap that moves another publication on every removal.
\<close>

theorem raw_context_refines_map:
  assumes "table_ok rp_id ctx" and "unat (pt_next_id ctx) + length cmds < 2 ^ 64"
    and "\<forall>f n. Insert f \<in> set cmds \<longrightarrow> rp_id (f n) = n"
  shows "\<exists>ctx'. run_cmds pt_next_id raw_insert table_bump raw_take_publication cmds ctx = Inr ctx' \<and>
     table_ok rp_id ctx' \<and> raw_publication_count ctx' = card (dom (raw_get_publication ctx')) \<and>
     (raw_get_publication ctx', pt_next_id ctx') = fold abs_cmd cmds (raw_get_publication ctx, pt_next_id ctx)"
  using raw_registry.run_refines [OF assms] raw_registry.cnt_law by blast

definition numbered_raw_publication :: "u64 \<Rightarrow> nat raw_publication" where
  "numbered_raw_publication i = sample_raw_publication\<lparr>rp_id := i\<rparr>"

theorem raw_context_refines_map_witness:
  "table_ok rp_id (raw_context_new :: nat raw_context) \<and>
   (\<exists>ctx'. run_cmds pt_next_id raw_insert table_bump raw_take_publication
       [Insert numbered_raw_publication, Insert numbered_raw_publication, Skip, Insert numbered_raw_publication, Take 1]
       raw_context_new = Inr ctx' \<and>
     raw_get_publication ctx' = [2 \<mapsto> numbered_raw_publication 2, 4 \<mapsto> numbered_raw_publication 4] \<and> pt_next_id ctx' = 5)"
proof -
  let ?cmds = "[Insert numbered_raw_publication, Insert numbered_raw_publication, Skip,
    Insert numbered_raw_publication, Take 1]"
  have new: "table_ok rp_id (raw_context_new :: nat raw_context)"
      "raw_get_publication (raw_context_new :: nat raw_context) = Map.empty"
    by (simp_all add: raw_context_new_def raw_get_publication_def)
  have "pt_next_id (raw_context_new :: nat raw_context) = 1" by (simp add: raw_context_new_def table_new_def)
  with raw_context_refines_map [of "raw_context_new :: nat raw_context" ?cmds] new show ?thesis
    by (auto simp: numbered_raw_publication_def fun_eq_iff)
qed

text \<open>A publication has no field a caller can assign: an update that keeps it keeps the context.\<close>

lemma raw_get_publication_mut_same:
  assumes "raw_get_publication_mut (\<lambda>p. p) ctx i = Some ctx'"
  shows "ctx' = ctx"
  using assms by (auto simp: raw_get_publication_mut_def split: option.splits if_splits)

text \<open>
  C25. The mutable reference \<open>get_publication_mut\<close> hands out is outside the contract of a raw context.
  \<open>RawPublication::new\<close> is public, so a caller can store a publication with an identifier of
  its own choice through the reference, and the index map does not follow. When that is done to the
  last publication of a consistent context, removing an earlier one succeeds, files the stored publication
  under its own identifier, and removing the overwritten identifier then panics.
\<close>

theorem raw_overwritten_publication_panics:
  assumes "table_ok rp_id ctx" and "pt_indices ctx i = Some k"
    and "pt_indices ctx j = Some (length (pt_publications ctx) - 1)" and "i \<noteq> j" and "rp_id q \<noteq> j"
  shows "\<exists>ctx1 ctx2. raw_get_publication_mut (\<lambda>_. q) ctx j = Some ctx1 \<and>
    raw_take_publication i ctx1 = Ok (raw_get_publication ctx i, ctx2) \<and> raw_take_publication j ctx2 = Err Panicked"
proof -
  let ?ps = "pt_publications ctx"
  let ?z = "length ?ps - 1"
  let ?ctx1 = "ctx\<lparr>pt_publications := ?ps[?z := q]\<rparr>"
  let ?rest = "butlast (?ps[?z := q, k := q])"
  let ?ctx2 = "ctx\<lparr>pt_publications := ?rest, pt_indices := ((pt_indices ctx)(i := None))(rp_id q \<mapsto> k)\<rparr>"
  have "k < length ?ps" "rp_id (?ps ! k) = i" "?z < length ?ps" "rp_id (?ps ! ?z) = j"
    using assms(1-3) by (simp_all add: table_ok_def)
  then have k: "k < ?z" "?z < length ?ps" using assms(4) by (metis Suc_pred' less_SucE length_pos_if_in_set nth_mem)+
  then have last: "last (?ps[?z := q]) = q" by (subst last_conv_nth) auto
  have moved: "?rest ! k = q" using k by (simp add: nth_butlast)
  have "raw_get_publication_mut (\<lambda>_. q) ctx j = Some ?ctx1"
    using assms(3) k by (simp add: raw_get_publication_mut_def)
  moreover have "raw_take_publication i ?ctx1 = Ok (raw_get_publication ctx i, ?ctx2)"
    using assms(2) k last moved
    by (simp add: raw_take_publication_def table_take_def swap_remove_def raw_get_publication_def table_get_def)
  moreover have "raw_take_publication j ?ctx2 = Err Panicked"
    using assms(3-5) by (simp add: raw_take_publication_def table_take_def swap_remove_def)
  ultimately show ?thesis by blast
qed

text \<open>Two publications, the second overwritten by one that calls itself 7.\<close>

definition sample_raw_pair :: "nat raw_context" where
  "sample_raw_pair = fst (snd (raw_add_publication device_os (raw_with_ttl sample_raw_config 3) sample_raw_context sample_raw_device))"

theorem raw_overwritten_publication_panics_witness:
  "raw_context_run device_os sample_raw_pair \<and>
   (\<exists>q ctx1 ctx2. fst (raw_publication_new device_os 7 sample_raw_config sample_raw_device) = Ok q \<and>
      raw_get_publication_mut (\<lambda>_. q) sample_raw_pair 2 = Some ctx1 \<and>
      raw_take_publication 1 ctx1 = Ok (raw_get_publication sample_raw_pair 1, ctx2) \<and>
      raw_take_publication 2 ctx2 = Err Panicked)"
proof -
  obtain r w' where add: "raw_add_publication device_os sample_raw_config raw_context_new sample_raw_device =
      (r, sample_raw_context, w')" by (metis prod.collapse sample_raw_context_def)
  obtain r2 w2 where add2: "raw_add_publication device_os (raw_with_ttl sample_raw_config 3) sample_raw_context sample_raw_device =
      (r2, sample_raw_pair, w2)" by (metis prod.collapse sample_raw_pair_def)
  have "raw_context_run device_os sample_raw_context"
    by (rule run_add [OF run_new _ add]) (simp add: raw_context_new_def table_new_def)
  moreover have "pt_next_id sample_raw_context \<noteq> - 1" by code_simp
  ultimately have run: "raw_context_run device_os sample_raw_pair" using add2 by (rule run_add)
  then have ok: "table_ok rp_id sample_raw_pair" using raw_run_ok by (auto simp: raw_context_ok_def)
  have "pt_indices sample_raw_pair 1 = Some 0" by code_simp
  moreover have "pt_indices sample_raw_pair 2 = Some (length (pt_publications sample_raw_pair) - 1)" by code_simp
  moreover have "(case fst (raw_publication_new device_os 7 sample_raw_config sample_raw_device) of Inl _ \<Rightarrow> False | Inr q \<Rightarrow> rp_id q = 7)"
    by code_simp
  then obtain q where "fst (raw_publication_new device_os 7 sample_raw_config sample_raw_device) = Ok q" "rp_id q = 7"
    by (auto split: sum.splits)
  ultimately show ?thesis
    using raw_overwritten_publication_panics [OF ok, of 1 0 2 q] run by auto
qed

end
