(* ===== verification/Socket_Cache.thy ===== *)
theory Socket_Cache
  imports Mctx_Error "HOL-Library.AList"
begin

text \<open>
  The bounded cache of sockets (\<open>src/socket_cache.rs\<close>): a hash map, here an association list
  with distinct keys, and the order of insertion. At capacity the oldest entry is evicted. The cache
  is shown to refine a first-in first-out list of at most 16 entries.
\<close>

section \<open>The code\<close>

definition CAPACITY :: nat where "CAPACITY = 16"

record ('k, 's) socket_cache =
  sc_sockets :: "('k \<times> 's) list"
  sc_insertion_order :: "'k list"

definition cache_default :: "('k, 's) socket_cache" where
  "cache_default = \<lparr>sc_sockets = [], sc_insertion_order = []\<rparr>"

definition cache_len :: "('k, 's) socket_cache \<Rightarrow> nat" where
  "cache_len c = length (sc_sockets c)"

definition cache_lookup :: "('k, 's) socket_cache \<Rightarrow> 'k \<Rightarrow> 's option" where
  "cache_lookup c k = map_of (sc_sockets c) k"

definition cache_evict :: "('k, 's) socket_cache \<Rightarrow> ('k, 's) socket_cache" where
  "cache_evict c =
     (if length (sc_sockets c) = CAPACITY then
        (case sc_insertion_order c of
           [] \<Rightarrow> c
         | evicted # rest \<Rightarrow> \<lparr>sc_sockets = AList.delete evicted (sc_sockets c), sc_insertion_order = rest\<rparr>)
      else c)"

definition get_or_try_insert_with ::
  "'k \<Rightarrow> ('w \<Rightarrow> (mctx_error failure + 's) \<times> 'w) \<Rightarrow> ('k, 's) socket_cache \<Rightarrow> 'w \<Rightarrow>
   (mctx_error failure + 's) \<times> ('k, 's) socket_cache \<times> 'w" where
  "get_or_try_insert_with key create c w =
     (case cache_lookup c key of
        Some socket \<Rightarrow> (Ok socket, c, w)
      | None \<Rightarrow>
          (case create w of
             (Inl e, w') \<Rightarrow> (Err e, c, w')
           | (Inr socket, w') \<Rightarrow>
               let c1 = cache_evict c in
               (Ok socket,
                \<lparr>sc_sockets = AList.update key socket (sc_sockets c1),
                 sc_insertion_order = sc_insertion_order c1 @ [key]\<rparr>, w')))"

section \<open>Invariant and abstraction\<close>

definition cache_ok :: "('k, 's) socket_cache \<Rightarrow> bool" where
  "cache_ok c \<longleftrightarrow> distinct (map fst (sc_sockets c)) \<and> distinct (sc_insertion_order c) \<and>
     set (sc_insertion_order c) = fst ` set (sc_sockets c) \<and> length (sc_sockets c) \<le> CAPACITY"

text \<open>The entries in the order in which they were inserted.\<close>

definition cache_entries :: "('k, 's) socket_cache \<Rightarrow> ('k \<times> 's) list" where
  "cache_entries c = map (\<lambda>k. (k, the (cache_lookup c k))) (sc_insertion_order c)"

definition fifo_insert :: "'k \<Rightarrow> 's \<Rightarrow> ('k \<times> 's) list \<Rightarrow> ('k \<times> 's) list" where
  "fifo_insert k s xs = (if length xs = CAPACITY then tl xs else xs) @ [(k, s)]"

lemma cache_ok_default [simp]: "cache_ok cache_default" "cache_entries cache_default = []"
  by (simp_all add: cache_ok_def cache_default_def cache_entries_def)

lemma cache_ok_length:
  assumes "cache_ok c"
  shows "length (sc_insertion_order c) = length (sc_sockets c)"
proof -
  have "card (set (sc_insertion_order c)) = card (set (map fst (sc_sockets c)))"
    using assms by (simp add: cache_ok_def)
  with assms show ?thesis
    unfolding cache_ok_def by (metis distinct_card length_map)
qed

lemma cache_ok_dom: "cache_ok c \<Longrightarrow> set (sc_insertion_order c) = dom (cache_lookup c)"
  by (simp add: cache_ok_def cache_lookup_def [abs_def] dom_map_of_conv_image_fst)

lemma entries_lookup:
  assumes "cache_ok c"
  shows "map_of (cache_entries c) k = cache_lookup c k"
proof (cases "k \<in> set (sc_insertion_order c)")
  case True
  then obtain s where "cache_lookup c k = Some s" using cache_ok_dom [OF assms] by auto
  with True show ?thesis by (simp add: cache_entries_def map_of_map_restrict)
next
  case False
  then have "cache_lookup c k = None" using cache_ok_dom [OF assms] by auto
  with False show ?thesis by (simp add: cache_entries_def map_of_map_restrict)
qed

lemma cache_evict_ok:
  assumes ok: "cache_ok c"
  shows "cache_ok (cache_evict c)" and "length (sc_sockets (cache_evict c)) < CAPACITY"
    and "cache_entries (cache_evict c) = (if length (cache_entries c) = CAPACITY then tl (cache_entries c) else cache_entries c)"
    and "cache_lookup c k = None \<Longrightarrow> cache_lookup (cache_evict c) k = None"
proof -
  note len = cache_ok_length [OF ok]
  have all: "cache_ok (cache_evict c) \<and> length (sc_sockets (cache_evict c)) < CAPACITY \<and>
      cache_entries (cache_evict c) = (if length (cache_entries c) = CAPACITY then tl (cache_entries c) else cache_entries c) \<and>
      (cache_lookup c k = None \<longrightarrow> cache_lookup (cache_evict c) k = None)"
  proof (cases "length (sc_sockets c) = CAPACITY")
    case False
    with ok have "length (sc_sockets c) < CAPACITY" by (simp add: cache_ok_def)
    with False ok len show ?thesis by (simp add: cache_evict_def cache_entries_def)
  next
    case True
    with len obtain e rest where order: "sc_insertion_order c = e # rest"
      by (cases "sc_insertion_order c") (auto simp: CAPACITY_def)
    define d where "d = \<lparr>sc_sockets = AList.delete e (sc_sockets c), sc_insertion_order = rest\<rparr>"
    have evict: "cache_evict c = d" by (simp add: cache_evict_def True order d_def)
    have keys: "fst ` set (sc_sockets d) = fst ` set (sc_sockets c) - {e}"
      using arg_cong [OF delete_keys [of e "sc_sockets c"], of set] by (simp add: d_def)
    have dist: "distinct (map fst (sc_sockets d))"
      using ok by (simp add: d_def cache_ok_def distinct_delete)
    have rest: "distinct rest" "e \<notin> set rest" "set rest = fst ` set (sc_sockets c) - {e}"
      using ok by (auto simp: cache_ok_def order)
    have lk: "cache_lookup d j = (if j = e then None else cache_lookup c j)" for j
      by (simp add: cache_lookup_def d_def delete_conv')
    have "length (sc_sockets d) = length rest"
      using distinct_card [OF dist] distinct_card [OF rest(1)] keys rest(3) by simp
    then have "length (sc_sockets d) < CAPACITY" using len True order by simp
    moreover from this have "cache_ok d" using dist keys rest by (simp add: cache_ok_def) (simp add: d_def)
    moreover have "cache_entries d = tl (cache_entries c)"
      using rest(2) lk by (auto simp: cache_entries_def order d_def)
    ultimately show ?thesis using len True by (simp add: evict lk cache_entries_def)
  qed
  then show "cache_ok (cache_evict c)" "length (sc_sockets (cache_evict c)) < CAPACITY"
    "cache_entries (cache_evict c) = (if length (cache_entries c) = CAPACITY then tl (cache_entries c) else cache_entries c)"
    "cache_lookup c k = None \<Longrightarrow> cache_lookup (cache_evict c) k = None" by simp_all
qed

lemma cache_insert_ok:
  assumes ok: "cache_ok c" and new: "cache_lookup c key = None"
    and d: "d = \<lparr>sc_sockets = AList.update key s (sc_sockets (cache_evict c)),
                 sc_insertion_order = sc_insertion_order (cache_evict c) @ [key]\<rparr>"
  shows "cache_ok d \<and> cache_entries d = fifo_insert key s (cache_entries c)"
proof -
  let ?e = "cache_evict c"
  note ev = cache_evict_ok(1,2) [OF ok] cache_evict_ok(4) [OF ok new] cache_evict_ok(3) [OF ok]
  have fresh: "key \<notin> fst ` set (sc_sockets ?e)"
    using ev(3) by (simp add: cache_lookup_def map_of_eq_None_iff)
  have lk: "cache_lookup d k = (if k = key then Some s else cache_lookup ?e k)" for k
    by (simp add: cache_lookup_def d update_conv')
  have keys: "fst ` set (sc_sockets d) = insert key (fst ` set (sc_sockets ?e))"
    by (simp add: d dom_update)
  have order: "sc_insertion_order d = sc_insertion_order ?e @ [key]" "key \<notin> set (sc_insertion_order ?e)"
    using fresh ev(1) by (simp_all add: d cache_ok_def)
  have dist: "distinct (map fst (sc_sockets d))"
    using ev(1) by (simp add: d cache_ok_def distinct_update)
  have "length (sc_sockets d) = Suc (length (sc_sockets ?e))"
    using distinct_card [OF dist] keys fresh ev(1) by (simp add: cache_ok_def) (metis distinct_card length_map set_map)
  then have "cache_ok d" using dist keys order ev(1,2) by (simp add: cache_ok_def)
  moreover have "cache_entries d = cache_entries ?e @ [(key, s)]"
    using order by (auto simp: cache_entries_def lk)
  ultimately show ?thesis using ev(4) by (simp add: fifo_insert_def)
qed

section \<open>The interface offered to the senders\<close>

text \<open>
  A pool of sockets by key. A sender relies on three laws: a hit returns the pooled socket and
  changes nothing, a failed creation changes nothing, and after a successful creation
  the new socket is pooled under its key and no other socket was added. Whatever
  holds of each pooled socket and its key is then kept by every request.
\<close>

locale socket_pool =
  fixes ok :: "'c \<Rightarrow> bool"
    and pooled :: "'c \<Rightarrow> 'k \<Rightarrow> 's option"
    and request :: "'k \<Rightarrow> ('w \<Rightarrow> (mctx_error failure + 's) \<times> 'w) \<Rightarrow> 'c \<Rightarrow> 'w \<Rightarrow> (mctx_error failure + 's) \<times> 'c \<times> 'w"
  assumes hit: "ok c \<Longrightarrow> pooled c k = Some s \<Longrightarrow> request k create c w = (Ok s, c, w)"
    and miss_Err: "ok c \<Longrightarrow> pooled c k = None \<Longrightarrow> create w = (Err f, w') \<Longrightarrow> request k create c w = (Err f, c, w')"
    and miss_Ok: "ok c \<Longrightarrow> pooled c k = None \<Longrightarrow> create w = (Ok s, w') \<Longrightarrow>
      \<exists>c'. request k create c w = (Ok s, c', w') \<and> ok c' \<and> pooled c' \<subseteq>\<^sub>m (pooled c)(k \<mapsto> s)"
begin

definition pool_all :: "('k \<Rightarrow> 's \<Rightarrow> bool) \<Rightarrow> 'c \<Rightarrow> bool" where
  "pool_all P c \<longleftrightarrow> ok c \<and> (\<forall>k s. pooled c k = Some s \<longrightarrow> P k s)"

lemma request_outcome:
  assumes "pool_all P c" and "\<And>w w' s. create w = (Ok s, w') \<Longrightarrow> P k s"
    and "request k create c w = (r, c', w')"
  shows "pool_all P c' \<and> (\<forall>s. r = Ok s \<longrightarrow> P k s) \<and>
    (\<forall>f. r = Err f \<longrightarrow> c' = c \<and> create w = (Err f, w'))"
proof (cases "pooled c k")
  case (Some s)
  with hit [of c k s create w] assms show ?thesis by (auto simp: pool_all_def)
next
  case None
  have ok: "ok c" using assms(1) by (simp add: pool_all_def)
  obtain q w1 where q: "create w = (q, w1)" by (rule prod.exhaust)
  show ?thesis
  proof (cases q)
    case (Inl f)
    with miss_Err [OF ok None] q assms show ?thesis by auto
  next
    case (Inr s)
    with miss_Ok [OF ok None] q obtain c1 where c1: "request k create c w = (Ok s, c1, w1)" "ok c1"
        "pooled c1 \<subseteq>\<^sub>m (pooled c)(k \<mapsto> s)" by blast
    have "P j t" if "pooled c1 j = Some t" for j t
    proof -
      have "((pooled c)(k \<mapsto> s)) j = Some t" using c1(3) that by (metis domI map_le_def)
      then show ?thesis using assms(1,2) q Inr by (auto simp: pool_all_def split: if_splits)
    qed
    with c1 assms(2,3) q Inr show ?thesis by (auto simp: pool_all_def)
  qed
qed

end

lemma cache_evict_lookup: "cache_ok c \<Longrightarrow> cache_lookup (cache_evict c) \<subseteq>\<^sub>m cache_lookup c"
  by (auto simp: cache_evict_def cache_lookup_def delete_conv' map_le_def split: list.splits if_splits)

interpretation cache_pool: socket_pool cache_ok cache_lookup get_or_try_insert_with
proof unfold_locales
  fix c :: "('k, 's) socket_cache" and k s w w' and create :: "'w \<Rightarrow> (mctx_error failure + 's) \<times> 'w"
  assume c: "cache_ok c" "cache_lookup c k = None" "create w = (Ok s, w')"
  define d where "d = \<lparr>sc_sockets = AList.update k s (sc_sockets (cache_evict c)),
    sc_insertion_order = sc_insertion_order (cache_evict c) @ [k]\<rparr>"
  have "get_or_try_insert_with k create c w = (Ok s, d, w')"
    using c by (simp add: get_or_try_insert_with_def Let_def d_def)
  moreover have "cache_ok d" using cache_insert_ok [OF c(1,2) d_def] by blast
  moreover have "cache_lookup d = (cache_lookup (cache_evict c))(k \<mapsto> s)"
    by (auto simp: d_def cache_lookup_def update_conv')
  ultimately show "\<exists>c'. get_or_try_insert_with k create c w = (Ok s, c', w') \<and> cache_ok c' \<and>
      cache_lookup c' \<subseteq>\<^sub>m (cache_lookup c)(k \<mapsto> s)"
    using map_le_upd [OF cache_evict_lookup [OF c(1)]] by auto
qed (simp_all add: get_or_try_insert_with_def)

section \<open>The cache as a first-in first-out list\<close>

text \<open>
  C24. The cache behaves as a first-in first-out list of at most 16 sockets: a lookup that
  hits returns the cached socket without creating one and changes nothing; a miss whose
  creation fails changes nothing; a successful miss appends the new entry and
  drops the oldest one exactly when the cache was full. The invariant is kept.
\<close>

theorem cache_refines_fifo:
  assumes "cache_ok c" and "get_or_try_insert_with key create c w = (r, c', w')"
  shows "cache_ok c' \<and> cache_len c' \<le> 16 \<and>
    (case map_of (cache_entries c) key of
       Some s \<Rightarrow> r = Ok s \<and> c' = c \<and> w' = w
     | None \<Rightarrow>
         (case create w of
            (Inl e, w1) \<Rightarrow> r = Err e \<and> c' = c \<and> w' = w1
          | (Inr s, w1) \<Rightarrow> r = Ok s \<and> w' = w1 \<and> cache_entries c' = fifo_insert key s (cache_entries c)))"
proof (cases "cache_lookup c key")
  case (Some s)
  with assms show ?thesis
    by (auto simp: get_or_try_insert_with_def entries_lookup cache_ok_def cache_len_def CAPACITY_def)
next
  case None
  obtain q w1 where q: "create w = (q, w1)" by force
  show ?thesis
  proof (cases q)
    case (Inl e)
    with assms None q show ?thesis
      by (auto simp: get_or_try_insert_with_def entries_lookup cache_ok_def cache_len_def CAPACITY_def)
  next
    case (Inr s)
    with assms(2) None q have c': "c' = \<lparr>sc_sockets = AList.update key s (sc_sockets (cache_evict c)),
        sc_insertion_order = sc_insertion_order (cache_evict c) @ [key]\<rparr>" "r = Ok s" "w' = w1"
      by (auto simp: get_or_try_insert_with_def Let_def)
    note ins = cache_insert_ok [OF assms(1) None c'(1)]
    then have "cache_len c' \<le> 16" by (simp add: cache_ok_def cache_len_def CAPACITY_def)
    with ins c' None q Inr show ?thesis by (simp add: entries_lookup [OF assms(1)])
  qed
qed

theorem cache_refines_fifo_witness:
  "cache_ok (cache_default :: (nat, nat) socket_cache) \<and>
   (\<exists>c'. get_or_try_insert_with 17 (\<lambda>w. (Ok w, Suc w)) (cache_default :: (nat, nat) socket_cache) 5 = (Ok 5, c', 6) \<and>
      cache_entries c' = [(17, 5)])"
proof -
  obtain r c' w' where run:
    "get_or_try_insert_with 17 (\<lambda>w. (Ok w, Suc w)) (cache_default :: (nat, nat) socket_cache) 5 = (r, c', w')"
    by (metis prod_cases3)
  from cache_refines_fifo [OF cache_ok_default(1) run] run show ?thesis
    by (simp add: fifo_insert_def CAPACITY_def)
qed

end
