(* ===== verification/Raw_Ip.thy ===== *)
theory Raw_Ip
  imports Raw_Config Raw_Datagram_Facts Socket_Cache Interface_Resolve
begin

text \<open>
  Generic raw-IP publications (\<open>src/raw_ip/platform.rs\<close> and \<open>src/raw_ip/publication.rs\<close>) on Linux
  and macOS: resolving the selectors to one interface, opening sockets pinned to it, the
  cache of sockets by protocol, and sending complete datagrams. A send changes the cache behind a
  mutex, so it returns the transmit socket as it leaves it. Vectored sends hand the
  concatenation of their buffers to the system as one datagram.
\<close>

section \<open>State\<close>

record raw_ip_selection =
  is_family :: address_family
  is_bind_addr :: "ip_addr option"
  is_interface_addr :: "ip_addr option"
  is_interface_index :: u32

record raw_ipv6_key =
  rk_protocol :: u8
  rk_hop_limit :: u8
  rk_traffic_class :: u8

datatype 's protocol_socket_cache =
    NoCache
  | CacheIpv4 "(u8, 's) socket_cache"
  | CacheIpv6 "(raw_ipv6_key, 's) socket_cache"

record 's raw_ip_transmit_socket =
  it_family :: address_family
  it_selection :: raw_ip_selection
  it_ipv4_socket :: "'s option"
  it_protocol_sockets :: "'s protocol_socket_cache"

record raw_ip_send_report =
  ir_publication_id :: u64
  ir_family :: address_family
  ir_source_ip :: ip_addr
  ir_destination_ip :: ip_addr
  ir_ip_protocol :: u8
  ir_bytes_sent :: nat
  ir_local_bind_addr :: "ip_addr option"
  ir_interface_addr :: "ip_addr option"
  ir_interface_index :: u32

fun protocol_cache_len :: "'s protocol_socket_cache \<Rightarrow> nat" where
  "protocol_cache_len NoCache = 0"
| "protocol_cache_len (CacheIpv4 cache) = cache_len cache"
| "protocol_cache_len (CacheIpv6 cache) = cache_len cache"

section \<open>Selecting the interface\<close>

fun resolve_interface_index :: "('w, 's) os_api \<Rightarrow> ip_addr \<Rightarrow> ('w, mctx_error, u32) io" where
  "resolve_interface_index os (V4 addr) = resolve_ipv4_interface_index os addr"
| "resolve_interface_index os (V6 addr) = resolve_ipv6_interface_index os addr"

text \<open>The loop over the selectors that are present.\<close>

fun resolve_selectors ::
  "('w, 's) os_api \<Rightarrow> address_family \<Rightarrow> ip_addr list \<Rightarrow> u32 option \<Rightarrow> ('w, mctx_error, u32 option) io" where
  "resolve_selectors os family [] resolved_index = io_return resolved_index"
| "resolve_selectors os family (selector # selectors) resolved_index =
     (if \<not> family_matches_ip family selector then io_raise OutgoingInterfaceFamilyMismatch
      else io_then (resolve_interface_index os selector) (\<lambda>candidate.
        case resolved_index of
          Some existing \<Rightarrow>
            if existing \<noteq> candidate
            then io_raise (InterfaceDiscoveryFailed
              (''raw-IP selectors resolve to different interface indices {existing} and {candidate}'',
               [FNum (uint existing), FNum (uint candidate)]))
            else resolve_selectors os family selectors (Some candidate)
        | None \<Rightarrow> resolve_selectors os family selectors (Some candidate)))"

definition resolve_selection :: "('w, 's) os_api \<Rightarrow> raw_ip_socket_config \<Rightarrow> ('w, mctx_error, raw_ip_selection) io" where
  "resolve_selection os c =
     io_then (io_res (lift_res (resolved_family c))) (\<lambda>family.
     io_then (resolve_selectors os family
       (List.map_filter id [ri_bind_addr c, ri_interface_addr c]) (ri_interface_index c)) (\<lambda>resolved_index.
     io_then (io_res (lift_res (ok_or RawInterfaceRequired resolved_index))) (\<lambda>interface_index.
     io_return \<lparr>is_family = family, is_bind_addr = ri_bind_addr c, is_interface_addr = ri_interface_addr c,
                is_interface_index = interface_index\<rparr>)))"

definition require_unix_ipv6_bind_addr :: "raw_ip_selection \<Rightarrow> mctx_error + unit" where
  "require_unix_ipv6_bind_addr sel =
     (if is_family sel = Ipv6 \<and> (case is_bind_addr sel of Some (V6 _) \<Rightarrow> False | _ \<Rightarrow> True)
      then Err (unsupported
        ''raw IPv6 transmit requires a concrete local bind address so the kernel cannot select a different source'')
      else Ok ())"

section \<open>Opening sockets\<close>

definition bind_unix_socket_to_interface_v4 :: "('w, 's) os_api \<Rightarrow> 's \<Rightarrow> u32 \<Rightarrow> ('w, mctx_error, unit) io" where
  "bind_unix_socket_to_interface_v4 os s index =
     (if index = 0 then io_raise RawInterfaceRequired else sock_opt os s (BindDeviceByIndexV4 index))"

definition bind_unix_socket_to_interface_v6 :: "('w, 's) os_api \<Rightarrow> 's \<Rightarrow> u32 \<Rightarrow> ('w, mctx_error, unit) io" where
  "bind_unix_socket_to_interface_v6 os s index =
     (if index = 0 then io_raise RawInterfaceRequired else sock_opt os s (BindDeviceByIndexV6 index))"

definition open_unix_raw_socket ::
  "('w, 's) os_api \<Rightarrow> raw_ip_selection \<Rightarrow> i32 \<Rightarrow> ('w, mctx_error, 's) io" where
  "open_unix_raw_socket os sel protocol =
     io_then (io_sys RawSocketCreateFailed
       (os_socket os (case is_family sel of Ipv4 \<Rightarrow> DomainIpv4 | Ipv6 \<Rightarrow> DomainIpv6) TypeRaw protocol)) (\<lambda>s.
     io_then (sock_opt os s (SetNonblocking True)) (\<lambda>_.
     io_then (case is_family sel of
         Ipv4 \<Rightarrow>
           io_then (sock_opt os s (SetHeaderIncludedV4 True)) (\<lambda>_.
           io_then (case is_bind_addr sel of
               Some (V4 bind_addr) \<Rightarrow> io_sys RawSocketBindFailed
                 (os_call os s (Bind (SockV4 (socket_addr_v4_new bind_addr 0))))
             | _ \<Rightarrow> io_return ()) (\<lambda>_.
           bind_unix_socket_to_interface_v4 os s (is_interface_index sel)))
       | Ipv6 \<Rightarrow>
           io_then (case is_bind_addr sel of
               Some (V6 bind_addr) \<Rightarrow>
                 (let scope_id = (if ipv6_is_unicast_link_local bind_addr then 1 else 0) * is_interface_index sel in
                  io_sys RawSocketBindFailed
                    (os_call os s (Bind (SockV6 (socket_addr_v6_new bind_addr 0 0 scope_id)))))
             | _ \<Rightarrow> io_return ()) (\<lambda>_.
           bind_unix_socket_to_interface_v6 os s (is_interface_index sel))) (\<lambda>_.
     io_return s)))"

definition open_raw_ip_socket_linux ::
  "('w, 's) os_api \<Rightarrow> raw_ip_socket_config \<Rightarrow> ('w, mctx_error, 's raw_ip_transmit_socket) io" where
  "open_raw_ip_socket_linux os c =
     io_then (resolve_selection os c) (\<lambda>sel.
     io_then (io_res (lift_res (require_unix_ipv6_bind_addr sel))) (\<lambda>_.
     io_then (open_unix_raw_socket os sel ipproto_raw) (\<lambda>s.
     case is_family sel of
       Ipv4 \<Rightarrow> io_return \<lparr>it_family = is_family sel, it_selection = sel, it_ipv4_socket = Some s,
                          it_protocol_sockets = NoCache\<rparr>
     | Ipv6 \<Rightarrow> io_return \<lparr>it_family = is_family sel, it_selection = sel, it_ipv4_socket = None,
                          it_protocol_sockets = CacheIpv6 cache_default\<rparr>)))"

definition open_raw_ip_socket_macos ::
  "('w, 's) os_api \<Rightarrow> raw_ip_socket_config \<Rightarrow> ('w, mctx_error, 's raw_ip_transmit_socket) io" where
  "open_raw_ip_socket_macos os c =
     io_then (resolve_selection os c) (\<lambda>sel.
     io_then (io_res (lift_res (require_unix_ipv6_bind_addr sel))) (\<lambda>_.
     io_then (open_unix_raw_socket os sel ipproto_raw) (\<lambda>probe.
     io_return \<lparr>it_family = is_family sel, it_selection = sel, it_ipv4_socket = None,
                it_protocol_sockets = (case is_family sel of
                  Ipv4 \<Rightarrow> CacheIpv4 cache_default | Ipv6 \<Rightarrow> CacheIpv6 cache_default)\<rparr>)))"

section \<open>Sending\<close>

definition parse_for_socket ::
  "'s raw_ip_transmit_socket \<Rightarrow> bytes \<Rightarrow> mctx_error failure + parsed_raw_ip" where
  "parse_for_socket it d =
     and_then (parse_complete_ip_datagram d) (\<lambda>parsed.
     if pi_family parsed \<noteq> it_family it then Err (Raised InvalidRawIpDatagram) else Ok parsed)"

definition ipv4_destination :: "parsed_raw_ip \<Rightarrow> mctx_error + socket_addr_v4" where
  "ipv4_destination parsed =
     (case pi_destination_ip parsed of
        V4 destination \<Rightarrow> Ok (socket_addr_v4_new destination 0)
      | V6 _ \<Rightarrow> Err InvalidRawIpDatagram)"

definition raw_ip_destination_scope_id :: "ipv6_addr \<Rightarrow> u32 \<Rightarrow> u32" where
  "raw_ip_destination_scope_id destination interface_index =
     (if ipv6_is_unicast_link_local destination then interface_index
      else (case ipv6_multicast_scope destination of
              Some InterfaceLocal \<Rightarrow> interface_index
            | Some LinkLocal \<Rightarrow> interface_index
            | _ \<Rightarrow> 0))"

definition ensure_full_send :: "nat \<Rightarrow> nat \<Rightarrow> string \<Rightarrow> mctx_error + unit" where
  "ensure_full_send bytes_sent expected transport =
     (if bytes_sent \<noteq> expected
      then Err (RawSendFailed (io_error_new WriteZero
        (''partial {transport} send: wrote {bytes_sent} of {expected} bytes'',
         [FStr transport, FNum (int bytes_sent), FNum (int expected)])))
      else Ok ())"

definition make_raw_ip_send_report ::
  "'s raw_ip_transmit_socket \<Rightarrow> u64 \<Rightarrow> parsed_raw_ip \<Rightarrow> nat \<Rightarrow> raw_ip_send_report" where
  "make_raw_ip_send_report it publication_id parsed bytes_sent =
     \<lparr>ir_publication_id = publication_id, ir_family = pi_family parsed, ir_source_ip = pi_source_ip parsed,
      ir_destination_ip = pi_destination_ip parsed, ir_ip_protocol = pi_protocol parsed,
      ir_bytes_sent = bytes_sent, ir_local_bind_addr = is_bind_addr (it_selection it),
      ir_interface_addr = is_interface_addr (it_selection it),
      ir_interface_index = is_interface_index (it_selection it)\<rparr>"

definition validate_unix_ipv6_source :: "raw_ip_selection \<Rightarrow> parsed_raw_ip \<Rightarrow> mctx_error + ipv6_addr" where
  "validate_unix_ipv6_source sel parsed =
     (case is_bind_addr sel of
        Some (V6 configured_bind_addr) \<Rightarrow>
          (case (pi_source_ip parsed, pi_destination_ip parsed) of
             (V6 source_ip, V6 destination_ip) \<Rightarrow>
               if source_ip \<noteq> configured_bind_addr
               then Err (RawDatagramSourceMismatch (V6 source_ip) (V6 configured_bind_addr))
               else Ok destination_ip
           | _ \<Rightarrow> Err InvalidRawIpDatagram)
      | _ \<Rightarrow> Err (unsupported
          ''raw IPv6 transmit requires a concrete local bind address so the kernel cannot select a different source''))"

text \<open>
  The lookups in the cache of protocol sockets. A cache of the wrong kind is the
  \<open>unreachable!\<close> of the source.
\<close>

definition cached_ipv4_protocol_socket ::
  "u8 \<Rightarrow> ('w, mctx_error, 's) io \<Rightarrow> 's raw_ip_transmit_socket \<Rightarrow> 'w \<Rightarrow>
   (mctx_error failure + 's) \<times> 's raw_ip_transmit_socket \<times> 'w" where
  "cached_ipv4_protocol_socket protocol create it w =
     (case it_protocol_sockets it of
        CacheIpv4 cache \<Rightarrow>
          (case get_or_try_insert_with protocol create cache w of (r, cache', w') \<Rightarrow>
             (r, it\<lparr>it_protocol_sockets := CacheIpv4 cache'\<rparr>, w'))
      | _ \<Rightarrow> (Err Panicked, it, w))"

definition cached_ipv6_protocol_socket ::
  "raw_ipv6_key \<Rightarrow> ('w, mctx_error, 's) io \<Rightarrow> 's raw_ip_transmit_socket \<Rightarrow> 'w \<Rightarrow>
   (mctx_error failure + 's) \<times> 's raw_ip_transmit_socket \<times> 'w" where
  "cached_ipv6_protocol_socket key create it w =
     (case it_protocol_sockets it of
        CacheIpv6 cache \<Rightarrow>
          (case get_or_try_insert_with key create cache w of (r, cache', w') \<Rightarrow>
             (r, it\<lparr>it_protocol_sockets := CacheIpv6 cache'\<rparr>, w'))
      | _ \<Rightarrow> (Err Panicked, it, w))"

text \<open>The socket a key stands for: its protocol, hop limit and traffic class.\<close>

definition open_ipv6_protocol_socket ::
  "('w, 's) os_api \<Rightarrow> raw_ip_selection \<Rightarrow> raw_ipv6_key \<Rightarrow> ('w, mctx_error, 's) io" where
  "open_ipv6_protocol_socket os sel key =
     io_then (open_unix_raw_socket os sel (ucast (rk_protocol key))) (\<lambda>s.
     io_then (sock_opt os s (SetUnicastHopsV6 (ucast (rk_hop_limit key)))) (\<lambda>_.
     io_then (sock_opt os s (SetTclassV6 (ucast (rk_traffic_class key)))) (\<lambda>_.
     io_return s)))"

type_synonym ('w, 's, 'a) it_op =
  "'s raw_ip_transmit_socket \<Rightarrow> 'w \<Rightarrow> (mctx_error failure + 'a) \<times> 's raw_ip_transmit_socket \<times> 'w"

text \<open>Steps of a send that leave the transmit socket as it is, and their sequence.\<close>

definition it_lift :: "('w, mctx_error, 'a) io \<Rightarrow> ('w, 's, 'a) it_op" where
  "it_lift m it w = (case m w of (r, w') \<Rightarrow> (r, it, w'))"

definition it_then :: "('w, 's, 'a) it_op \<Rightarrow> ('a \<Rightarrow> ('w, 's, 'b) it_op) \<Rightarrow> ('w, 's, 'b) it_op" where
  "it_then m f it w =
     (case m it w of (Inl e, it', w') \<Rightarrow> (Inl e, it', w') | (Inr x, it', w') \<Rightarrow> f x it' w')"

definition send_unix_raw_ipv6_datagram ::
  "('w, 's) os_api \<Rightarrow> u64 \<Rightarrow> parsed_raw_ip \<Rightarrow> bytes \<Rightarrow> ('w, 's, raw_ip_send_report) it_op" where
  "send_unix_raw_ipv6_datagram os i parsed d it =
     it_then (it_lift (io_res (lift_res (validate_unix_ipv6_source (it_selection it) parsed)))) (\<lambda>destination_ip.
     it_then (it_lift (io_res (if pi_header_len parsed \<le> length d then Ok (drop (pi_header_len parsed) d)
                               else Err (Raised InvalidRawIpDatagram)))) (\<lambda>payload.
     let destination = socket_addr_v6_new destination_ip 0 0
           (raw_ip_destination_scope_id destination_ip (is_interface_index (it_selection it)));
         cache_key = \<lparr>rk_protocol = pi_protocol parsed, rk_hop_limit = pi_ttl_or_hop_limit parsed,
                      rk_traffic_class = pi_traffic_class parsed\<rparr> in
     it_then (cached_ipv6_protocol_socket cache_key (open_ipv6_protocol_socket os (it_selection it) cache_key)) (\<lambda>s.
     it_lift (
       io_then (io_sys RawSendFailed (os_send_to os s payload (SockV6 destination))) (\<lambda>bytes_sent.
       io_then (io_res (lift_res (ensure_full_send bytes_sent (length payload) ''raw IPv6 payload''))) (\<lambda>_.
       io_return (make_raw_ip_send_report it i parsed (length d)))))))) it"

definition send_ip_datagram_linux ::
  "('w, 's) os_api \<Rightarrow> u64 \<Rightarrow> bytes \<Rightarrow> ('w, 's, raw_ip_send_report) it_op" where
  "send_ip_datagram_linux os i d it =
     it_then (it_lift (io_res (parse_for_socket it d))) (\<lambda>parsed.
     case pi_family parsed of
       Ipv4 \<Rightarrow> it_lift (
         io_then (io_res (lift_res (ipv4_destination parsed))) (\<lambda>destination.
         case it_ipv4_socket it of
           None \<Rightarrow> io_res (Err Panicked)
         | Some s \<Rightarrow>
             io_then (io_sys RawSendFailed (os_send_to os s d (SockV4 destination))) (\<lambda>bytes_sent.
             io_then (io_res (lift_res (ensure_full_send bytes_sent (length d) ''raw IPv4''))) (\<lambda>_.
             io_return (make_raw_ip_send_report it i parsed bytes_sent)))))
     | Ipv6 \<Rightarrow> send_unix_raw_ipv6_datagram os i parsed d) it"

text \<open>
  Darwin wants the total length and the fragment offset of an IPv4 header in host byte order;
  \<open>to_ne_bytes\<close> is the one of a little-endian host. The buffer has 60 bytes.
\<close>

definition prepare_macos_ipv4_header :: "bytes \<Rightarrow> parsed_raw_ip \<Rightarrow> mctx_error failure + bytes \<times> nat" where
  "prepare_macos_ipv4_header d parsed =
     slice d 0 (pi_header_len parsed) (\<lambda>src.
     slice (replicate 60 (0 :: u8)) 0 (pi_header_len parsed) (\<lambda>_.
     let header = src @ replicate (60 - pi_header_len parsed) 0 in
     idx header 2 (\<lambda>l0. idx header 3 (\<lambda>l1.
     idx header 6 (\<lambda>f0. idx header 7 (\<lambda>f1.
     Ok (header[2 := l1, 3 := l0, 6 := f1, 7 := f0, 10 := 0, 11 := 0], pi_header_len parsed)))))))"

definition send_macos_raw_ipv4_datagram_ip ::
  "('w, 's) os_api \<Rightarrow> u64 \<Rightarrow> parsed_raw_ip \<Rightarrow> bytes \<Rightarrow> ('w, 's, raw_ip_send_report) it_op" where
  "send_macos_raw_ipv4_datagram_ip os i parsed d it =
     it_then (it_lift (io_res (lift_res (ipv4_destination parsed)))) (\<lambda>destination.
     it_then (it_lift (io_res (prepare_macos_ipv4_header d parsed))) (\<lambda>(header, header_len).
     it_then (cached_ipv4_protocol_socket (pi_protocol parsed)
       (open_unix_raw_socket os (it_selection it) (ucast (pi_protocol parsed)))) (\<lambda>s.
     it_lift (
       io_then (io_res (slice header 0 header_len (\<lambda>h. slice d header_len (length d) (\<lambda>rest. Ok (h @ rest))))) (\<lambda>buffers.
       io_then (io_sys RawSendFailed (os_send_to os s buffers (SockV4 destination))) (\<lambda>bytes_sent.
       io_then (io_res (lift_res (ensure_full_send bytes_sent (length d) ''raw IPv4''))) (\<lambda>_.
       io_return (make_raw_ip_send_report it i parsed bytes_sent)))))))) it"

definition send_ip_datagram_macos ::
  "('w, 's) os_api \<Rightarrow> u64 \<Rightarrow> bytes \<Rightarrow> ('w, 's, raw_ip_send_report) it_op" where
  "send_ip_datagram_macos os i d it =
     it_then (it_lift (io_res (parse_for_socket it d))) (\<lambda>parsed.
     case pi_family parsed of
       Ipv4 \<Rightarrow> send_macos_raw_ipv4_datagram_ip os i parsed d
     | Ipv6 \<Rightarrow> send_unix_raw_ipv6_datagram os i parsed d) it"

section \<open>The publication\<close>

record 's raw_ip_publication =
  ip_id :: u64
  ip_config :: raw_ip_socket_config
  ip_socket :: "'s raw_ip_transmit_socket"

text \<open>The publication is the same code on every platform; \<open>open_socket\<close> and \<open>send\<close> are the platform's.\<close>

definition raw_ip_publication_new ::
  "(raw_ip_socket_config \<Rightarrow> ('w, mctx_error, 's raw_ip_transmit_socket) io) \<Rightarrow>
   u64 \<Rightarrow> raw_ip_socket_config \<Rightarrow> ('w, mctx_error, 's raw_ip_publication) io" where
  "raw_ip_publication_new open_socket i c =
     io_then (open_socket c) (\<lambda>s. io_return \<lparr>ip_id = i, ip_config = c, ip_socket = s\<rparr>)"

definition raw_ip_publication_send ::
  "(u64 \<Rightarrow> bytes \<Rightarrow> ('w, 's, raw_ip_send_report) it_op) \<Rightarrow> bytes \<Rightarrow> 's raw_ip_publication \<Rightarrow> 'w \<Rightarrow>
   (mctx_error failure + raw_ip_send_report) \<times> 's raw_ip_publication \<times> 'w" where
  "raw_ip_publication_send send d p w =
     (case send (ip_id p) d (ip_socket p) w of (r, s, w') \<Rightarrow> (r, p\<lparr>ip_socket := s\<rparr>, w'))"

end
