(* ===== verification/Raw_Ip_Facts.thy ===== *)
theory Raw_Ip_Facts
  imports Raw_Ip
begin

text \<open>
  Properties of generic raw-IP publications on Linux and macOS: opening establishes an invariant of
  the transmit socket that every send keeps and under which no send panics; every cached
  socket was opened with the options its key stands for; and a successful send has handed the
  caller's datagram to a socket that is pinned to the selected interface.
\<close>

section \<open>Selecting the interface\<close>

lemma resolve_interface_index_safe: "io_safe (resolve_interface_index os a)"
  by (cases a) (simp_all add: resolver_v4.resolve_safe resolver_v6.resolve_safe)

lemma resolve_interface_index_nonzero: "resolve_interface_index os a w \<noteq> (Inr 0, w')"
  by (cases a) (simp_all add: resolver_v4.resolve_not_zero resolver_v6.resolve_not_zero)

lemma resolve_selectors_safe: "io_safe (resolve_selectors os family selectors resolved)"
  by (induction os family selectors resolved rule: resolve_selectors.induct)
    (auto simp del: io_simps intro!: mctx_panic resolve_interface_index_safe split: option.splits)

lemma resolve_selectors_Ok:
  assumes "resolve_selectors os family selectors resolved w = (Inr r, w')" and "resolved \<noteq> Some 0"
  shows "r \<noteq> Some 0 \<and> (\<forall>k. resolved = Some k \<longrightarrow> r = Some k) \<and>
    (\<forall>a \<in> set selectors. family_matches_ip family a \<and>
       (\<exists>w1 w2. resolve_interface_index os a w1 = (Inr (the r), w2)))"
  using assms
proof (induction os family selectors resolved arbitrary: w rule: resolve_selectors.induct)
  case (2 os family selector selectors resolved)
  from "2.prems"(1) obtain k w1 where fam: "family_matches_ip family selector"
      and k: "resolve_interface_index os selector w = (Inr k, w1)"
      and rest: "resolved = None \<or> resolved = Some k" "resolve_selectors os family selectors (Some k) w1 = (Inr r, w')"
    by (cases resolved) (auto simp: mctx_result split: if_splits)
  have "Some k \<noteq> Some 0" using k resolve_interface_index_nonzero by fastforce
  with "2.IH"(1) [OF _ _ rest(2)] "2.IH"(2) [OF _ _ _ rest(2)] fam rest(1) have "r = Some k \<and> (\<forall>a \<in> set selectors. family_matches_ip family a \<and>
       (\<exists>w1 w2. resolve_interface_index os a w1 = (Inr (the r), w2)))"
    by (cases resolved) auto
  with k fam rest(1) \<open>Some k \<noteq> Some 0\<close> show ?case by auto
qed auto

lemma resolve_selection_safe: "io_safe (resolve_selection os c)"
  unfolding resolve_selection_def by (auto intro!: mctx_panic resolve_selectors_safe)

text \<open>What the selection promises the code that opens sockets.\<close>

definition selection_ok :: "raw_ip_selection \<Rightarrow> bool" where
  "selection_ok sel \<longleftrightarrow> is_interface_index sel \<noteq> 0 \<and>
     (\<forall>a. is_bind_addr sel = Some a \<longrightarrow> ip_family a = is_family sel) \<and>
     (\<forall>a. is_interface_addr sel = Some a \<longrightarrow> ip_family a = is_family sel)"

lemma resolve_selection_Ok:
  assumes "resolve_selection os c w = (Inr sel, w')"
  shows "selection_ok sel \<and> resolved_family c = Ok (is_family sel) \<and> is_bind_addr sel = ri_bind_addr c \<and>
    is_interface_addr sel = ri_interface_addr c \<and> (\<forall>k. ri_interface_index c = Some k \<longrightarrow> is_interface_index sel = k) \<and>
    (\<forall>a \<in> set_option (ri_bind_addr c) \<union> set_option (ri_interface_addr c).
       \<exists>w1 w2. resolve_interface_index os a w1 = (Inr (is_interface_index sel), w2))"
proof -
  from assms obtain r where fam: "resolved_family c = Ok (is_family sel)"
      and r: "resolve_selectors os (is_family sel) (List.map_filter id [ri_bind_addr c, ri_interface_addr c])
        (ri_interface_index c) w = (Inr r, w')"
      and sel: "r = Some (is_interface_index sel)" "is_bind_addr sel = ri_bind_addr c" "is_interface_addr sel = ri_interface_addr c"
    by (auto simp: resolve_selection_def mctx_result)
  have "raw_ip_config_validate c = Ok ()" using fam by (auto simp: resolved_family_def mctx_result)
  then have "ri_interface_index c \<noteq> Some 0"
    using raw_ip_validate_Ok [of c "()" RawInterfaceRequired] by (auto simp: raw_ip_defect_def)
  note out = resolve_selectors_Ok [OF r this]
  have "set (List.map_filter id [ri_bind_addr c, ri_interface_addr c]) =
      set_option (ri_bind_addr c) \<union> set_option (ri_interface_addr c)"
    by (cases "ri_bind_addr c"; cases "ri_interface_addr c") (auto simp: map_filter_simps)
  with out fam sel show ?thesis by (auto simp: selection_ok_def family_matches_ip_iff)
qed

section \<open>The invariant of a transmit socket\<close>

text \<open>A socket that some earlier call opened for this selection and protocol, or for this key.\<close>

definition opened_for :: "('w, 's) os_api \<Rightarrow> raw_ip_selection \<Rightarrow> i32 \<Rightarrow> 's \<Rightarrow> bool" where
  "opened_for os sel protocol s \<longleftrightarrow> (\<exists>w w'. open_unix_raw_socket os sel protocol w = (Ok s, w'))"

definition opened_key :: "('w, 's) os_api \<Rightarrow> raw_ip_selection \<Rightarrow> raw_ipv6_key \<Rightarrow> 's \<Rightarrow> bool" where
  "opened_key os sel key s \<longleftrightarrow> (\<exists>w w'. open_ipv6_protocol_socket os sel key w = (Ok s, w'))"

lemma opened_forI: "open_unix_raw_socket os sel protocol w = (Ok s, w') \<Longrightarrow> opened_for os sel protocol s"
  unfolding opened_for_def by blast

lemma opened_keyI: "open_ipv6_protocol_socket os sel key w = (Ok s, w') \<Longrightarrow> opened_key os sel key s"
  unfolding opened_key_def by blast

definition it_ok :: "('w, 's) os_api \<Rightarrow> bool \<Rightarrow> 's raw_ip_transmit_socket \<Rightarrow> bool" where
  "it_ok os macos it \<longleftrightarrow> it_family it = is_family (it_selection it) \<and> selection_ok (it_selection it) \<and>
     (case it_family it of
        Ipv4 \<Rightarrow>
          if macos
          then (\<exists>cache. it_protocol_sockets it = CacheIpv4 cache \<and>
                  cache_pool.pool_all (\<lambda>p. opened_for os (it_selection it) (ucast p)) cache)
          else (\<exists>s. it_ipv4_socket it = Some s \<and> opened_for os (it_selection it) ipproto_raw s)
      | Ipv6 \<Rightarrow>
          (\<exists>a. is_bind_addr (it_selection it) = Some (V6 a)) \<and>
          (\<exists>cache. it_protocol_sockets it = CacheIpv6 cache \<and>
             cache_pool.pool_all (opened_key os (it_selection it)) cache))"

lemma pool_all_default [simp]: "cache_pool.pool_all P cache_default"
  by (simp add: cache_pool.pool_all_def cache_lookup_def cache_default_def) (simp add: cache_default_def [symmetric])

lemma open_unix_raw_safe: "io_safe (open_unix_raw_socket os sel protocol)"
  unfolding open_unix_raw_socket_def bind_unix_socket_to_interface_v4_def bind_unix_socket_to_interface_v6_def Let_def
  by (auto simp del: io_simps intro!: mctx_panic split: address_family.splits option.splits ip_addr.splits)

lemma open_key_safe: "io_safe (open_ipv6_protocol_socket os sel key)"
  unfolding open_ipv6_protocol_socket_def by (auto simp del: io_simps intro!: mctx_panic open_unix_raw_safe)

lemma open_raw_ip_safe:
  "io_safe (open_raw_ip_socket_linux os c)" "io_safe (open_raw_ip_socket_macos os c)"
  unfolding open_raw_ip_socket_linux_def open_raw_ip_socket_macos_def
  by (auto simp del: io_simps intro!: mctx_panic resolve_selection_safe open_unix_raw_safe
      split: address_family.splits)

lemma require_bind_Ok:
  "require_unix_ipv6_bind_addr sel = Ok u \<Longrightarrow> is_family sel = Ipv6 \<Longrightarrow> \<exists>a. is_bind_addr sel = Some (V6 a)"
  by (auto simp: require_unix_ipv6_bind_addr_def split: option.splits ip_addr.splits if_splits)

lemma open_raw_ip_Ok:
  "open_raw_ip_socket_linux os c w = (Inr it, w') \<Longrightarrow> it_ok os False it"
  "open_raw_ip_socket_macos os c w = (Inr it, w') \<Longrightarrow> it_ok os True it"
  by (auto simp: open_raw_ip_socket_linux_def open_raw_ip_socket_macos_def mctx_result it_ok_def
      dest!: require_bind_Ok dest: resolve_selection_Ok intro: opened_forI split: address_family.splits)

section \<open>Sending\<close>

lemma it_then_eq:
  "it_then m f it w = (r, it', w') \<longleftrightarrow>
     (\<exists>e. m it w = (Inl e, it', w') \<and> r = Inl e) \<or>
     (\<exists>x it1 w1. m it w = (Inr x, it1, w1) \<and> f x it1 w1 = (r, it', w'))"
  by (auto simp: it_then_def split: prod.splits sum.splits)

lemma it_lift_eq: "it_lift m it w = (r, it', w') \<longleftrightarrow> m w = (r, w') \<and> it' = it"
  by (auto simp: it_lift_def split: prod.splits)

lemmas it_eqs = it_then_eq it_lift_eq

lemma cached_ipv6_outcome:
  assumes "it_ok os macos it" and "it_family it = Ipv6"
    and "cached_ipv6_protocol_socket key (open_ipv6_protocol_socket os (it_selection it) key) it w = (r, it', w')"
  shows "no_panic r \<and> it_ok os macos it' \<and> it_selection it' = it_selection it \<and>
    (\<forall>s. r = Ok s \<longrightarrow> opened_key os (it_selection it) key s)"
proof -
  from assms(1,2) obtain cache where cache: "it_protocol_sockets it = CacheIpv6 cache"
      "cache_pool.pool_all (opened_key os (it_selection it)) cache" by (auto simp: it_ok_def)
  obtain q c' where q: "get_or_try_insert_with key (open_ipv6_protocol_socket os (it_selection it) key) cache w = (q, c', w')"
      "r = q" "it' = it\<lparr>it_protocol_sockets := CacheIpv6 c'\<rparr>"
    using assms(3) cache(1) by (auto simp: cached_ipv6_protocol_socket_def split: prod.splits)
  have out: "cache_pool.pool_all (opened_key os (it_selection it)) c' \<and>
      (\<forall>s. q = Ok s \<longrightarrow> opened_key os (it_selection it) key s) \<and>
      (\<forall>f. q = Err f \<longrightarrow> c' = cache \<and> open_ipv6_protocol_socket os (it_selection it) key w = (Err f, w'))"
    by (rule cache_pool.request_outcome [OF cache(2) _ q(1)]) (erule opened_keyI)
  have "q \<noteq> Err Panicked" using out io_safeD [OF open_key_safe] by metis
  with out q assms(1,2) show ?thesis by (auto simp: it_ok_def no_panic_def)
qed

lemma cached_ipv4_outcome:
  assumes "it_ok os True it" and "it_family it = Ipv4"
    and "cached_ipv4_protocol_socket p (open_unix_raw_socket os (it_selection it) (ucast p)) it w = (r, it', w')"
  shows "no_panic r \<and> it_ok os True it' \<and> it_selection it' = it_selection it \<and>
    (\<forall>s. r = Ok s \<longrightarrow> opened_for os (it_selection it) (ucast p) s)"
proof -
  let ?P = "\<lambda>p. opened_for os (it_selection it) (ucast p)"
  from assms(1,2) obtain cache where cache: "it_protocol_sockets it = CacheIpv4 cache" "cache_pool.pool_all ?P cache"
    by (auto simp: it_ok_def)
  obtain q c' where q: "get_or_try_insert_with p (open_unix_raw_socket os (it_selection it) (ucast p)) cache w = (q, c', w')"
      "r = q" "it' = it\<lparr>it_protocol_sockets := CacheIpv4 c'\<rparr>"
    using assms(3) cache(1) by (auto simp: cached_ipv4_protocol_socket_def split: prod.splits)
  have out: "cache_pool.pool_all ?P c' \<and> (\<forall>s. q = Ok s \<longrightarrow> ?P p s) \<and>
      (\<forall>f. q = Err f \<longrightarrow> c' = cache \<and> open_unix_raw_socket os (it_selection it) (ucast p) w = (Err f, w'))"
    by (rule cache_pool.request_outcome [OF cache(2) _ q(1)]) (erule opened_forI)
  have "q \<noteq> Err Panicked" using out io_safeD [OF open_unix_raw_safe] by metis
  with out q assms(1,2) show ?thesis by (auto simp: it_ok_def no_panic_def)
qed

text \<open>The last call of a successful send, for each family and platform.\<close>

definition sent_v6 :: "('w, 's) os_api \<Rightarrow> raw_ip_selection \<Rightarrow> parsed_raw_ip \<Rightarrow> bytes \<Rightarrow> 'w \<Rightarrow> bool" where
  "sent_v6 os sel p d w' \<longleftrightarrow> (\<exists>s w1 a. pi_destination_ip p = V6 a \<and> is_bind_addr sel = Some (pi_source_ip p) \<and>
     opened_key os sel \<lparr>rk_protocol = pi_protocol p, rk_hop_limit = pi_ttl_or_hop_limit p,
       rk_traffic_class = pi_traffic_class p\<rparr> s \<and>
     os_send_to os s (drop (pi_header_len p) d)
       (SockV6 (socket_addr_v6_new a 0 0 (raw_ip_destination_scope_id a (is_interface_index sel)))) w1 =
       (Inr (length d - pi_header_len p), w'))"

definition sent_v4 :: "('w, 's) os_api \<Rightarrow> raw_ip_selection \<Rightarrow> i32 \<Rightarrow> parsed_raw_ip \<Rightarrow> bytes \<Rightarrow> 'w \<Rightarrow> bool" where
  "sent_v4 os sel protocol p d w' \<longleftrightarrow> (\<exists>s w1 a. pi_destination_ip p = V4 a \<and> opened_for os sel protocol s \<and>
     os_send_to os s d (SockV4 (socket_addr_v4_new a 0)) w1 = (Inr (length d), w'))"

definition report_ok :: "u64 \<Rightarrow> raw_ip_selection \<Rightarrow> parsed_raw_ip \<Rightarrow> bytes \<Rightarrow> raw_ip_send_report \<Rightarrow> bool" where
  "report_ok i sel p d rep \<longleftrightarrow> ir_publication_id rep = i \<and> ir_family rep = pi_family p \<and>
     ir_source_ip rep = pi_source_ip p \<and> ir_destination_ip rep = pi_destination_ip p \<and>
     ir_ip_protocol rep = pi_protocol p \<and> ir_bytes_sent rep = length d \<and>
     ir_local_bind_addr rep = is_bind_addr sel \<and> ir_interface_index rep = is_interface_index sel"

lemma report_okI: "report_ok i (it_selection it) p d (make_raw_ip_send_report it i p (length d))"
  by (simp add: report_ok_def make_raw_ip_send_report_def)

lemma validate_source_Ok:
  "validate_unix_ipv6_source sel p = Ok a \<Longrightarrow> pi_destination_ip p = V6 a \<and> is_bind_addr sel = Some (pi_source_ip p)"
  by (auto simp: validate_unix_ipv6_source_def split: option.splits ip_addr.splits if_splits)

lemma full_send_eq: "ensure_full_send n m t = Ok u \<longleftrightarrow> n = m"
  by (simp add: ensure_full_send_def)

text \<open>The part of a send after the socket is known: one call, whose result must be the full length.\<close>

lemma full_send_outcome:
  assumes "io_then (io_sys RawSendFailed (os_send_to os s b a)) (\<lambda>n.
      io_then (io_res (lift_res (ensure_full_send n m t))) (\<lambda>_. io_return (g n))) w = (r, w')"
  shows "no_panic r \<and> (\<forall>rep. r = Ok rep \<longrightarrow> os_send_to os s b a w = (Inr m, w') \<and> rep = g m)"
proof (cases r)
  case (Inl f)
  moreover have "f \<noteq> Panicked"
    using assms Inl by (auto simp: mctx_result)
  ultimately show ?thesis by (simp add: no_panic_def)
next
  case (Inr rep)
  with assms show ?thesis by (auto simp: mctx_result full_send_eq)
qed

lemma send_ipv6_outcome:
  assumes ok: "it_ok os macos it" and fam: "it_family it = Ipv6"
    and len: "pi_header_len p \<le> length d"
    and run: "send_unix_raw_ipv6_datagram os i p d it w = (r, it', w')"
  shows "no_panic r \<and> it_ok os macos it' \<and> it_selection it' = it_selection it \<and>
    (\<forall>rep. r = Ok rep \<longrightarrow> report_ok i (it_selection it) p d rep \<and> sent_v6 os (it_selection it) p d w')"
proof (cases "validate_unix_ipv6_source (it_selection it) p")
  case (Inl e)
  with ok run show ?thesis by (auto simp: send_unix_raw_ipv6_datagram_def it_eqs)
next
  case (Inr a)
  note src = validate_source_Ok [OF Inr]
  define key where "key = \<lparr>rk_protocol = pi_protocol p, rk_hop_limit = pi_ttl_or_hop_limit p,
    rk_traffic_class = pi_traffic_class p\<rparr>"
  obtain q it1 w1 where q:
    "cached_ipv6_protocol_socket key (open_ipv6_protocol_socket os (it_selection it) key) it w = (q, it1, w1)"
    by (metis prod_cases3)
  note out = cached_ipv6_outcome [OF ok fam q]
  show ?thesis
  proof (cases q)
    case f: (Inl f)
    with run q len Inr out show ?thesis
      by (auto simp: send_unix_raw_ipv6_datagram_def it_eqs Let_def key_def [symmetric] no_panic_def)
  next
    case s: (Inr s)
    have tail: "io_then (io_sys RawSendFailed (os_send_to os s (drop (pi_header_len p) d)
        (SockV6 (socket_addr_v6_new a 0 0 (raw_ip_destination_scope_id a (is_interface_index (it_selection it)))))))
        (\<lambda>n. io_then (io_res (lift_res (ensure_full_send n (length d - pi_header_len p) ''raw IPv6 payload'')))
          (\<lambda>_. io_return (make_raw_ip_send_report it i p (length d)))) w1 = (r, w')" and it': "it' = it1"
      using run q len Inr s
      by (auto simp: send_unix_raw_ipv6_datagram_def it_eqs Let_def key_def [symmetric])
    from full_send_outcome [OF tail] out it' s src show ?thesis
      unfolding sent_v6_def key_def [symmetric] by (auto simp: report_okI)
  qed
qed

lemma parse_for_socket_Ok:
  assumes "parse_for_socket it d = Ok p"
  shows "parse_complete_ip_datagram d = Ok p \<and> pi_family p = it_family it \<and> 20 \<le> pi_header_len p \<and>
    pi_header_len p \<le> length d"
  using assms raw_ip_parser.parse_bounds [of d p] by (auto simp: parse_for_socket_def mctx_result split: if_splits)

lemma parse_for_socket_safe: "no_panic (parse_for_socket it d)"
  unfolding parse_for_socket_def by (intro no_panic_and_then raw_ip_parser.parse_safe) auto

text \<open>The datagram as Darwin wants it: length and fragment offset in host order, no checksum.\<close>

definition host_order :: "bytes \<Rightarrow> bytes" where
  "host_order d = d[2 := d ! 3, 3 := d ! 2, 6 := d ! 7, 7 := d ! 6, 10 := 0, 11 := 0]"

lemma prepare_macos_Ok:
  assumes "parse_complete_ip_datagram d = Ok p" and "pi_family p = Ipv4"
  shows "\<exists>h. prepare_macos_ipv4_header d p = Ok (h, pi_header_len p) \<and> pi_header_len p \<le> length h \<and>
    take (pi_header_len p) h @ drop (pi_header_len p) d = host_order d"
proof -
  obtain q where q: "parse_raw_ip_datagram d = Ok q" "p = with_class q (traffic_class d)"
    using assms(1) by (auto simp: parse_complete_Ok)
  let ?n = "pi_header_len p"
  have "?n = ihl_bytes d"
    using q assms(2) by (cases rule: raw_parse_cases [OF q(1)]) (auto simp: with_class_def fields_v4_def fields_v6_def)
  then have n: "20 \<le> ?n" "?n \<le> length d" "?n \<le> 60"
    using raw_ip_parser.parse_bounds [OF assms(1)] ihl_facts by auto
  define h where "h = take ?n d @ replicate (60 - ?n) 0"
  have nth: "h ! i = d ! i" if "i < 20" for i using n that by (simp add: h_def nth_append)
  have len: "length h = 60" using n by (simp add: h_def)
  let ?h = "h[2 := d ! 3, 3 := d ! 2, 6 := d ! 7, 7 := d ! 6, 10 := 0, 11 := 0]"
  have "prepare_macos_ipv4_header d p = Ok (?h, ?n)"
    using n len nth by (simp add: prepare_macos_ipv4_header_def h_def [symmetric])
  moreover have "take ?n ?h @ drop ?n d = host_order d"
    using n len by (intro nth_equalityI) (auto simp: host_order_def nth_append nth_list_update h_def)
  ultimately show ?thesis using len n by auto
qed

lemma raw_ip_send_outcome:
  assumes "it_ok os False it" and "send_ip_datagram_linux os i d it w = (r, it', w')"
  shows "no_panic r \<and> it_ok os False it' \<and> it_selection it' = it_selection it \<and>
    (\<forall>rep. r = Ok rep \<longrightarrow> (\<exists>p. parse_complete_ip_datagram d = Ok p \<and> report_ok i (it_selection it) p d rep \<and>
       (case pi_family p of
          Ipv4 \<Rightarrow> sent_v4 os (it_selection it) ipproto_raw p d w'
        | Ipv6 \<Rightarrow> sent_v6 os (it_selection it) p d w')))"
proof (cases "parse_for_socket it d")
  case (Inl f)
  with assms parse_for_socket_safe [of it d] show ?thesis
    by (auto simp: send_ip_datagram_linux_def it_eqs no_panic_def)
next
  case (Inr p)
  note p = parse_for_socket_Ok [OF Inr]
  show ?thesis
  proof (cases "pi_family p")
    case Ipv6
    then have "send_unix_raw_ipv6_datagram os i p d it w = (r, it', w')"
      using assms(2) Inr by (auto simp: send_ip_datagram_linux_def it_eqs)
    with send_ipv6_outcome [OF assms(1)] p Ipv6 show ?thesis by auto
  next
    case Ipv4
    obtain a where a: "pi_destination_ip p = V4 a"
      using raw_ip_parser.parse_families [of d p] p Ipv4 by auto
    obtain s where s: "it_ipv4_socket it = Some s" "opened_for os (it_selection it) ipproto_raw s"
      using assms(1) p Ipv4 by (auto simp: it_ok_def)
    have "io_then (io_sys RawSendFailed (os_send_to os s d (SockV4 (socket_addr_v4_new a 0))))
        (\<lambda>n. io_then (io_res (lift_res (ensure_full_send n (length d) ''raw IPv4'')))
          (\<lambda>_. io_return (make_raw_ip_send_report it i p n))) w = (r, w')" "it' = it"
      using assms(2) Inr Ipv4 a s by (auto simp: send_ip_datagram_linux_def it_eqs ipv4_destination_def)
    from full_send_outcome [OF this(1)] this(2) assms(1) p Ipv4 a s show ?thesis
      by (auto simp: sent_v4_def report_okI)
  qed
qed


lemma raw_ip_send_outcome_macos:
  assumes "it_ok os True it" and "send_ip_datagram_macos os i d it w = (r, it', w')"
  shows "no_panic r \<and> it_ok os True it' \<and> it_selection it' = it_selection it \<and>
    (\<forall>rep. r = Ok rep \<longrightarrow> (\<exists>p. parse_complete_ip_datagram d = Ok p \<and> report_ok i (it_selection it) p d rep \<and>
       (case pi_family p of
          Ipv4 \<Rightarrow> sent_v4 os (it_selection it) (ucast (pi_protocol p)) p (host_order d) w'
        | Ipv6 \<Rightarrow> sent_v6 os (it_selection it) p d w')))"
proof (cases "parse_for_socket it d")
  case (Inl f)
  with assms parse_for_socket_safe [of it d] show ?thesis
    by (auto simp: send_ip_datagram_macos_def it_eqs no_panic_def)
next
  case (Inr p)
  note p = parse_for_socket_Ok [OF Inr]
  show ?thesis
  proof (cases "pi_family p")
    case Ipv6
    then have "send_unix_raw_ipv6_datagram os i p d it w = (r, it', w')"
      using assms(2) Inr by (auto simp: send_ip_datagram_macos_def it_eqs)
    with send_ipv6_outcome [OF assms(1)] p Ipv6 show ?thesis by auto
  next
    case Ipv4
    obtain a where a: "pi_destination_ip p = V4 a"
      using raw_ip_parser.parse_families [of d p] p Ipv4 by auto
    obtain h where h: "prepare_macos_ipv4_header d p = Ok (h, pi_header_len p)" "pi_header_len p \<le> length h"
        "take (pi_header_len p) h @ drop (pi_header_len p) d = host_order d"
      using prepare_macos_Ok p Ipv4 by blast
    obtain q it1 w1 where q: "cached_ipv4_protocol_socket (pi_protocol p)
        (open_unix_raw_socket os (it_selection it) (ucast (pi_protocol p))) it w = (q, it1, w1)"
      by (metis prod_cases3)
    have fam: "it_family it = Ipv4" using p Ipv4 by simp
    note out = cached_ipv4_outcome [OF assms(1) fam q]
    have run: "send_macos_raw_ipv4_datagram_ip os i p d it w = (r, it', w')"
      using assms(2) Inr Ipv4 by (auto simp: send_ip_datagram_macos_def it_eqs)
    show ?thesis
    proof (cases q)
      case f: (Inl f)
      with run q h a out p show ?thesis
        by (auto simp: send_macos_raw_ipv4_datagram_ip_def it_eqs ipv4_destination_def no_panic_def)
    next
      case s: (Inr s)
      have "io_then (io_sys RawSendFailed (os_send_to os s (host_order d) (SockV4 (socket_addr_v4_new a 0))))
          (\<lambda>n. io_then (io_res (lift_res (ensure_full_send n (length d) ''raw IPv4'')))
            (\<lambda>_. io_return (make_raw_ip_send_report it i p n))) w1 = (r, w')" "it' = it1"
        using run q h a s p by (auto simp: send_macos_raw_ipv4_datagram_ip_def it_eqs ipv4_destination_def)
      from full_send_outcome [OF this(1)] this(2) out s p Ipv4 a show ?thesis
        by (auto simp: sent_v4_def report_okI) (auto simp: host_order_def)
    qed
  qed
qed

text \<open>
  The same on macOS, where an IPv4 datagram goes to a socket opened for its protocol with the
  length and fragment offset of its header in host byte order and the checksum left to the
  system, and nothing else changed.
\<close>

theorem raw_ip_send_effect_macos:
  assumes "it_ok os True it" and "send_ip_datagram_macos os i d it w = (r, it', w')"
  shows "no_panic r \<and> it_ok os True it' \<and> it_selection it' = it_selection it \<and>
    (\<forall>rep. r = Ok rep \<longrightarrow> (\<exists>p. parse_complete_ip_datagram d = Ok p \<and> report_ok i (it_selection it) p d rep \<and>
       (case pi_family p of
          Ipv4 \<Rightarrow> sent_v4 os (it_selection it) (ucast (pi_protocol p)) p (host_order d) w'
        | Ipv6 \<Rightarrow> sent_v6 os (it_selection it) p d w')))"
  by (rule raw_ip_send_outcome_macos [OF assms])

section \<open>Opening\<close>

text \<open>The calls that prepare a raw socket of a selection, in the order in which they are issued.\<close>

definition unix_setup_calls :: "raw_ip_selection \<Rightarrow> sock_call list" where
  "unix_setup_calls sel =
     (case is_family sel of
        Ipv4 \<Rightarrow> [SetNonblocking True, SetHeaderIncludedV4 True] @
          (case is_bind_addr sel of Some (V4 a) \<Rightarrow> [Bind (SockV4 (socket_addr_v4_new a 0))] | _ \<Rightarrow> []) @
          [BindDeviceByIndexV4 (is_interface_index sel)]
      | Ipv6 \<Rightarrow> [SetNonblocking True] @
          (case is_bind_addr sel of
             Some (V6 a) \<Rightarrow> [Bind (SockV6 (socket_addr_v6_new a 0 0
               (if ipv6_is_unicast_link_local a then is_interface_index sel else 0)))] | _ \<Rightarrow> []) @
          [BindDeviceByIndexV6 (is_interface_index sel)])"

lemma open_unix_calls:
  assumes "open_unix_raw_socket (logged os) sel protocol wl = (Inr s, wl')"
  shows "snd wl' = snd wl @ map (Pair s) (unix_setup_calls sel)"
  using assms
  by (cases "is_family sel"; cases "is_bind_addr sel" rule: option.exhaust; cases "the (is_bind_addr sel)")
    (auto simp: open_unix_raw_socket_def bind_unix_socket_to_interface_v4_def bind_unix_socket_to_interface_v6_def
      unix_setup_calls_def mctx_result Let_def split: if_splits)

lemma resolve_index_quiet: "quiet (resolve_interface_index (logged os) a)"
  by (cases a) (simp_all add: mctx_quiet)

lemma resolve_selectors_quiet: "quiet (resolve_selectors (logged os) family selectors resolved)"
  by (induction "logged os" family selectors resolved rule: resolve_selectors.induct)
    (auto simp del: io_simps intro!: mctx_quiet resolve_index_quiet split: option.splits)

lemma resolve_selection_quiet: "quiet (resolve_selection (logged os) c)"
  unfolding resolve_selection_def by (auto simp del: io_simps intro!: mctx_quiet resolve_selectors_quiet)

text \<open>
  Opening a raw-IP publication on Linux never panics. When it succeeds, every selector of the
  configuration resolved to the one interface of the selection, which is not zero, and the calls
  it issued are exactly the preparation of one socket: non-blocking, for IPv4 with the header
  included, bound to the configured address, with the interface as scope of a link-local one, and
  last bound to the interface; for IPv4 that socket is kept for sending.
\<close>

theorem raw_ip_open_calls:
  "io_safe (open_raw_ip_socket_linux (logged os) c) \<and>
   (open_raw_ip_socket_linux (logged os) c wl = (Inr it, wl') \<longrightarrow>
      it_ok (logged os) False it \<and> is_bind_addr (it_selection it) = ri_bind_addr c \<and>
      (\<forall>k. ri_interface_index c = Some k \<longrightarrow> is_interface_index (it_selection it) = k) \<and>
      (\<forall>a \<in> set_option (ri_bind_addr c) \<union> set_option (ri_interface_addr c).
         \<exists>w1 w2. resolve_interface_index (logged os) a w1 = (Inr (is_interface_index (it_selection it)), w2)) \<and>
      (\<exists>s. snd wl' = snd wl @ map (Pair s) (unix_setup_calls (it_selection it)) \<and>
         (it_family it = Ipv4 \<longrightarrow> it_ipv4_socket it = Some s)))"
proof (intro conjI impI)
  show "io_safe (open_raw_ip_socket_linux (logged os) c)" by (rule open_raw_ip_safe)
  assume run: "open_raw_ip_socket_linux (logged os) c wl = (Inr it, wl')"
  show "it_ok (logged os) False it" using run by (rule open_raw_ip_Ok)
  from run obtain sel w1 s where sel: "resolve_selection (logged os) c wl = (Inr sel, w1)" "it_selection it = sel"
      and s: "open_unix_raw_socket (logged os) sel ipproto_raw w1 = (Inr s, wl')"
      and it: "it_family it = Ipv4 \<longrightarrow> it_ipv4_socket it = Some s"
    by (auto simp: open_raw_ip_socket_linux_def mctx_result split: address_family.splits)
  note res = resolve_selection_Ok [OF sel(1)]
  from res sel(2) show "is_bind_addr (it_selection it) = ri_bind_addr c"
    "\<forall>k. ri_interface_index c = Some k \<longrightarrow> is_interface_index (it_selection it) = k"
    "\<forall>a \<in> set_option (ri_bind_addr c) \<union> set_option (ri_interface_addr c).
       \<exists>w1 w2. resolve_interface_index (logged os) a w1 = (Inr (is_interface_index (it_selection it)), w2)"
    by auto
  show "\<exists>s. snd wl' = snd wl @ map (Pair s) (unix_setup_calls (it_selection it)) \<and>
      (it_family it = Ipv4 \<longrightarrow> it_ipv4_socket it = Some s)"
    using open_unix_calls [OF s] quietD [OF resolve_selection_quiet sel(1)] it sel(2) by auto
qed

section \<open>Examples\<close>

definition sample_ip_config :: raw_ip_socket_config where
  "sample_ip_config = ip_with_bind_addr (ip_with_interface_index raw_ip_config_new 2) (V6 0x20010db8000000000000000000000010)"

definition sample_ip_device :: device where
  "sample_ip_device = (device_start 1)
     \<lparr>dev_table := [(\<lparr>ifa_name = ''eth0'', ifa_addr = Some (IfInet6 0x20010db8000000000000000000000010)\<rparr>, 2)]\<rparr>"

definition sample_ip_socket :: "nat raw_ip_transmit_socket" where
  "sample_ip_socket = projr (fst (open_raw_ip_socket_linux device_os sample_ip_config sample_ip_device))"

text \<open>An IPv6 datagram without payload from the bound address to \<open>2001:db8::30\<close>.\<close>

definition sample_ip_datagram :: bytes where
  "sample_ip_datagram = [0x60, 0, 0, 0, 0, 0, 58, 64] @
     ipv6_octets 0x20010db8000000000000000000000010 @ ipv6_octets 0x20010db8000000000000000000000030"

lemma sample_ip_ok: "it_ok device_os False sample_ip_socket"
proof -
  have "open_raw_ip_socket_linux device_os sample_ip_config sample_ip_device =
      (Inr sample_ip_socket, snd (open_raw_ip_socket_linux device_os sample_ip_config sample_ip_device))"
    by code_simp
  then show ?thesis by (rule open_raw_ip_Ok)
qed


definition sample_mac_socket :: "nat raw_ip_transmit_socket" where
  "sample_mac_socket = projr (fst (open_raw_ip_socket_macos device_os
     (ip_with_interface_addr raw_ip_config_new (V4 (Ipv4Addr 192 0 2 1)))
     (sample_ip_device\<lparr>dev_table := [(\<lparr>ifa_name = ''en0'', ifa_addr = Some (IfInet (Ipv4Addr 192 0 2 1))\<rparr>, 4)]\<rparr>)))"

text \<open>The sample datagram with the checksum the TTL rewrite computes, accepted by the strict parser.\<close>

definition sample_checked_datagram :: bytes where
  "sample_checked_datagram = projr (apply_ttl_or_hop_limit_override sample_datagram (fields_v4 sample_datagram) 5)"

theorem raw_ip_send_effect_macos_witness:
  "it_ok device_os True sample_mac_socket \<and>
   (\<exists>rep it' w'. send_ip_datagram_macos device_os 7 sample_checked_datagram sample_mac_socket (device_start 1) = (Ok rep, it', w') \<and>
      it_ok device_os True it' \<and> dev_sent w' = [host_order sample_checked_datagram])"
proof -
  have "open_raw_ip_socket_macos device_os
       (ip_with_interface_addr raw_ip_config_new (V4 (Ipv4Addr 192 0 2 1)))
       (sample_ip_device\<lparr>dev_table := [(\<lparr>ifa_name = ''en0'', ifa_addr = Some (IfInet (Ipv4Addr 192 0 2 1))\<rparr>, 4)]\<rparr>) =
      (Inr sample_mac_socket, snd (open_raw_ip_socket_macos device_os
       (ip_with_interface_addr raw_ip_config_new (V4 (Ipv4Addr 192 0 2 1)))
       (sample_ip_device\<lparr>dev_table := [(\<lparr>ifa_name = ''en0'', ifa_addr = Some (IfInet (Ipv4Addr 192 0 2 1))\<rparr>, 4)]\<rparr>)))"
    by code_simp
  then have ok: "it_ok device_os True sample_mac_socket" by (rule open_raw_ip_Ok)
  obtain r it' w' where run:
    "send_ip_datagram_macos device_os 7 sample_checked_datagram sample_mac_socket (device_start 1) = (r, it', w')"
    by (metis prod_cases3)
  have "is_ok (fst (send_ip_datagram_macos device_os 7 sample_checked_datagram sample_mac_socket (device_start 1))) \<and>
      dev_sent (snd (snd (send_ip_datagram_macos device_os 7 sample_checked_datagram sample_mac_socket (device_start 1)))) =
        [host_order sample_checked_datagram]"
    by code_simp
  then have "is_ok r" "dev_sent w' = [host_order sample_checked_datagram]" by (simp_all only: run fst_conv snd_conv)
  moreover from this obtain rep where "r = Ok rep" by (cases r) auto
  ultimately show ?thesis using raw_ip_send_effect_macos [OF ok run] ok run by blast
qed

theorem raw_ip_open_calls_witness:
  "\<exists>it w'. open_raw_ip_socket_linux (logged device_os) sample_ip_config (sample_ip_device, []) = (Inr it, w') \<and>
     it_ok (logged device_os) False it \<and> is_interface_index (it_selection it) = 2 \<and>
     (\<exists>s. snd w' = [] @ map (Pair s) (unix_setup_calls (it_selection it)))"
proof -
  obtain r w' where run: "open_raw_ip_socket_linux (logged device_os) sample_ip_config (sample_ip_device, []) = (r, w')"
    by (rule prod.exhaust)
  have "is_ok (fst (open_raw_ip_socket_linux (logged device_os) sample_ip_config (sample_ip_device, [])))" by code_simp
  then obtain it where it: "r = Inr it" by (cases r) (auto simp: run)
  have "ri_interface_index sample_ip_config = Some 2" by code_simp
  with raw_ip_open_calls [of device_os sample_ip_config "(sample_ip_device, [])" it w'] run it show ?thesis by auto
qed

end
