(* ===== verification/Raw_Ip_Context.thy ===== *)
theory Raw_Ip_Context
  imports Raw_Ip_Facts Publication_Table
begin

text \<open>
  The owner of generic raw-IP publications (\<open>src/raw_ip/context.rs\<close>). Its code is the same on every
  platform: the operations take the platform's functions that open a transmit socket and send
  through it, and what the context needs of them is a locale, interpreted for Linux and macOS.
\<close>

section \<open>Operations\<close>

type_synonym 's raw_ip_context = "'s raw_ip_publication publication_table"

definition ip_context_new :: "'s raw_ip_context" where
  "ip_context_new = table_new"

definition ip_add_publication ::
  "(raw_ip_socket_config \<Rightarrow> ('w, mctx_error, 's raw_ip_transmit_socket) io) \<Rightarrow> raw_ip_socket_config \<Rightarrow>
   's raw_ip_context \<Rightarrow> 'w \<Rightarrow> (mctx_error failure + u64) \<times> 's raw_ip_context \<times> 'w" where
  "ip_add_publication open_socket c ctx w =
     (if list_ex (\<lambda>p. ip_config p = c) (pt_publications ctx)
      then (Err (Raised DuplicatePublication), ctx, w)
      else
        let i = pt_next_id ctx; ctx1 = table_bump ctx in
        (case raw_ip_publication_new open_socket i c w of
           (Inl f, w') \<Rightarrow> (Err f, ctx1, w')
         | (Inr p, w') \<Rightarrow> (Ok i, table_push i p ctx1, w')))"

definition ip_get_publication :: "'s raw_ip_context \<Rightarrow> u64 \<Rightarrow> 's raw_ip_publication option" where
  "ip_get_publication = table_get"

definition ip_remove_publication :: "u64 \<Rightarrow> 's raw_ip_context \<Rightarrow> mctx_error failure + bool \<times> 's raw_ip_context" where
  "ip_remove_publication i ctx = and_then (table_take ip_id i ctx) (\<lambda>(p, ctx'). Ok (p \<noteq> None, ctx'))"

definition ip_send ::
  "(u64 \<Rightarrow> bytes \<Rightarrow> ('w, 's, raw_ip_send_report) it_op) \<Rightarrow> u64 \<Rightarrow> bytes \<Rightarrow> 's raw_ip_context \<Rightarrow> 'w \<Rightarrow>
   (mctx_error failure + raw_ip_send_report) \<times> 's raw_ip_context \<times> 'w" where
  "ip_send send i d ctx w =
     (case ip_get_publication ctx i of
        None \<Rightarrow> (Err (Raised PublicationNotFound), ctx, w)
      | Some p \<Rightarrow>
          (case raw_ip_publication_send send d p w of (r, p', w') \<Rightarrow> (r, table_store i p' ctx, w')))"

text \<open>The contexts reachable through the public operations.\<close>

inductive ip_context_run ::
  "(raw_ip_socket_config \<Rightarrow> ('w, mctx_error, 's raw_ip_transmit_socket) io) \<Rightarrow>
   (u64 \<Rightarrow> bytes \<Rightarrow> ('w, 's, raw_ip_send_report) it_op) \<Rightarrow> 's raw_ip_context \<Rightarrow> bool"
  for open_socket send where
  ip_new: "ip_context_run open_socket send ip_context_new"
| ip_add: "ip_context_run open_socket send ctx \<Longrightarrow> pt_next_id ctx \<noteq> - 1 \<Longrightarrow>
    ip_add_publication open_socket c ctx w = (r, ctx', w') \<Longrightarrow> ip_context_run open_socket send ctx'"
| ip_remove: "ip_context_run open_socket send ctx \<Longrightarrow> ip_remove_publication i ctx = Ok (b, ctx') \<Longrightarrow>
    ip_context_run open_socket send ctx'"
| ip_sent: "ip_context_run open_socket send ctx \<Longrightarrow> ip_send send i d ctx w = (r, ctx', w') \<Longrightarrow>
    ip_context_run open_socket send ctx'"

definition ip_context_ok :: "('s raw_ip_transmit_socket \<Rightarrow> bool) \<Rightarrow> 's raw_ip_context \<Rightarrow> bool" where
  "ip_context_ok good ctx \<longleftrightarrow> table_ok ip_id ctx \<and>
     (\<forall>i p. ip_get_publication ctx i = Some p \<longrightarrow> good (ip_socket p)) \<and>
     (\<forall>i j p q. ip_get_publication ctx i = Some p \<and> ip_get_publication ctx j = Some q \<and>
        ip_config p = ip_config q \<longrightarrow> i = j)"

lemma ip_context_ok_upd:
  assumes "ip_context_ok good ctx" and "table_ok ip_id ctx'"
    and "ip_get_publication ctx' = (ip_get_publication ctx)(i \<mapsto> p)" and "good (ip_socket p)"
    and "\<And>j q. ip_get_publication ctx j = Some q \<Longrightarrow> j \<noteq> i \<Longrightarrow> ip_config q \<noteq> ip_config p"
  shows "ip_context_ok good ctx'"
  unfolding ip_context_ok_def assms(3)
proof (intro conjI allI impI assms(2))
  fix j q assume "((ip_get_publication ctx)(i \<mapsto> p)) j = Some q"
  then show "good (ip_socket q)" using assms(1,4) by (auto simp: ip_context_ok_def split: if_splits)
next
  fix j k q r
  assume "((ip_get_publication ctx)(i \<mapsto> p)) j = Some q \<and> ((ip_get_publication ctx)(i \<mapsto> p)) k = Some r \<and>
    ip_config q = ip_config r"
  then show "j = k"
    using assms(1) assms(5) [of j q] assms(5) [of k r] by (auto simp: ip_context_ok_def split: if_splits)
qed

section \<open>What the context needs of a platform\<close>

locale raw_ip_platform =
  fixes open_socket :: "raw_ip_socket_config \<Rightarrow> ('w, mctx_error, 's raw_ip_transmit_socket) io"
    and send :: "u64 \<Rightarrow> bytes \<Rightarrow> ('w, 's, raw_ip_send_report) it_op"
    and good :: "'s raw_ip_transmit_socket \<Rightarrow> bool"
  assumes open_safe: "io_safe (open_socket c)"
    and open_good: "open_socket c w = (Inr it, w') \<Longrightarrow> good it"
    and send_good: "good it \<Longrightarrow> send i d it w = (r, it', w') \<Longrightarrow> no_panic r \<and> good it'"
begin

lemma new_Ok:
  assumes "raw_ip_publication_new open_socket i c w = (r, w')"
  shows "no_panic r \<and> (\<forall>p. r = Ok p \<longrightarrow> ip_id p = i \<and> ip_config p = c \<and> good (ip_socket p))"
  using assms io_safeD [OF open_safe] open_good
  by (cases r) (auto simp: raw_ip_publication_new_def mctx_result no_panic_def)

lemma add_outcome:
  assumes ok: "ip_context_ok good ctx" and room: "pt_next_id ctx \<noteq> - 1"
    and run: "ip_add_publication open_socket c ctx w = (r, ctx', w')"
  shows "no_panic r \<and> ip_context_ok good ctx' \<and>
    (\<forall>i. r = Ok i \<longrightarrow> i = pt_next_id ctx \<and> (\<exists>p. ip_get_publication ctx' = (ip_get_publication ctx)(i \<mapsto> p) \<and> ip_config p = c)) \<and>
    (\<forall>f. r = Err f \<longrightarrow> ip_get_publication ctx' = ip_get_publication ctx)"
proof (cases "list_ex (\<lambda>p. ip_config p = c) (pt_publications ctx)")
  case True
  with ok run show ?thesis by (auto simp: ip_add_publication_def)
next
  case False
  have tab: "table_ok ip_id ctx" using ok by (simp add: ip_context_ok_def)
  have other: "ip_config q \<noteq> c" if "ip_get_publication ctx j = Some q" for j q
    using table_get_Some [of ip_id ctx j q] tab that False by (auto simp: ip_get_publication_def list_ex_iff)
  note bump = table_bump_Ok [OF tab room]
  have bumped: "ip_context_ok good (table_bump ctx)"
    using ok bump by (simp add: ip_context_ok_def ip_get_publication_def)
  obtain q w1 where q: "raw_ip_publication_new open_socket (pt_next_id ctx) c w = (q, w1)" by (rule prod.exhaust)
  note new = new_Ok [OF q]
  show ?thesis
  proof (cases q)
    case (Inl f)
    with run False q bump bumped new show ?thesis
      by (auto simp: ip_add_publication_def Let_def ip_get_publication_def no_panic_def)
  next
    case (Inr p)
    with new have p: "ip_id p = pt_next_id ctx" "ip_config p = c" "good (ip_socket p)" by auto
    note push = table_push_Ok [OF tab p(1) room]
    have "ip_context_ok good (table_push (pt_next_id ctx) p (table_bump ctx))"
      using ip_context_ok_upd [OF ok, of "table_push (pt_next_id ctx) p (table_bump ctx)" "pt_next_id ctx" p] push p other
      by (simp add: ip_get_publication_def)
    with run False q Inr push p show ?thesis
      by (auto simp: ip_add_publication_def Let_def ip_get_publication_def no_panic_def)
  qed
qed

lemma remove_outcome:
  assumes "ip_context_ok good ctx"
  shows "\<exists>ctx'. ip_remove_publication i ctx = Ok (ip_get_publication ctx i \<noteq> None, ctx') \<and> ip_context_ok good ctx' \<and>
    ip_get_publication ctx' = (ip_get_publication ctx)(i := None)"
proof -
  have tab: "table_ok ip_id ctx" using assms by (simp add: ip_context_ok_def)
  from table_take_Ok [OF tab, of i] obtain t where t: "table_take ip_id i ctx = Ok (ip_get_publication ctx i, t)"
      "table_ok ip_id t" "ip_get_publication t = (ip_get_publication ctx)(i := None)"
    by (auto simp: ip_get_publication_def)
  then have "ip_context_ok good t" using assms unfolding ip_context_ok_def by (auto split: if_splits)
  with t show ?thesis by (auto simp: ip_remove_publication_def)
qed

lemma send_outcome:
  assumes ok: "ip_context_ok good ctx" and run: "ip_send send i d ctx w = (r, ctx', w')"
  shows "no_panic r \<and> ip_context_ok good ctx' \<and> dom (ip_get_publication ctx') = dom (ip_get_publication ctx)"
proof (cases "ip_get_publication ctx i")
  case None
  with ok run show ?thesis by (auto simp: ip_send_def)
next
  case (Some p)
  have tab: "table_ok ip_id ctx" "good (ip_socket p)" using ok Some by (auto simp: ip_context_ok_def)
  have pid: "ip_id p = i" using table_get_Some [of ip_id ctx i p] tab Some by (simp add: ip_get_publication_def)
  obtain s where s: "send (ip_id p) d (ip_socket p) w = (r, s, w')" "ctx' = table_store i (p\<lparr>ip_socket := s\<rparr>) ctx"
    using run Some by (auto simp: ip_send_def raw_ip_publication_send_def split: prod.splits)
  note out = send_good [OF tab(2) s(1)]
  have st: "table_ok ip_id ctx'" "ip_get_publication ctx' = (ip_get_publication ctx)(i \<mapsto> p\<lparr>ip_socket := s\<rparr>)"
    using table_store_Ok [OF tab(1), of i p "p\<lparr>ip_socket := s\<rparr>"] Some pid by (auto simp: s(2) ip_get_publication_def)
  have "ip_context_ok good ctx'"
    by (rule ip_context_ok_upd [OF ok st]) (use out ok Some in \<open>auto simp: ip_context_ok_def\<close>)
  with out st Some show ?thesis by auto
qed

lemma run_ok: "ip_context_run open_socket send ctx \<Longrightarrow> ip_context_ok good ctx"
proof (induction rule: ip_context_run.induct)
  case ip_new
  show ?case by (simp add: ip_context_ok_def ip_context_new_def ip_get_publication_def)
next
  case (ip_remove ctx i b ctx')
  with remove_outcome [of ctx i] show ?case by auto
qed (blast dest: add_outcome send_outcome)+

end

interpretation linux_raw_ip: raw_ip_platform "open_raw_ip_socket_linux os" "send_ip_datagram_linux os" "it_ok os False"
  by unfold_locales (auto intro: open_raw_ip_safe open_raw_ip_Ok dest: raw_ip_send_outcome)

interpretation macos_raw_ip: raw_ip_platform "open_raw_ip_socket_macos os" "send_ip_datagram_macos os" "it_ok os True"
  by unfold_locales (auto intro: open_raw_ip_safe open_raw_ip_Ok dest: raw_ip_send_outcome_macos)

text \<open>
  C20. In every raw-IP context reachable on Linux through the public operations, identifiers and
  positions agree, configurations are pairwise different, and every cached socket was opened with
  the options its key stands for. Adding hands out the next identifier and changes no other
  publication, removing removes exactly the one named, and no operation panics.
\<close>

theorem raw_ip_context_run_invariant:
  assumes "ip_context_run (open_raw_ip_socket_linux os) (send_ip_datagram_linux os) ctx"
  shows "ip_context_ok (it_ok os False) ctx \<and>
    (\<exists>ctx'. ip_remove_publication i ctx = Ok (ip_get_publication ctx i \<noteq> None, ctx') \<and>
       ip_get_publication ctx' = (ip_get_publication ctx)(i := None)) \<and>
    (\<forall>r ctx' w'. pt_next_id ctx \<noteq> - 1 \<longrightarrow> ip_add_publication (open_raw_ip_socket_linux os) c ctx w = (r, ctx', w') \<longrightarrow>
       no_panic r \<and>
       (\<forall>j. r = Ok j \<longrightarrow> j = pt_next_id ctx \<and>
          (\<exists>p. ip_get_publication ctx' = (ip_get_publication ctx)(j \<mapsto> p) \<and> ip_config p = c)) \<and>
       (\<forall>f. r = Err f \<longrightarrow> ip_get_publication ctx' = ip_get_publication ctx)) \<and>
    no_panic (fst (ip_send (send_ip_datagram_linux os) i d ctx w))"
proof -
  note ok = linux_raw_ip.run_ok [OF assms]
  obtain r ctx' w' where s: "ip_send (send_ip_datagram_linux os) i d ctx w = (r, ctx', w')" by (metis prod_cases3)
  have "no_panic (fst (ip_send (send_ip_datagram_linux os) i d ctx w))"
    using linux_raw_ip.send_outcome [OF ok s] s by simp
  with ok linux_raw_ip.remove_outcome [OF ok, of i] linux_raw_ip.add_outcome [OF ok] show ?thesis by blast
qed

theorem raw_ip_context_run_invariant_witness:
  "\<exists>ctx. ip_context_run (open_raw_ip_socket_linux device_os) (send_ip_datagram_linux device_os) ctx \<and>
     ip_context_ok (it_ok device_os False) ctx \<and> table_count ctx = 1"
proof -
  obtain r ctx w' where add:
    "ip_add_publication (open_raw_ip_socket_linux device_os) sample_ip_config ip_context_new sample_ip_device = (r, ctx, w')"
    by (metis prod_cases3)
  have run: "ip_context_run (open_raw_ip_socket_linux device_os) (send_ip_datagram_linux device_os) ctx"
    by (rule ip_add [OF ip_new _ add]) (simp add: ip_context_new_def table_new_def)
  have "table_count (fst (snd (ip_add_publication (open_raw_ip_socket_linux device_os) sample_ip_config
      ip_context_new sample_ip_device))) = 1" by code_simp
  with raw_ip_context_run_invariant [OF run] run add show ?thesis by auto
qed

end
