(* ===== verification/Macos_Bpf.thy ===== *)
theory Macos_Bpf
  imports Raw_Config Raw_Datagram_Facts Interface_Resolve
begin

text \<open>
  The Berkeley packet filter device that carries full-header IPv6 on macOS
  (\<open>src/raw/macos_bpf.rs\<close>): the interface name and hardware address of an index, the first device that
  can be opened, binding it, and sending a frame. The calls of that platform are an
  interface of their own.
\<close>

section \<open>The calls\<close>

text \<open>
  A link-layer entry of \<open>getifaddrs\<close> is the fields of its \<open>sockaddr_dl\<close> and its bytes; an entry
  with another family or no address is \<open>None\<close>. \<open>bp_writev\<close> writes its buffers as one frame.
\<close>

record sockaddr_dl =
  sdl_index :: u16
  sdl_nlen :: u8
  sdl_alen :: u8
  sdl_len :: u8
  sdl_bytes :: bytes

record ('w, 's) bpf_api =
  bp_indextoname :: "u32 \<Rightarrow> 'w \<Rightarrow> string option"
  bp_getifaddrs :: "'w \<Rightarrow> (io_error + sockaddr_dl option list) \<times> 'w"
  bp_open :: "nat \<Rightarrow> 'w \<Rightarrow> (io_error + 's) \<times> 'w"
  bp_set_interface :: "'s \<Rightarrow> string \<Rightarrow> 'w \<Rightarrow> (io_error + unit) \<times> 'w"
  bp_get_datalink :: "'s \<Rightarrow> 'w \<Rightarrow> (io_error + u32) \<times> 'w"
  bp_set_header_complete :: "'s \<Rightarrow> u32 \<Rightarrow> 'w \<Rightarrow> (io_error + unit) \<times> 'w"
  bp_writev :: "'s \<Rightarrow> bytes list \<Rightarrow> 'w \<Rightarrow> (io_error + nat) \<times> 'w"

record 's macos_bpf_ipv6_socket =
  mb_socket :: 's
  mb_source_mac :: bytes

section \<open>Operations\<close>

definition interface_name_from_index :: "('w, 's) bpf_api \<Rightarrow> u32 \<Rightarrow> ('w, mctx_error, string) io" where
  "interface_name_from_index bp interface_index w =
     (case bp_indextoname bp interface_index w of
        None \<Rightarrow> io_raise (InterfaceDiscoveryFailed
          (''failed to resolve interface index {interface_index} to an interface name'', [FNum (uint interface_index)])) w
      | Some name \<Rightarrow> io_return name w)"

text \<open>\<open>sdl_data\<close> starts at byte 8, with the name and then the hardware address.\<close>

definition link_mac :: "u32 \<Rightarrow> sockaddr_dl \<Rightarrow> bytes option" where
  "link_mac interface_index link =
     (let address_offset = 8 + unat (sdl_nlen link); address_end = address_offset + 6 in
      if ucast (sdl_index link) = interface_index \<and> sdl_alen link = 6 \<and> address_end \<le> unat (sdl_len link)
      then Some (take 6 (drop address_offset (sdl_bytes link))) else None)"

fun scan_links :: "u32 \<Rightarrow> sockaddr_dl option list \<Rightarrow> bytes option" where
  "scan_links interface_index [] = None"
| "scan_links interface_index (entry # entries) =
     (case Option.bind entry (link_mac interface_index) of
        Some mac \<Rightarrow> Some mac
      | None \<Rightarrow> scan_links interface_index entries)"

definition interface_mac :: "('w, 's) bpf_api \<Rightarrow> u32 \<Rightarrow> string \<Rightarrow> ('w, mctx_error, bytes) io" where
  "interface_mac bp interface_index interface_name =
     io_then (io_sys (\<lambda>e. InterfaceDiscoveryFailed (os_error_text e)) (bp_getifaddrs bp)) (\<lambda>entries.
     case scan_links interface_index entries of
       Some mac \<Rightarrow> io_return mac
     | None \<Rightarrow> io_raise (RawUnsupportedLinkType
         (''{} (no six-byte macOS link-layer address)'', [FStr interface_name])))"

text \<open>The devices are tried in order; busy and missing ones are passed over. \<open>EBUSY\<close> is 16.\<close>

definition passed_over :: "io_error \<Rightarrow> bool" where
  "passed_over error \<longleftrightarrow> io_kind error \<noteq> PermissionDenied \<and> (raw_os_error error = Some 16 \<or> io_kind error = NotFound)"

fun try_bpf_devices :: "('w, 's) bpf_api \<Rightarrow> nat list \<Rightarrow> ('w, mctx_error, 's) io" where
  "try_bpf_devices bp [] w =
     (Err (Raised (RawSocketCreateFailed (io_error_new NotFound (''no available /dev/bpf device found'', [])))), w)"
| "try_bpf_devices bp (index # indices) w =
     (case bp_open bp index w of
        (Inr s, w1) \<Rightarrow> (Ok s, w1)
      | (Inl error, w1) \<Rightarrow>
          if passed_over error then try_bpf_devices bp indices w1
          else (Err (Raised (RawSocketCreateFailed error)), w1))"

definition open_available_bpf_device :: "('w, 's) bpf_api \<Rightarrow> ('w, mctx_error, 's) io" where
  "open_available_bpf_device bp = try_bpf_devices bp [0..<256]"

text \<open>\<open>ifr_name\<close> has 16 bytes, one of them for the terminator.\<close>

definition bind_bpf_to_interface :: "('w, 's) bpf_api \<Rightarrow> 's \<Rightarrow> string \<Rightarrow> ('w, mctx_error, unit) io" where
  "bind_bpf_to_interface bp s interface_name =
     (if length interface_name + 1 > 16
      then io_raise (InterfaceDiscoveryFailed (''interface name {} is too long for BPF'', [FStr interface_name]))
      else io_sys RawSocketBindFailed (bp_set_interface bp s interface_name))"

definition ensure_ethernet_datalink :: "string \<Rightarrow> u32 \<Rightarrow> mctx_error + unit" where
  "ensure_ethernet_datalink interface_name datalink =
     (if datalink \<noteq> 1
      then Err (RawUnsupportedLinkType (''{} (macOS BPF DLT {datalink})'', [FStr interface_name, FNum (uint datalink)]))
      else Ok ())"

definition bpf_open :: "('w, 's) bpf_api \<Rightarrow> u32 \<Rightarrow> ('w, mctx_error, 's macos_bpf_ipv6_socket) io" where
  "bpf_open bp interface_index =
     io_then (interface_name_from_index bp interface_index) (\<lambda>interface_name.
     io_then (interface_mac bp interface_index interface_name) (\<lambda>source_mac.
     io_then (open_available_bpf_device bp) (\<lambda>s.
     io_then (bind_bpf_to_interface bp s interface_name) (\<lambda>_.
     io_then (io_sys SocketOptionFailed (bp_get_datalink bp s)) (\<lambda>datalink.
     io_then (io_res (lift_res (ensure_ethernet_datalink interface_name datalink))) (\<lambda>_.
     io_then (io_sys SocketOptionFailed (bp_set_header_complete bp s 1)) (\<lambda>_.
     io_return \<lparr>mb_socket = s, mb_source_mac = source_mac\<rparr>)))))))"

definition bpf_send_ipv6 ::
  "('w, 's) bpf_api \<Rightarrow> 's macos_bpf_ipv6_socket \<Rightarrow> ipv6_addr \<Rightarrow> bytes \<Rightarrow> ('w, mctx_error, nat) io" where
  "bpf_send_ipv6 bp mb g datagram =
     (let header = ethernet_ipv6_header g (mb_source_mac mb);
          expected = length header + length datagram in
      io_then (io_sys RawSendFailed (bp_writev bp (mb_socket mb) [header, datagram])) (\<lambda>n.
      if n \<noteq> expected
      then io_raise (RawSendFailed (io_error_new WriteZero
        (''partial macOS BPF send: wrote {result} of {expected} frame bytes'', [FNum (int n), FNum (int expected)])))
      else io_return (length datagram)))"

section \<open>Facts\<close>

lemma try_bpf_devices_safe: "io_safe (try_bpf_devices bp is)"
proof -
  have "fst (try_bpf_devices bp is w) \<noteq> Inl Panicked" for w
    by (induction bp "is" w rule: try_bpf_devices.induct) (auto split: prod.splits sum.splits)
  then show ?thesis by (simp add: io_safe_def no_panic_def)
qed

lemma bpf_open_safe: "io_safe (bpf_open bp k)"
proof -
  have "io_safe (interface_name_from_index bp k)"
    by (auto simp: io_safe_def interface_name_from_index_def split: option.splits)
  then show ?thesis
    unfolding bpf_open_def interface_mac_def open_available_bpf_device_def bind_bpf_to_interface_def
    by (auto simp del: io_simps intro!: mctx_panic try_bpf_devices_safe split: option.splits)
qed

lemma bpf_send_safe: "io_safe (bpf_send_ipv6 bp mb g d)"
  unfolding bpf_send_ipv6_def Let_def by (auto simp del: io_simps intro!: mctx_panic)

lemma bpf_send_Ok:
  "bpf_send_ipv6 bp mb g d w = (Inr n, w') \<Longrightarrow> n = length d \<and>
   bp_writev bp (mb_socket mb) [ethernet_ipv6_header g (mb_source_mac mb), d] w =
     (Inr (length (ethernet_ipv6_header g (mb_source_mac mb)) + length d), w')"
  by (auto simp: bpf_send_ipv6_def Let_def mctx_result split: if_splits)

lemma scan_links_Some:
  "scan_links k entries = Some mac \<Longrightarrow> \<exists>link. Some link \<in> set entries \<and> link_mac k link = Some mac"
  by (induction entries) (auto split: option.splits bind_splits)

lemma link_mac_length: "link_mac k link = Some mac \<Longrightarrow> unat (sdl_len link) \<le> length (sdl_bytes link) \<Longrightarrow> length mac = 6"
  by (auto simp: link_mac_def Let_def split: if_splits)

end
