(* ===== verification/Raw_Desktop.thy ===== *)
theory Raw_Desktop
  imports Raw_Linux_Facts Raw_Ip_Facts Macos_Bpf
begin

text \<open>
  Raw multicast publications on macOS and Windows (\<open>src/raw/platform.rs\<close>): IPv4 goes through raw
  sockets that are opened per protocol and cached, IPv6 on macOS through a packet filter device. The
  checks, the selection of the interface and the report are those of the Linux model. Resolving an
  address to an interface is the interface \<open>os\<close> of the platform; on Windows that code is not modelled,
  so \<open>resolve\<close> is a parameter there.
\<close>

section \<open>State\<close>

datatype macos_backend = MacRawIpv4 | BpfIpv6

record 's desktop_socket =
  dt_raw_ipv4_selection :: "raw_ipv4_selection option"
  dt_protocol_sockets :: "(i32, 's) socket_cache"
  dt_family :: address_family
  dt_interface_index :: "u32 option"
  dt_local_bind_addr :: "ip_addr option"

record 's macos_socket = "'s desktop_socket" +
  mt_bpf_ipv6 :: "'s macos_bpf_ipv6_socket option"
  mt_backend :: macos_backend

section \<open>Opening\<close>

definition open_raw_ipv4_socket_with_protocol ::
  "('w, 's) os_api \<Rightarrow> raw_ipv4_selection option \<Rightarrow> bool option \<Rightarrow> i32 \<Rightarrow> ('w, mctx_error, 's) io" where
  "open_raw_ipv4_socket_with_protocol os selection loopback protocol =
     io_then (io_sys RawSocketCreateFailed (os_socket os DomainIpv4 TypeRaw protocol)) (\<lambda>s.
     io_then (sock_opt os s (SetNonblocking True)) (\<lambda>_.
     io_then (sock_opt os s (SetHeaderIncludedV4 True)) (\<lambda>_.
     io_then (case selection of
                Some sel \<Rightarrow>
                  io_then (io_sys RawSocketBindFailed
                    (os_call os s (Bind (SockV4 (socket_addr_v4_new (s4_bind_addr sel) 0))))) (\<lambda>_.
                  sock_opt os s (SetMulticastIfV4 (s4_interface_addr sel)))
              | None \<Rightarrow> io_return ()) (\<lambda>_.
     io_then (case loopback of
                Some loop \<Rightarrow> sock_opt os s (SetMulticastLoopV4 loop) | None \<Rightarrow> io_return ()) (\<lambda>_.
     io_return s)))))"

definition open_macos_raw_socket_v4 ::
  "('w, 's) os_api \<Rightarrow> raw_publication_config \<Rightarrow> ('w, mctx_error, 's macos_socket) io" where
  "open_macos_raw_socket_v4 os c =
     io_then (resolve_raw_ipv4_selection os c) (\<lambda>selection.
     io_then (open_raw_ipv4_socket_with_protocol os (Some selection) (rc_loopback c) ipproto_raw) (\<lambda>probe.
     io_return \<lparr>dt_raw_ipv4_selection = Some selection, dt_protocol_sockets = cache_default, dt_family = Ipv4,
       dt_interface_index = Some (s4_interface_index selection),
       dt_local_bind_addr = Some (V4 (s4_bind_addr selection)), mt_bpf_ipv6 = None, mt_backend = MacRawIpv4\<rparr>))"

definition open_macos_route_selected_raw_socket_v4 ::
  "('w, 's) os_api \<Rightarrow> raw_publication_config \<Rightarrow> ('w, mctx_error, 's macos_socket) io" where
  "open_macos_route_selected_raw_socket_v4 os c =
     io_then (open_raw_ipv4_socket_with_protocol os None (rc_loopback c) ipproto_raw) (\<lambda>probe.
     io_return \<lparr>dt_raw_ipv4_selection = None, dt_protocol_sockets = cache_default, dt_family = Ipv4,
       dt_interface_index = None, dt_local_bind_addr = None, mt_bpf_ipv6 = None, mt_backend = MacRawIpv4\<rparr>)"

definition open_macos_raw_socket_v6 ::
  "('w, 's) os_api \<Rightarrow> ('w, 's) bpf_api \<Rightarrow> raw_publication_config \<Rightarrow> ('w, mctx_error, 's macos_socket) io" where
  "open_macos_raw_socket_v6 os bp c =
     io_then (resolve_raw_ipv6_selection os c) (\<lambda>selection.
     if rc_loopback c = Some True
     then io_raise (unsupported ''macOS full-header IPv6 uses BPF and cannot enable local IP multicast loopback'')
     else io_then (bpf_open bp (s6_interface_index selection)) (\<lambda>bpf.
       io_return \<lparr>dt_raw_ipv4_selection = None, dt_protocol_sockets = cache_default, dt_family = Ipv6,
         dt_interface_index = Some (s6_interface_index selection),
         dt_local_bind_addr = map_option V6 (s6_bind_addr selection), mt_bpf_ipv6 = Some bpf, mt_backend = BpfIpv6\<rparr>))"

definition open_raw_transmit_socket_macos ::
  "('w, 's) os_api \<Rightarrow> ('w, 's) bpf_api \<Rightarrow> raw_publication_config \<Rightarrow> ('w, mctx_error, 's macos_socket) io" where
  "open_raw_transmit_socket_macos os bp c =
     io_then (io_res (lift_res (raw_config_validate c))) (\<lambda>_.
     if uses_route_selected_egress c then
       (case configured_socket_family c of
          Some Ipv4 \<Rightarrow> open_macos_route_selected_raw_socket_v4 os c
        | Some Ipv6 \<Rightarrow> io_raise (unsupported ''route-selected full-header IPv6 egress is not supported on macOS'')
        | None \<Rightarrow> io_res (Err Panicked))
     else io_then (io_res (lift_res (infer_socket_family c))) (\<lambda>family.
       case family of
         Ipv4 \<Rightarrow> open_macos_raw_socket_v4 os c
       | Ipv6 \<Rightarrow> open_macos_raw_socket_v6 os bp c))"

definition open_windows_raw_socket_v4 ::
  "('w, 's) os_api \<Rightarrow> (raw_publication_config \<Rightarrow> ('w, mctx_error, raw_ipv4_selection) io) \<Rightarrow> raw_publication_config \<Rightarrow>
   ('w, mctx_error, 's desktop_socket) io" where
  "open_windows_raw_socket_v4 os resolve c =
     io_then (resolve c) (\<lambda>selection.
     io_then (open_raw_ipv4_socket_with_protocol os (Some selection) (rc_loopback c) ipproto_raw) (\<lambda>probe.
     io_return \<lparr>dt_raw_ipv4_selection = Some selection, dt_protocol_sockets = cache_default, dt_family = Ipv4,
       dt_interface_index = Some (s4_interface_index selection),
       dt_local_bind_addr = Some (V4 (s4_bind_addr selection))\<rparr>))"

definition open_raw_transmit_socket_windows ::
  "('w, 's) os_api \<Rightarrow> (raw_publication_config \<Rightarrow> ('w, mctx_error, raw_ipv4_selection) io) \<Rightarrow> raw_publication_config \<Rightarrow>
   ('w, mctx_error, 's desktop_socket) io" where
  "open_raw_transmit_socket_windows os resolve c =
     io_then (io_res (lift_res (raw_config_validate c))) (\<lambda>_.
     if uses_route_selected_egress c
     then io_raise (unsupported ''route-selected raw egress is not supported on Windows'')
     else io_then (io_res (lift_res (infer_socket_family c))) (\<lambda>family.
       case family of
         Ipv4 \<Rightarrow> open_windows_raw_socket_v4 os resolve c
       | Ipv6 \<Rightarrow> io_raise (unsupported ''Windows raw multicast transmit currently supports IPv4 only'')))"

section \<open>Sending\<close>

text \<open>The cache behind the mutex, so the socket is returned as the call leaves it.\<close>

definition cached_raw_ipv4_send_socket ::
  "('w, 's) os_api \<Rightarrow> bool option \<Rightarrow> i32 \<Rightarrow> ('s, 'z) desktop_socket_scheme \<Rightarrow> 'w \<Rightarrow>
   (mctx_error failure + 's) \<times> ('s, 'z) desktop_socket_scheme \<times> 'w" where
  "cached_raw_ipv4_send_socket os loopback protocol dt w =
     (case get_or_try_insert_with protocol
         (open_raw_ipv4_socket_with_protocol os (dt_raw_ipv4_selection dt) loopback protocol)
         (dt_protocol_sockets dt) w of
        (r, cache, w') \<Rightarrow> (r, dt\<lparr>dt_protocol_sockets := cache\<rparr>, w'))"

definition desktop_report ::
  "('s, 'z) desktop_socket_scheme \<Rightarrow> u64 \<Rightarrow> parsed_raw \<Rightarrow> nat \<Rightarrow> outgoing_interface option \<Rightarrow> raw_send_report" where
  "desktop_report dt i parsed bytes_sent outgoing_interface =
     raw_send_report_with_metadata i parsed bytes_sent outgoing_interface (dt_local_bind_addr dt) (dt_interface_index dt)"

definition normalize_macos_ipv4_header_for_hdrincl :: "bytes \<Rightarrow> bytes" where
  "normalize_macos_ipv4_header_for_hdrincl datagram =
     (if length datagram < 20 then datagram
      else datagram[2 := datagram ! 3, 3 := datagram ! 2, 6 := datagram ! 7, 7 := datagram ! 6, 10 := 0, 11 := 0])"

definition prepare_macos_ipv4_header_for_send ::
  "bytes \<Rightarrow> parsed_raw \<Rightarrow> u8 option \<Rightarrow> mctx_error failure + bytes \<times> nat" where
  "prepare_macos_ipv4_header_for_send ip_datagram parsed ttl_override =
     (let n = pr_header_len parsed in
      slice ip_datagram 0 n (\<lambda>src.
      slice (replicate 60 (0 :: u8)) 0 n (\<lambda>_.
      let header = src @ replicate (60 - n) 0;
          header1 = (case ttl_override of Some ttl \<Rightarrow> header[8 := ttl] | None \<Rightarrow> header) in
      Ok (normalize_macos_ipv4_header_for_hdrincl (take n header1) @ drop n header1, n))))"

text \<open>The IPv4 backend of macOS. The two buffers are one datagram.\<close>

definition send_macos_raw_ipv4_datagram ::
  "('w, 's) os_api \<Rightarrow> u64 \<Rightarrow> raw_publication_config \<Rightarrow> parsed_raw \<Rightarrow> bytes \<Rightarrow> 's macos_socket \<Rightarrow> 'w \<Rightarrow>
   (mctx_error failure + raw_send_report) \<times> 's macos_socket \<times> 'w" where
  "send_macos_raw_ipv4_datagram os i c parsed ip_datagram mt w =
     (case prepare_macos_ipv4_header_for_send ip_datagram parsed (rc_ttl c) of
        Inl f \<Rightarrow> (Err f, mt, w)
      | Inr (header, header_len) \<Rightarrow>
          (case cached_raw_ipv4_send_socket os (rc_loopback c) (ucast (pr_protocol parsed)) mt w of
             (Inl f, mt1, w1) \<Rightarrow> (Err f, mt1, w1)
           | (Inr s, mt1, w1) \<Rightarrow>
               (case pr_destination_ip parsed of
                  V6 _ \<Rightarrow> (Err Panicked, mt1, w1)
                | V4 g \<Rightarrow>
                    (case io_then (io_res (slice header 0 header_len (\<lambda>h.
                         slice ip_datagram header_len (length ip_datagram) (\<lambda>rest. Ok (h @ rest))))) (\<lambda>buffers.
                       io_then (io_sys RawSendFailed (os_send_to os s buffers (SockV4 (socket_addr_v4_new g 0)))) (\<lambda>bytes_sent.
                       if bytes_sent \<noteq> length ip_datagram
                       then io_raise (RawSendFailed (io_error_new WriteZero
                         (''partial raw IPv4 send: wrote {bytes_sent} of {} bytes'',
                          [FNum (int bytes_sent), FNum (int (length ip_datagram))])))
                       else io_return (desktop_report mt1 i parsed bytes_sent (rc_outgoing_interface c)))) w1 of
                     (r, w2) \<Rightarrow> (r, mt1, w2)))))"

definition send_macos_raw_ipv6_datagram ::
  "('w, 's) bpf_api \<Rightarrow> 's macos_socket \<Rightarrow> u64 \<Rightarrow> raw_publication_config \<Rightarrow> parsed_raw \<Rightarrow> bytes \<Rightarrow>
   ('w, mctx_error, raw_send_report) io" where
  "send_macos_raw_ipv6_datagram bp mt i c parsed datagram =
     io_then (io_res (lift_res (ipv6_destination_group
       ''macOS BPF IPv6 transmit supports multicast destinations only'' c parsed))) (\<lambda>g.
     io_then (io_res (lift_res (ensure_ipv6_header_is_not_overridden c parsed))) (\<lambda>_.
     case mt_bpf_ipv6 mt of
       None \<Rightarrow> io_res (Err Panicked)
     | Some bpf \<Rightarrow>
         io_then (bpf_send_ipv6 bp bpf g datagram) (\<lambda>bytes_sent.
         io_return (desktop_report mt i parsed bytes_sent (rc_outgoing_interface c)))))"

definition send_raw_ip_datagram_macos ::
  "('w, 's) os_api \<Rightarrow> ('w, 's) bpf_api \<Rightarrow> u64 \<Rightarrow> raw_publication_config \<Rightarrow> bytes \<Rightarrow> 's macos_socket \<Rightarrow> 'w \<Rightarrow>
   (mctx_error failure + raw_send_report) \<times> 's macos_socket \<times> 'w" where
  "send_raw_ip_datagram_macos os bp i c ip_datagram mt w =
     (case and_then (parse_raw_ip_datagram ip_datagram)
             (\<lambda>parsed. and_then (lift_res (validate_datagram_against_config parsed c)) (\<lambda>_. Ok parsed)) of
        Inl f \<Rightarrow> (Err f, mt, w)
      | Inr parsed \<Rightarrow>
          if pr_family parsed \<noteq> dt_family mt then (Err (Raised InvalidRawIpDatagram), mt, w)
          else (case mt_backend mt of
              MacRawIpv4 \<Rightarrow> send_macos_raw_ipv4_datagram os i c parsed ip_datagram mt w
            | BpfIpv6 \<Rightarrow>
                (case send_macos_raw_ipv6_datagram bp mt i c parsed ip_datagram w of (r, w') \<Rightarrow> (r, mt, w'))))"

definition send_raw_ip_datagram_windows ::
  "('w, 's) os_api \<Rightarrow> u64 \<Rightarrow> raw_publication_config \<Rightarrow> bytes \<Rightarrow> 's desktop_socket \<Rightarrow> 'w \<Rightarrow>
   (mctx_error failure + raw_send_report) \<times> 's desktop_socket \<times> 'w" where
  "send_raw_ip_datagram_windows os i c ip_datagram dt w =
     (case and_then (parse_raw_ip_datagram ip_datagram)
             (\<lambda>parsed. and_then (lift_res (validate_datagram_against_config parsed c)) (\<lambda>_. Ok parsed)) of
        Inl f \<Rightarrow> (Err f, dt, w)
      | Inr parsed \<Rightarrow>
          if pr_family parsed \<noteq> Ipv4
          then (Err (Raised (unsupported ''Windows raw multicast transmit currently supports IPv4 only'')), dt, w)
          else (case datagram_with_ttl c parsed ip_datagram of
              Inl f \<Rightarrow> (Err f, dt, w)
            | Inr datagram \<Rightarrow>
                (case pr_destination_ip parsed of
                   V6 _ \<Rightarrow> (Err Panicked, dt, w)
                 | V4 g \<Rightarrow>
                     (case cached_raw_ipv4_send_socket os (rc_loopback c) (ucast (pr_protocol parsed)) dt w of
                        (Inl f, dt1, w1) \<Rightarrow> (Err f, dt1, w1)
                      | (Inr s, dt1, w1) \<Rightarrow>
                          (case os_send_to os s datagram (SockV4 (socket_addr_v4_new g 0)) w1 of
                             (Inl e, w2) \<Rightarrow> (Err (Raised (RawSendFailed e)), dt1, w2)
                           | (Inr bytes_sent, w2) \<Rightarrow>
                               (Ok (desktop_report dt1 i parsed bytes_sent (rc_outgoing_interface c)), dt1, w2))))))"

end
