(* ===== verification/Raw_Desktop_Facts.thy ===== *)
theory Raw_Desktop_Facts
  imports Raw_Desktop
begin

text \<open>
  Properties of raw multicast publications on macOS and Windows: opening establishes an invariant of the
  socket cache and of the packet filter device that every send keeps, no send panics, and a successful
  send handed the whole datagram of the caller to the system.
\<close>

section \<open>The invariant\<close>

text \<open>A socket that some call opened for this protocol with the selection and loopback of the publication.\<close>

definition opened_raw ::
  "('w, 's) os_api \<Rightarrow> raw_ipv4_selection option \<Rightarrow> bool option \<Rightarrow> i32 \<Rightarrow> 's \<Rightarrow> bool" where
  "opened_raw os sel loopback protocol s \<longleftrightarrow>
     (\<exists>w w'. open_raw_ipv4_socket_with_protocol os sel loopback protocol w = (Ok s, w'))"

lemma opened_rawI:
  "open_raw_ipv4_socket_with_protocol os sel loopback protocol w = (Ok s, w') \<Longrightarrow> opened_raw os sel loopback protocol s"
  unfolding opened_raw_def by blast

definition dt_ok :: "('w, 's) os_api \<Rightarrow> raw_publication_config \<Rightarrow> ('s, 'z) desktop_socket_scheme \<Rightarrow> bool" where
  "dt_ok os c dt \<longleftrightarrow> cache_pool.pool_all (opened_raw os (dt_raw_ipv4_selection dt) (rc_loopback c)) (dt_protocol_sockets dt)"

definition mt_ok :: "('w, 's) os_api \<Rightarrow> raw_publication_config \<Rightarrow> 's macos_socket \<Rightarrow> bool" where
  "mt_ok os c mt \<longleftrightarrow> dt_ok os c mt \<and>
     (case mt_backend mt of
        MacRawIpv4 \<Rightarrow> dt_family mt = Ipv4
      | BpfIpv6 \<Rightarrow> dt_family mt = Ipv6 \<and> mt_bpf_ipv6 mt \<noteq> None)"

lemma open_raw_protocol_safe: "io_safe (open_raw_ipv4_socket_with_protocol os sel loopback protocol)"
  unfolding open_raw_ipv4_socket_with_protocol_def
  by (auto simp del: io_simps intro!: mctx_panic split: option.splits)

lemma open_macos_safe: "io_safe (open_raw_transmit_socket_macos os bp c)"
  unfolding open_raw_transmit_socket_macos_def
proof (rule io_safe_then)
  fix u w w' assume "io_res (lift_res (raw_config_validate c)) w = (Inr u, w')"
  then have "raw_config_validate c = Ok u" by (simp add: mctx_result)
  note fam = route_validated_family [OF this]
  have "io_safe (open_macos_raw_socket_v4 os c)" "io_safe (open_macos_route_selected_raw_socket_v4 os c)"
    "io_safe (open_macos_raw_socket_v6 os bp c)"
    unfolding open_macos_raw_socket_v4_def open_macos_route_selected_raw_socket_v4_def open_macos_raw_socket_v6_def
    by (auto simp del: io_simps intro!: mctx_panic ipv4_selection_safe ipv6_selection_safe open_raw_protocol_safe bpf_open_safe)
  then show "io_safe (if uses_route_selected_egress c
      then (case configured_socket_family c of
          Some Ipv4 \<Rightarrow> open_macos_route_selected_raw_socket_v4 os c
        | Some Ipv6 \<Rightarrow> io_raise (unsupported ''route-selected full-header IPv6 egress is not supported on macOS'')
        | None \<Rightarrow> io_res (Err Panicked))
      else io_then (io_res (lift_res (infer_socket_family c))) (\<lambda>family.
        case family of Ipv4 \<Rightarrow> open_macos_raw_socket_v4 os c | Ipv6 \<Rightarrow> open_macos_raw_socket_v6 os bp c))"
    using fam by (auto simp del: io_simps intro!: mctx_panic split: option.splits address_family.splits)
qed (auto simp del: io_simps intro!: mctx_panic)

lemma open_macos_Ok: "open_raw_transmit_socket_macos os bp c w = (Inr mt, w') \<Longrightarrow> mt_ok os c mt"
  by (auto simp: open_raw_transmit_socket_macos_def open_macos_raw_socket_v4_def open_macos_route_selected_raw_socket_v4_def
      open_macos_raw_socket_v6_def mctx_result mt_ok_def dt_ok_def split: if_splits option.splits address_family.splits)

lemma open_windows_Ok: "open_raw_transmit_socket_windows os resolve c w = (Inr dt, w') \<Longrightarrow> dt_ok os c dt"
  by (auto simp: open_raw_transmit_socket_windows_def open_windows_raw_socket_v4_def mctx_result dt_ok_def
      split: if_splits address_family.splits)

section \<open>Sending\<close>

lemma cached_raw_outcome:
  assumes "dt_ok os c dt" "cached_raw_ipv4_send_socket os (rc_loopback c) protocol dt w = (r, dt', w')"
  shows "no_panic r \<and> dt_ok os c dt' \<and> (\<exists>cache. dt' = dt\<lparr>dt_protocol_sockets := cache\<rparr>) \<and>
    (\<forall>s. r = Ok s \<longrightarrow> opened_raw os (dt_raw_ipv4_selection dt) (rc_loopback c) protocol s)"
proof -
  let ?P = "opened_raw os (dt_raw_ipv4_selection dt) (rc_loopback c)"
  let ?new = "open_raw_ipv4_socket_with_protocol os (dt_raw_ipv4_selection dt) (rc_loopback c) protocol"
  obtain cache where q: "get_or_try_insert_with protocol ?new (dt_protocol_sockets dt) w = (r, cache, w')"
      "dt' = dt\<lparr>dt_protocol_sockets := cache\<rparr>"
    using assms(2) by (auto simp: cached_raw_ipv4_send_socket_def split: prod.splits)
  have pool: "cache_pool.pool_all ?P (dt_protocol_sockets dt)" using assms(1) by (simp add: dt_ok_def)
  have out: "cache_pool.pool_all ?P cache \<and> (\<forall>s. r = Ok s \<longrightarrow> ?P protocol s) \<and>
      (\<forall>f. r = Err f \<longrightarrow> cache = dt_protocol_sockets dt \<and> ?new w = (Err f, w'))"
    by (rule cache_pool.request_outcome [OF pool _ q(1)]) (erule opened_rawI)
  have "r \<noteq> Err Panicked" using out io_safeD [OF open_raw_protocol_safe] by metis
  with out q show ?thesis by (auto simp: dt_ok_def no_panic_def)
qed

text \<open>The datagram macOS is given: the configured TTL, and the length and offset in host order.\<close>

definition macos_datagram :: "raw_publication_config \<Rightarrow> bytes \<Rightarrow> bytes" where
  "macos_datagram c d = host_order (case rc_ttl c of Some ttl \<Rightarrow> d[8 := ttl] | None \<Rightarrow> d)"

lemma prepare_for_send_Ok:
  assumes "parse_raw_ip_datagram d = Ok p" and "pr_family p = Ipv4"
  shows "\<exists>h. prepare_macos_ipv4_header_for_send d p (rc_ttl c) = Ok (h, pr_header_len p) \<and> pr_header_len p \<le> length h \<and>
    pr_header_len p \<le> length d \<and> take (pr_header_len p) h @ drop (pr_header_len p) d = macos_datagram c d"
proof -
  let ?n = "pr_header_len p"
  have "?n = ihl_bytes d"
    using assms by (cases rule: raw_parse_cases [OF assms(1)]) (auto simp: fields_v4_def fields_v6_def)
  then have n: "20 \<le> ?n" "?n \<le> length d" "?n \<le> 60"
    using raw_parser.parse_bounds [OF assms(1)] ihl_facts by auto
  define x where "x = (case rc_ttl c of Some ttl \<Rightarrow> d[8 := ttl] | None \<Rightarrow> d)"
  define h where "h = (case rc_ttl c of Some ttl \<Rightarrow> (take ?n d @ replicate (60 - ?n) 0)[8 := ttl] | None \<Rightarrow> take ?n d @ replicate (60 - ?n) 0)"
  have h: "take ?n h = take ?n x" "length h = 60" and x: "length x = length d" "drop ?n x = drop ?n d"
    using n by (auto simp: h_def x_def list_update_append take_update_swap split: option.splits)
  let ?g = "normalize_macos_ipv4_header_for_hdrincl (take ?n h)"
  have g: "length ?g = ?n" "?g = take ?n (host_order x)"
    using n h x by (auto simp: normalize_macos_ipv4_header_for_hdrincl_def host_order_def take_update_swap)
  have "prepare_macos_ipv4_header_for_send d p (rc_ttl c) = Ok (?g @ drop ?n h, ?n)"
    using n by (cases "rc_ttl c") (simp_all add: prepare_macos_ipv4_header_for_send_def Let_def h_def)
  moreover have "drop ?n (host_order x) = drop ?n d" using n x by (simp add: host_order_def)
  then have "take ?n (?g @ drop ?n h) @ drop ?n d = host_order x" using g(1)
    by (simp add: g(2)) (metis append_take_drop_id)
  ultimately show ?thesis using n h(2) g(1) by (auto simp: macos_datagram_def x_def)
qed

text \<open>What a successful send on macOS has done.\<close>

definition macos_sent ::
  "('w, 's) os_api \<Rightarrow> ('w, 's) bpf_api \<Rightarrow> raw_publication_config \<Rightarrow> bytes \<Rightarrow> 's macos_socket \<Rightarrow> 'w \<Rightarrow> parsed_raw \<Rightarrow> bool" where
  "macos_sent os bp c d mt w' p \<longleftrightarrow>
     (case pr_destination_ip p of
        V4 g \<Rightarrow> \<exists>s w1. opened_raw os (dt_raw_ipv4_selection mt) (rc_loopback c) (ucast (pr_protocol p)) s \<and>
          os_send_to os s (macos_datagram c d) (SockV4 (socket_addr_v4_new g 0)) w1 = (Inr (length d), w')
      | V6 g \<Rightarrow> \<exists>bpf w1. mt_bpf_ipv6 mt = Some bpf \<and> ipv6_is_multicast g \<and> effective_ttl c p = pr_ttl_or_hop_limit p \<and>
          bp_writev bp (mb_socket bpf) [ethernet_ipv6_header g (mb_source_mac bpf), d] w1 =
            (Inr (length (ethernet_ipv6_header g (mb_source_mac bpf)) + length d), w'))"

lemma macos_send_v4_effect:
  assumes p: "parse_raw_ip_datagram d = Ok p" "pr_family p = Ipv4" and ok: "mt_ok os c mt"
    and run: "send_macos_raw_ipv4_datagram os i c p d mt w = (r, mt', w')"
  shows "no_panic r \<and> mt_ok os c mt' \<and>
    (\<forall>rep. r = Ok rep \<longrightarrow> rr_bytes_sent rep = length d \<and> rr_publication_id rep = i \<and> macos_sent os bp c d mt w' p)"
proof -
  obtain h where h: "prepare_macos_ipv4_header_for_send d p (rc_ttl c) = Ok (h, pr_header_len p)"
      "pr_header_len p \<le> length h" "pr_header_len p \<le> length d"
      "take (pr_header_len p) h @ drop (pr_header_len p) d = macos_datagram c d"
    using prepare_for_send_Ok [OF p] by blast
  obtain g where g: "pr_destination_ip p = V4 g" using raw_parser.parse_families [OF p(1)] p(2) by auto
  obtain q mt1 w1 where q: "cached_raw_ipv4_send_socket os (rc_loopback c) (ucast (pr_protocol p)) mt w = (q, mt1, w1)"
    by (metis prod_cases3)
  have "dt_ok os c mt" using ok by (simp add: mt_ok_def)
  note out = cached_raw_outcome [OF this q]
  have ok1: "mt_ok os c mt1" using out ok by (auto simp: mt_ok_def split: macos_backend.splits)
  show ?thesis
  proof (cases q)
    case (Inl f)
    then show ?thesis using run h q out ok1 by (auto simp: send_macos_raw_ipv4_datagram_def no_panic_def)
  next
    case (Inr s)
    obtain n w2 where n: "os_send_to os s (macos_datagram c d) (SockV4 (socket_addr_v4_new g 0)) w1 = (n, w2)" by (rule prod.exhaust)
    have "mt' = mt1" using run h g q Inr n by (auto simp: send_macos_raw_ipv4_datagram_def io_then_def io_sys_def split: sum.splits if_splits)
    moreover have "r = (case n of Inl e \<Rightarrow> Inl (Raised (RawSendFailed e)) | Inr k \<Rightarrow>
        if k \<noteq> length d then Inl (Raised (RawSendFailed (io_error_new WriteZero
          (''partial raw IPv4 send: wrote {bytes_sent} of {} bytes'', [FNum (int k), FNum (int (length d))]))))
        else Inr (desktop_report mt1 i p k (rc_outgoing_interface c)))" "w' = w2"
      using run h g q Inr n by (auto simp: send_macos_raw_ipv4_datagram_def io_then_def io_sys_def split: sum.splits if_splits)
    ultimately show ?thesis using ok1 out Inr g n
      by (cases n) (auto simp: macos_sent_def desktop_report_def raw_send_report_with_metadata_def)
  qed
qed

lemma macos_send_v6_effect:
  assumes ok: "mt_ok os c mt" "mt_backend mt = BpfIpv6"
    and run: "send_macos_raw_ipv6_datagram bp mt i c p d w = (r, w')"
  shows "no_panic r \<and>
    (\<forall>rep. r = Ok rep \<longrightarrow> rr_bytes_sent rep = length d \<and> rr_publication_id rep = i \<and> macos_sent os bp c d mt w' p)"
proof (cases r)
  case (Inl f)
  obtain bpf where "mt_bpf_ipv6 mt = Some bpf" using ok by (auto simp: mt_ok_def)
  then have "f \<noteq> Panicked" using run Inl
    by (auto simp: send_macos_raw_ipv6_datagram_def mctx_result io_safeD [OF bpf_send_safe])
  then show ?thesis using Inl by simp
next
  case (Inr rep)
  with run obtain g bpf n w1 where *: "ipv6_destination_group ''macOS BPF IPv6 transmit supports multicast destinations only'' c p = Ok g"
      "ensure_ipv6_header_is_not_overridden c p = Ok ()" "mt_bpf_ipv6 mt = Some bpf"
      "bpf_send_ipv6 bp bpf g d w1 = (Inr n, w')" "rep = desktop_report mt i p n (rc_outgoing_interface c)"
    by (auto simp: send_macos_raw_ipv6_datagram_def mctx_result split: option.splits)
  have "effective_ttl c p = pr_ttl_or_hop_limit p"
    using *(2) by (auto simp: ensure_ipv6_header_is_not_overridden_def effective_ttl_def split: option.splits if_splits)
  moreover have "pr_destination_ip p = V6 g" "ipv6_is_multicast g" using ipv6_group_facts [OF *(1)] by auto
  ultimately show ?thesis using Inr *(3,5) bpf_send_Ok [OF *(4)]
    by (auto simp: macos_sent_def desktop_report_def raw_send_report_with_metadata_def)
qed

lemma macos_send_outcome:
  assumes ok: "mt_ok os c mt" and run: "send_raw_ip_datagram_macos os bp i c d mt w = (r, mt', w')"
  shows "no_panic r \<and> mt_ok os c mt' \<and>
    (\<forall>rep. r = Ok rep \<longrightarrow> (\<exists>p. parse_raw_ip_datagram d = Ok p \<and> pr_family p = dt_family mt \<and>
       validate_datagram_against_config p c = Ok () \<and>
       rr_bytes_sent rep = length d \<and> rr_publication_id rep = i \<and> macos_sent os bp c d mt w' p))"
proof (cases "and_then (parse_raw_ip_datagram d) (\<lambda>parsed. and_then (lift_res (validate_datagram_against_config parsed c)) (\<lambda>_. Ok parsed))")
  case (Inl f)
  have "f \<noteq> Panicked" using Inl raw_parser.parse_safe [of d] by (auto simp: mctx_result no_panic_def)
  then show ?thesis using Inl run ok by (auto simp: send_raw_ip_datagram_macos_def)
next
  case (Inr p)
  then have p: "parse_raw_ip_datagram d = Ok p" "validate_datagram_against_config p c = Ok ()" by (auto simp: mctx_result)
  show ?thesis
  proof (cases "pr_family p = dt_family mt")
    case False
    then show ?thesis using Inr run ok by (auto simp: send_raw_ip_datagram_macos_def)
  next
    case True
    show ?thesis
    proof (cases "mt_backend mt")
      case MacRawIpv4
      then have "send_macos_raw_ipv4_datagram os i c p d mt w = (r, mt', w')" "pr_family p = Ipv4"
        using run Inr True ok by (simp_all add: send_raw_ip_datagram_macos_def mt_ok_def)
      from macos_send_v4_effect [OF p(1) this(2) ok this(1), of bp] p True show ?thesis by auto
    next
      case BpfIpv6
      then have "send_macos_raw_ipv6_datagram bp mt i c p d w = (r, w')" "mt' = mt"
        using run Inr True by (auto simp: send_raw_ip_datagram_macos_def split: prod.splits)
      from macos_send_v6_effect [OF ok BpfIpv6 this(1)] this(2) p True ok show ?thesis by auto
    qed
  qed
qed

text \<open>What a successful send on Windows has done.\<close>

definition windows_sent ::
  "('w, 's) os_api \<Rightarrow> raw_publication_config \<Rightarrow> bytes \<Rightarrow> 's desktop_socket \<Rightarrow> 'w \<Rightarrow> parsed_raw \<Rightarrow> nat \<Rightarrow> bool" where
  "windows_sent os c d dt w' p n \<longleftrightarrow>
     (\<exists>g s d' w1. pr_destination_ip p = V4 g \<and>
        opened_raw os (dt_raw_ipv4_selection dt) (rc_loopback c) (ucast (pr_protocol p)) s \<and>
        os_send_to os s d' (SockV4 (socket_addr_v4_new g 0)) w1 = (Inr n, w') \<and> length d' = length d \<and>
        parse_raw_ip_datagram d' = Ok (p\<lparr>pr_ttl_or_hop_limit := effective_ttl c p\<rparr>) \<and>
        (\<forall>j. j \<notin> {8, 10, 11} \<longrightarrow> d' ! j = d ! j))"

lemma windows_send_outcome:
  assumes ok: "dt_ok os c dt" and run: "send_raw_ip_datagram_windows os i c d dt w = (r, dt', w')"
  shows "no_panic r \<and> dt_ok os c dt' \<and>
    (\<forall>rep. r = Ok rep \<longrightarrow> (\<exists>p. parse_raw_ip_datagram d = Ok p \<and> validate_datagram_against_config p c = Ok () \<and>
       rr_publication_id rep = i \<and> windows_sent os c d dt w' p (rr_bytes_sent rep)))"
proof (cases "and_then (parse_raw_ip_datagram d) (\<lambda>parsed. and_then (lift_res (validate_datagram_against_config parsed c)) (\<lambda>_. Ok parsed))")
  case (Inl f)
  have "f \<noteq> Panicked" using Inl raw_parser.parse_safe [of d] by (auto simp: mctx_result no_panic_def)
  then show ?thesis using Inl run ok by (auto simp: send_raw_ip_datagram_windows_def)
next
  case (Inr p)
  then have p: "parse_raw_ip_datagram d = Ok p" "validate_datagram_against_config p c = Ok ()" by (auto simp: mctx_result)
  show ?thesis
  proof (cases "pr_family p = Ipv4")
    case False
    then show ?thesis using Inr run ok by (auto simp: send_raw_ip_datagram_windows_def)
  next
    case True
    obtain d' where d': "datagram_with_ttl c p d = Ok d'" "length d' = length d"
        "parse_raw_ip_datagram d' = Ok (p\<lparr>pr_ttl_or_hop_limit := effective_ttl c p\<rparr>)"
        "\<forall>j. j \<notin> {8, 10, 11} \<longrightarrow> d' ! j = d ! j"
      using datagram_with_ttl_Ok [OF p(1) True] by blast
    obtain g where g: "pr_destination_ip p = V4 g" using raw_parser.parse_families [OF p(1)] True by auto
    obtain q dt1 w1 where q: "cached_raw_ipv4_send_socket os (rc_loopback c) (ucast (pr_protocol p)) dt w = (q, dt1, w1)"
      by (metis prod_cases3)
    note out = cached_raw_outcome [OF ok q]
    show ?thesis
    proof (cases q)
      case f: (Inl f)
      then show ?thesis using run Inr True d' g q out by (auto simp: send_raw_ip_datagram_windows_def no_panic_def)
    next
      case s: (Inr s)
      obtain n w2 where n: "os_send_to os s d' (SockV4 (socket_addr_v4_new g 0)) w1 = (n, w2)" by (rule prod.exhaust)
      have res: "dt' = dt1" "w' = w2" "r = (case n of Inl e \<Rightarrow> Inl (Raised (RawSendFailed e))
          | Inr k \<Rightarrow> Inr (desktop_report dt1 i p k (rc_outgoing_interface c)))"
        using run Inr True d'(1) g q s n by (auto simp: send_raw_ip_datagram_windows_def split: sum.splits)
      show ?thesis
      proof (cases n)
        case (Inr k)
        then have "windows_sent os c d dt w' p k" unfolding windows_sent_def using out s g n d' res by blast
        then show ?thesis using Inr p out res by (auto simp: desktop_report_def raw_send_report_with_metadata_def)
      qed (use res out in simp)
    qed
  qed
qed


text \<open>An Ethernet interface with index 2 and a packet filter whose first device is busy.\<close>

definition sample_bpf :: "(device, nat) bpf_api" where
  "sample_bpf =
     \<lparr>bp_indextoname = (\<lambda>k w. if k = 2 then Some ''en0'' else None),
      bp_getifaddrs = (\<lambda>w. (Ok [None, Some \<lparr>sdl_index = 2, sdl_nlen = 3, sdl_alen = 6, sdl_len = 20,
          sdl_bytes = replicate 11 0 @ [2, 0, 0, 0, 0, 1] @ replicate 3 0\<rparr>], w)),
      bp_open = (\<lambda>k w. if k = 0 then (Err (io_error_os OtherKind 16), w) else (Ok (100 + k), w)),
      bp_set_interface = (\<lambda>s n w. (Ok (), w)), bp_get_datalink = (\<lambda>s w. (Ok 1, w)),
      bp_set_header_complete = (\<lambda>s v w. (Ok (), w)), bp_writev = (\<lambda>s bs w. device_send (concat bs) w)\<rparr>"

definition sample_resolve :: "raw_publication_config \<Rightarrow> (device, mctx_error, raw_ipv4_selection) io" where
  "sample_resolve c = io_return \<lparr>s4_bind_addr = Ipv4Addr 192 0 2 1, s4_interface_addr = Ipv4Addr 192 0 2 1, s4_interface_index = 2\<rparr>"

definition sample_macos_socket :: "nat macos_socket" where
  "sample_macos_socket = projr (fst (open_raw_transmit_socket_macos device_os sample_bpf sample_raw_config sample_raw_device))"

definition sample_windows_socket :: "nat desktop_socket" where
  "sample_windows_socket = projr (fst (open_raw_transmit_socket_windows device_os sample_resolve sample_raw_config sample_raw_device))"


end
