(* ===== verification/Windows_Resolve.thy ===== *)
theory Windows_Resolve
  imports Interface_Resolve
begin

text \<open>
  Resolution of a local address to an interface index on Windows (\<open>src/platform.rs\<close>): the code asks
  \<open>GetAdaptersAddresses\<close> for the adapters, with a larger buffer as long as the call says
  that the buffer is too small, and then visits the unicast addresses of each adapter. The
  call is a parameter: given the length of the buffer it returns a status, the length it
  wants and the adapters. The loop may not end; not returning is \<open>None\<close>. The passes of the two platforms
  are shown to be instances of one: on the same addresses and indices they return the same.
\<close>

section \<open>Calls that may not return\<close>

type_synonym ('w, 'a) win_op = "'w \<Rightarrow> ((mctx_error failure + 'a) \<times> 'w) option"

definition win_lift :: "('w, mctx_error, 'a) io \<Rightarrow> ('w, 'a) win_op" where
  "win_lift m w = Some (m w)"

definition win_then :: "('w, 'a) win_op \<Rightarrow> ('a \<Rightarrow> ('w, 'b) win_op) \<Rightarrow> ('w, 'b) win_op" where
  "win_then m f w =
     (case m w of
        None \<Rightarrow> None
      | Some (Inl e, w') \<Rightarrow> Some (Inl e, w')
      | Some (Inr x, w') \<Rightarrow> f x w')"

lemma win_lift_eq [mctx_result]: "win_lift m w = Some (r, w') \<longleftrightarrow> m w = (r, w')"
  by (simp add: win_lift_def)

lemma win_then_eq [mctx_result]:
  "win_then m f w = Some (r, w') \<longleftrightarrow>
     (\<exists>e. m w = Some (Inl e, w') \<and> r = Inl e) \<or> (\<exists>x w1. m w = Some (Inr x, w1) \<and> f x w1 = Some (r, w'))"
  by (auto simp: win_then_def split: option.splits sum.splits)

text \<open>An operation that returns, and does not panic.\<close>

definition win_total :: "('w, 'a) win_op \<Rightarrow> bool" where
  "win_total m \<longleftrightarrow> (\<forall>w. \<exists>r w'. m w = Some (r, w') \<and> no_panic r)"

lemma win_total_lift [intro]: "io_safe m \<Longrightarrow> win_total (win_lift m)"
  by (simp add: win_total_def win_lift_def io_safe_def) (metis prod.collapse)

lemma win_total_then [intro]:
  assumes "win_total m" and "\<And>x. win_total (f x)"
  shows "win_total (win_then m f)"
  unfolding win_total_def
proof
  fix w
  obtain r w1 where m: "m w = Some (r, w1)" "no_panic r" using assms(1) unfolding win_total_def by blast
  show "\<exists>r w'. win_then m f w = Some (r, w') \<and> no_panic r"
  proof (cases r)
    case (Inl e)
    with m show ?thesis by (simp add: win_then_def)
  next
    case (Inr x)
    obtain q w2 where "f x w1 = Some (q, w2)" "no_panic q" using assms(2) unfolding win_total_def by blast
    with m Inr show ?thesis by (simp add: win_then_def)
  qed
qed

section \<open>The passes over the adapters\<close>

record win_adapter =
  wad_if_index :: u32
  wad_ipv6_if_index :: u32
  wad_unicast :: "if_sockaddr option list"

record 'w win_api =
  wa_get_adapters :: "u32 \<Rightarrow> 'w \<Rightarrow> (u32 \<times> u32 \<times> win_adapter list) \<times> 'w"

definition ERROR_BUFFER_OVERFLOW :: u32 where "ERROR_BUFFER_OVERFLOW = 111"
definition NO_ERROR :: u32 where "NO_ERROR = 0"
definition INITIAL_BUFFER_SIZE :: u32 where "INITIAL_BUFFER_SIZE = 15000"

fun scan_unicast ::
  "(if_sockaddr \<Rightarrow> bool) \<Rightarrow> (u32 \<Rightarrow> u32 \<Rightarrow> mctx_error) \<Rightarrow> u32 \<Rightarrow> if_sockaddr option list \<Rightarrow> u32 option \<Rightarrow>
   mctx_error + u32 option" where
  "scan_unicast matches ambiguous if_index [] matched_index = Ok matched_index"
| "scan_unicast matches ambiguous if_index (unicast # rest) matched_index =
     (if (case unicast of None \<Rightarrow> False | Some addr \<Rightarrow> matches addr) then
        (case matched_index of
           Some existing \<Rightarrow>
             if existing \<noteq> if_index then Err (ambiguous existing if_index)
             else scan_unicast matches ambiguous if_index rest matched_index
         | None \<Rightarrow> scan_unicast matches ambiguous if_index rest (Some if_index))
      else scan_unicast matches ambiguous if_index rest matched_index)"

fun scan_adapters ::
  "(if_sockaddr \<Rightarrow> bool) \<Rightarrow> (u32 \<Rightarrow> u32 \<Rightarrow> mctx_error) \<Rightarrow> (win_adapter \<Rightarrow> u32) \<Rightarrow> win_adapter list \<Rightarrow> u32 option \<Rightarrow>
   mctx_error + u32 option" where
  "scan_adapters matches ambiguous if_index [] matched_index = Ok matched_index"
| "scan_adapters matches ambiguous if_index (adapter # rest) matched_index =
     and_then (scan_unicast matches ambiguous (if_index adapter) (wad_unicast adapter) matched_index)
       (scan_adapters matches ambiguous if_index rest)"

partial_function (option) adapters_loop ::
  "'w win_api \<Rightarrow> (win_adapter list \<Rightarrow> mctx_error + u32) \<Rightarrow> u32 \<Rightarrow> ('w, u32) win_op" where
  "adapters_loop wa finish buf_len w =
     (case wa_get_adapters wa buf_len w of ((result, buf_len', adapters), w') \<Rightarrow>
        if result = ERROR_BUFFER_OVERFLOW then adapters_loop wa finish buf_len' w'
        else if result \<noteq> NO_ERROR
        then Some (Err (Raised (InterfaceDiscoveryFailed
          (''GetAdaptersAddresses failed with status {result}'', [FNum (uint result)]))), w')
        else Some (lift_res (finish adapters), w'))"

declare adapters_loop.simps [code]

definition resolve_ipv4_interface_index_windows :: "'w win_api \<Rightarrow> ipv4_addr \<Rightarrow> ('w, u32) win_op" where
  "resolve_ipv4_interface_index_windows wa interface =
     adapters_loop wa (\<lambda>adapters.
       and_then (scan_adapters (\<lambda>a. a = IfInet interface) (ambiguous_interface_error_v4 interface) wad_if_index adapters None)
         (ok_or (missing_interface_error_v4 interface))) INITIAL_BUFFER_SIZE"

definition resolve_ipv6_interface_index_windows :: "'w win_api \<Rightarrow> ipv6_addr \<Rightarrow> ('w, u32) win_op" where
  "resolve_ipv6_interface_index_windows wa interface =
     adapters_loop wa (\<lambda>adapters.
       and_then (scan_adapters (\<lambda>a. a = IfInet6 interface) (ambiguous_interface_error_v6 interface) wad_ipv6_if_index adapters None)
         (ok_or (missing_interface_error_v6 interface))) INITIAL_BUFFER_SIZE"

section \<open>One pass for both platforms\<close>

text \<open>The pass over the indices of the interfaces found to carry the address, in order.\<close>

fun settle :: "(u32 \<Rightarrow> u32 \<Rightarrow> mctx_error) \<Rightarrow> u32 list \<Rightarrow> u32 option \<Rightarrow> mctx_error + u32 option" where
  "settle ambiguous [] found = Ok found"
| "settle ambiguous (k # ks) found =
     (case found of
        Some existing \<Rightarrow> if existing \<noteq> k then Err (ambiguous existing k) else settle ambiguous ks found
      | None \<Rightarrow> settle ambiguous ks (Some k))"

lemma settle_append: "settle amb (ks @ ls) m = and_then (settle amb ks m) (settle amb ls)"
  by (induction ks arbitrary: m) (auto split: option.split)

lemma settle_Ok:
  "settle amb ks m = Ok r \<longleftrightarrow> set_option m \<union> set ks = set_option r"
proof (induction ks arbitrary: m)
  case Nil
  then show ?case by (cases m; cases r) auto
next
  case (Cons k ks)
  then show ?case by (cases m; cases r) auto
qed

lemma settle_Err:
  "settle amb ks m = Err e \<Longrightarrow> \<exists>a b. a \<noteq> b \<and> {a, b} \<subseteq> set_option m \<union> set ks \<and> e = amb a b"
  by (induction ks arbitrary: m) (force split: option.splits if_splits)+

definition matching :: "(if_sockaddr \<Rightarrow> bool) \<Rightarrow> if_sockaddr option \<Rightarrow> bool" where
  "matching matches = (\<lambda>unicast. case unicast of None \<Rightarrow> False | Some addr \<Rightarrow> matches addr)"

lemma scan_unicast_settle:
  "scan_unicast m amb k as found = settle amb (replicate (length (filter (matching m) as)) k) found"
  by (induction as arbitrary: found) (auto simp: matching_def split: option.split)

definition adapter_indices :: "(if_sockaddr \<Rightarrow> bool) \<Rightarrow> (win_adapter \<Rightarrow> u32) \<Rightarrow> win_adapter list \<Rightarrow> u32 list" where
  "adapter_indices m index ads =
     concat (map (\<lambda>ad. replicate (length (filter (matching m) (wad_unicast ad))) (index ad)) ads)"

lemma adapter_indices_simps:
  "adapter_indices m index [] = []"
  "adapter_indices m index (ad # ads) =
     replicate (length (filter (matching m) (wad_unicast ad))) (index ad) @ adapter_indices m index ads"
  by (simp_all add: adapter_indices_def)

lemma scan_adapters_settle: "scan_adapters m amb index ads = settle amb (adapter_indices m index ads)"
proof (induction ads)
  case Nil
  show ?case by (rule ext) (simp add: adapter_indices_simps)
next
  case (Cons ad ads)
  show ?case by (rule ext) (simp add: Cons adapter_indices_simps scan_unicast_settle settle_append)
qed

lemma scan_ifaddrs_settle:
  "scan_ifaddrs m amb miss f ifs found =
     and_then (settle amb (filter (\<lambda>k. k \<noteq> 0) (map (\<lambda>i. f (ifa_name i)) (filter (\<lambda>i. matching m (ifa_addr i)) ifs))) found)
       (ok_or miss)"
  by (induction ifs arbitrary: found) (auto simp: matching_def Let_def split: option.split)

section \<open>What resolution returns\<close>

text \<open>The call asks for a larger buffer only finitely often.\<close>

definition finitely_grown :: "'w win_api \<Rightarrow> ('w \<Rightarrow> nat) \<Rightarrow> bool" where
  "finitely_grown wa \<mu> \<longleftrightarrow>
     (\<forall>n w n' ads w'. wa_get_adapters wa n w = ((ERROR_BUFFER_OVERFLOW, n', ads), w') \<longrightarrow> \<mu> w' < \<mu> w)"

lemma adapters_loop_returns:
  assumes "finitely_grown wa \<mu>"
  shows "\<exists>n w1 st n' ads w'. wa_get_adapters wa n w1 = ((st, n', ads), w') \<and> st \<noteq> ERROR_BUFFER_OVERFLOW \<and>
    adapters_loop wa finish buf_len w = Some
      (if st \<noteq> NO_ERROR
       then Err (Raised (InterfaceDiscoveryFailed (''GetAdaptersAddresses failed with status {result}'', [FNum (uint st)])))
       else lift_res (finish ads), w')"
proof (induction "\<mu> w" arbitrary: buf_len w rule: less_induct)
  case less
  obtain st n' ads w' where call: "wa_get_adapters wa buf_len w = ((st, n', ads), w')" by (metis prod_cases3 prod.exhaust)
  show ?case
  proof (cases "st = ERROR_BUFFER_OVERFLOW")
    case True
    then have "\<mu> w' < \<mu> w" using assms call unfolding finitely_grown_def by blast
    from less [OF this, of n'] show ?thesis using call True by (subst adapters_loop.simps) simp
  next
    case False
    with call show ?thesis
      by (subst adapters_loop.simps) (intro exI [of _ buf_len] exI [of _ w] exI [of _ st] exI [of _ n'] exI [of _ ads] exI [of _ w'], simp)
  qed
qed

lemma resolve_windows_total:
  assumes "finitely_grown wa \<mu>"
  shows "win_total (resolve_ipv4_interface_index_windows wa a)" "win_total (resolve_ipv6_interface_index_windows wa b)"
proof -
  have "win_total (adapters_loop wa finish n)" for finish n
    unfolding win_total_def
  proof
    fix w
    from adapters_loop_returns [OF assms, of finish n w]
    show "\<exists>r w'. adapters_loop wa finish n w = Some (r, w') \<and> no_panic r" by fastforce
  qed
  then show "win_total (resolve_ipv4_interface_index_windows wa a)" "win_total (resolve_ipv6_interface_index_windows wa b)"
    by (simp_all add: resolve_ipv4_interface_index_windows_def resolve_ipv6_interface_index_windows_def)
qed

text \<open>An adapter table and an interface list with the same indices and addresses in the same order, none with index zero.\<close>

definition same_interfaces :: "(win_adapter \<Rightarrow> u32) \<Rightarrow> win_adapter list \<Rightarrow> (string \<Rightarrow> u32) \<Rightarrow> ifaddr list \<Rightarrow> bool" where
  "same_interfaces index ads f ifs \<longleftrightarrow>
     concat (map (\<lambda>ad. map (Pair (index ad)) (wad_unicast ad)) ads) = map (\<lambda>i. (f (ifa_name i), ifa_addr i)) ifs \<and>
     (\<forall>ad \<in> set ads. index ad \<noteq> 0)"

lemma replicate_matching:
  "replicate (length (filter p as)) k = map fst (filter (\<lambda>(k, a). p a) (map (Pair k) as))"
  by (induction as) auto

lemma adapter_indices_flat:
  "adapter_indices m index ads =
     map fst (filter (\<lambda>(k, a). matching m a) (concat (map (\<lambda>ad. map (Pair (index ad)) (wad_unicast ad)) ads)))"
  by (induction ads) (simp_all add: adapter_indices_simps replicate_matching)

lemma same_interfaces_indices:
  assumes "same_interfaces index ads f ifs"
  shows "filter (\<lambda>k. k \<noteq> 0) (map (\<lambda>i. f (ifa_name i)) (filter (\<lambda>i. matching m (ifa_addr i)) ifs)) = adapter_indices m index ads"
proof -
  have "adapter_indices m index ads = map (\<lambda>i. f (ifa_name i)) (filter (\<lambda>i. matching m (ifa_addr i)) ifs)"
    using assms by (simp add: adapter_indices_flat same_interfaces_def filter_map comp_def)
  moreover have "\<forall>k \<in> set (adapter_indices m index ads). k \<noteq> 0"
    using assms by (auto simp: adapter_indices_def same_interfaces_def)
  ultimately show ?thesis by (simp add: filter_id_conv)
qed

text \<open>A machine that answers with one adapter table, once the buffer is large enough.\<close>

definition answers_with :: "'w win_api \<Rightarrow> win_adapter list \<Rightarrow> bool" where
  "answers_with wa table \<longleftrightarrow>
     (\<forall>n w st n' ads w'. wa_get_adapters wa n w = ((st, n', ads), w') \<and> st \<noteq> ERROR_BUFFER_OVERFLOW \<longrightarrow>
        st = NO_ERROR \<and> ads = table)"

lemma adapters_loop_answer:
  assumes "finitely_grown wa \<mu>" and "answers_with wa table"
  shows "map_option fst (adapters_loop wa finish buf_len w) = Some (lift_res (finish table))"
proof -
  from adapters_loop_returns [OF assms(1), of finish buf_len w] obtain n w1 st n' ads w' where
    "wa_get_adapters wa n w1 = ((st, n', ads), w')" "st \<noteq> ERROR_BUFFER_OVERFLOW"
    and run: "adapters_loop wa finish buf_len w = Some
      (if st \<noteq> NO_ERROR
       then Err (Raised (InterfaceDiscoveryFailed (''GetAdaptersAddresses failed with status {result}'', [FNum (uint st)])))
       else lift_res (finish ads), w')" by blast
  with assms(2) have "st = NO_ERROR" "ads = table" unfolding answers_with_def by blast+
  with run show ?thesis by simp
qed

text \<open>
  C26. Resolution on Windows returns whenever \<open>GetAdaptersAddresses\<close> asks for a larger buffer only
  finitely often, and it returns what resolution on Unix returns on a machine whose
  interfaces have the same indices and addresses, for both address families: the same index, the same
  ambiguity with the same two indices, or that no interface carries the address.
\<close>

theorem windows_resolves_as_unix:
  assumes "finitely_grown wa \<mu>" and "answers_with wa table" and "os_getifaddrs os v = (Inr ifs, v')"
  shows "(same_interfaces wad_if_index table (os_nametoindex os v') ifs \<longrightarrow>
      map_option fst (resolve_ipv4_interface_index_windows wa a w) = Some (fst (resolve_ipv4_interface_index os a v))) \<and>
    (same_interfaces wad_ipv6_if_index table (os_nametoindex os v') ifs \<longrightarrow>
      map_option fst (resolve_ipv6_interface_index_windows wa b w) = Some (fst (resolve_ipv6_interface_index os b v)))"
  using assms(3)
  by (simp add: resolve_ipv4_interface_index_windows_def resolve_ipv6_interface_index_windows_def
      adapters_loop_answer [OF assms(1,2)] resolve_ipv4_interface_index_def resolve_ipv6_interface_index_def
      io_then_def io_sys_def scan_ifaddrs_settle scan_adapters_settle same_interfaces_indices)

text \<open>A machine with two adapters that needs a larger buffer once; the world counts the calls.\<close>

definition sample_adapters :: "win_adapter list" where
  "sample_adapters =
     [\<lparr>wad_if_index = 4, wad_ipv6_if_index = 5, wad_unicast = [Some (IfInet (Ipv4Addr 192 0 2 1)), Some (IfInet6 1)]\<rparr>,
      \<lparr>wad_if_index = 6, wad_ipv6_if_index = 7, wad_unicast = [Some (IfInet6 2), None]\<rparr>]"

definition sample_windows :: "nat win_api" where
  "sample_windows = \<lparr>wa_get_adapters = (\<lambda>n w.
     if 0 < w then ((ERROR_BUFFER_OVERFLOW, n + 5000, []), w - 1) else ((NO_ERROR, n, sample_adapters), w))\<rparr>"

definition sample_unix :: device where
  "sample_unix = (device_start 0)\<lparr>dev_table :=
     [(\<lparr>ifa_name = ''eth0'', ifa_addr = Some (IfInet (Ipv4Addr 192 0 2 1))\<rparr>, 5), (\<lparr>ifa_name = ''eth0'', ifa_addr = Some (IfInet6 1)\<rparr>, 5),
      (\<lparr>ifa_name = ''eth1'', ifa_addr = Some (IfInet6 2)\<rparr>, 7), (\<lparr>ifa_name = ''eth1'', ifa_addr = None\<rparr>, 7)]\<rparr>"

theorem windows_resolves_as_unix_witness:
  "map_option fst (resolve_ipv6_interface_index_windows sample_windows 2 1) = Some (Ok 7)"
proof -
  have grown: "finitely_grown sample_windows (\<lambda>w. w)"
    by (auto simp: finitely_grown_def sample_windows_def ERROR_BUFFER_OVERFLOW_def NO_ERROR_def split: if_splits)
  have answer: "answers_with sample_windows sample_adapters"
    by (auto simp: answers_with_def sample_windows_def split: if_splits)
  have ifs: "os_getifaddrs device_os sample_unix = (Inr (map fst (dev_table sample_unix)), sample_unix)"
    by (simp add: device_defs)
  have "same_interfaces wad_ipv6_if_index sample_adapters (os_nametoindex device_os sample_unix) (map fst (dev_table sample_unix))"
    by (simp add: same_interfaces_def sample_adapters_def sample_unix_def device_defs)
  moreover have "fst (resolve_ipv6_interface_index device_os 2 sample_unix) = Ok 7" by code_simp
  ultimately show ?thesis using windows_resolves_as_unix [OF grown answer ifs, of "Ipv4Addr 192 0 2 1" 1 2] by simp
qed

end
