(* ===== verification/Raw_Ip_Windows.thy ===== *)
theory Raw_Ip_Windows
  imports Raw_Ip_Context Windows_Resolve
begin

text \<open>
  Generic raw-IP publications on Windows (\<open>src/raw_ip/platform.rs\<close>): IPv4 only, with a cache of sockets
  by protocol, each pinned to the interface with \<open>IP_UNICAST_IF\<close>. Selecting the interface
  may wait for the adapter table forever; from the selection on every call returns. The
  context over these functions is a further interpretation of what it needs of a platform.
\<close>

section \<open>Selecting the interface\<close>

fun resolve_interface_index_windows :: "'w win_api \<Rightarrow> ip_addr \<Rightarrow> ('w, u32) win_op" where
  "resolve_interface_index_windows wa (V4 addr) = resolve_ipv4_interface_index_windows wa addr"
| "resolve_interface_index_windows wa (V6 addr) = resolve_ipv6_interface_index_windows wa addr"

fun resolve_selectors_windows ::
  "'w win_api \<Rightarrow> address_family \<Rightarrow> ip_addr list \<Rightarrow> u32 option \<Rightarrow> ('w, u32 option) win_op" where
  "resolve_selectors_windows wa family [] resolved_index = win_lift (io_return resolved_index)"
| "resolve_selectors_windows wa family (selector # selectors) resolved_index =
     (if \<not> family_matches_ip family selector then win_lift (io_raise OutgoingInterfaceFamilyMismatch)
      else win_then (resolve_interface_index_windows wa selector) (\<lambda>candidate.
        case resolved_index of
          Some existing \<Rightarrow>
            if existing \<noteq> candidate
            then win_lift (io_raise (InterfaceDiscoveryFailed
              (''raw-IP selectors resolve to different interface indices {existing} and {candidate}'',
               [FNum (uint existing), FNum (uint candidate)])))
            else resolve_selectors_windows wa family selectors (Some candidate)
        | None \<Rightarrow> resolve_selectors_windows wa family selectors (Some candidate)))"

definition resolve_selection_windows :: "'w win_api \<Rightarrow> raw_ip_socket_config \<Rightarrow> ('w, raw_ip_selection) win_op" where
  "resolve_selection_windows wa c =
     win_then (win_lift (io_res (lift_res (resolved_family c)))) (\<lambda>family.
     win_then (resolve_selectors_windows wa family
       (List.map_filter id [ri_bind_addr c, ri_interface_addr c]) (ri_interface_index c)) (\<lambda>resolved_index.
     win_then (win_lift (io_res (lift_res (ok_or RawInterfaceRequired resolved_index)))) (\<lambda>interface_index.
     win_lift (io_return \<lparr>is_family = family, is_bind_addr = ri_bind_addr c, is_interface_addr = ri_interface_addr c,
                is_interface_index = interface_index\<rparr>))))"

section \<open>Opening and sending\<close>

text \<open>\<open>u32::to_be\<close> on a little-endian machine: the index in network byte order, as \<open>IP_UNICAST_IF\<close> wants it.\<close>

definition u32_to_be :: "u32 \<Rightarrow> u32" where
  "u32_to_be x =
     push_bit 24 (x AND 0xff) OR push_bit 8 (x AND 0xff00) OR
     (drop_bit 8 x AND 0xff00) OR (drop_bit 24 x AND 0xff)"

text \<open>The handle of a socket fits \<open>usize\<close> on a 64-bit machine.\<close>

definition set_windows_unicast_interface :: "('w, 's) os_api \<Rightarrow> 's \<Rightarrow> u32 \<Rightarrow> ('w, mctx_error, unit) io" where
  "set_windows_unicast_interface os s index = sock_opt os s (SetIpUnicastIf (u32_to_be index))"

definition open_windows_raw_ipv4_socket ::
  "('w, 's) os_api \<Rightarrow> raw_ip_selection \<Rightarrow> i32 \<Rightarrow> ('w, mctx_error, 's) io" where
  "open_windows_raw_ipv4_socket os sel protocol =
     io_then (io_sys RawSocketCreateFailed (os_socket os DomainIpv4 TypeRaw protocol)) (\<lambda>s.
     io_then (sock_opt os s (SetNonblocking True)) (\<lambda>_.
     io_then (sock_opt os s (SetHeaderIncludedV4 True)) (\<lambda>_.
     io_then (case is_bind_addr sel of
         Some (V4 bind_addr) \<Rightarrow> io_sys RawSocketBindFailed
           (os_call os s (Bind (SockV4 (socket_addr_v4_new bind_addr 0))))
       | _ \<Rightarrow> io_return ()) (\<lambda>_.
     io_then (set_windows_unicast_interface os s (is_interface_index sel)) (\<lambda>_.
     io_return s)))))"

text \<open>The rest of the opening, from the selection on.\<close>

definition open_selected_windows ::
  "('w, 's) os_api \<Rightarrow> raw_ip_selection \<Rightarrow> ('w, mctx_error, 's raw_ip_transmit_socket) io" where
  "open_selected_windows os sel =
     (if is_family sel \<noteq> Ipv4
      then io_raise (unsupported
        ''Windows raw-IP transmit supports IPv4 only; raw IPv6 full-header transmit is unavailable'')
      else io_then (open_windows_raw_ipv4_socket os sel ipproto_raw) (\<lambda>probe.
        io_return \<lparr>it_family = is_family sel, it_selection = sel, it_ipv4_socket = None,
                   it_protocol_sockets = CacheIpv4 cache_default\<rparr>))"

definition open_raw_ip_socket_windows ::
  "'w win_api \<Rightarrow> ('w, 's) os_api \<Rightarrow> raw_ip_socket_config \<Rightarrow> ('w, 's raw_ip_transmit_socket) win_op" where
  "open_raw_ip_socket_windows wa os c =
     win_then (resolve_selection_windows wa c) (\<lambda>sel. win_lift (open_selected_windows os sel))"

definition send_ip_datagram_windows ::
  "('w, 's) os_api \<Rightarrow> u64 \<Rightarrow> bytes \<Rightarrow> ('w, 's, raw_ip_send_report) it_op" where
  "send_ip_datagram_windows os i d it =
     it_then (it_lift (io_res (parse_for_socket it d))) (\<lambda>parsed.
     if pi_family parsed \<noteq> Ipv4
     then it_lift (io_raise (unsupported
       ''Windows raw-IP transmit supports IPv4 only; raw IPv6 full-header transmit is unavailable''))
     else
       it_then (it_lift (io_res (lift_res (ipv4_destination parsed)))) (\<lambda>destination.
       it_then (cached_ipv4_protocol_socket (pi_protocol parsed)
         (open_windows_raw_ipv4_socket os (it_selection it) (ucast (pi_protocol parsed)))) (\<lambda>s.
       it_lift (
         io_then (io_sys RawSendFailed (os_send_to os s d (SockV4 destination))) (\<lambda>bytes_sent.
         io_then (io_res (lift_res (ensure_full_send bytes_sent (length d) ''raw IPv4''))) (\<lambda>_.
         io_return (make_raw_ip_send_report it i parsed bytes_sent))))))) it"

section \<open>Selection\<close>

lemma resolve_interface_windows_total:
  "finitely_grown wa \<mu> \<Longrightarrow> win_total (resolve_interface_index_windows wa a)"
  by (cases a) (simp_all add: resolve_windows_total)

lemma resolve_selectors_windows_total:
  "finitely_grown wa \<mu> \<Longrightarrow> win_total (resolve_selectors_windows wa family selectors resolved)"
  by (induction wa family selectors resolved rule: resolve_selectors_windows.induct)
    (auto intro!: win_total_lift win_total_then mctx_panic resolve_interface_windows_total simp del: io_simps split: option.splits)

lemma resolve_selection_windows_total:
  "finitely_grown wa \<mu> \<Longrightarrow> win_total (resolve_selection_windows wa c)"
  unfolding resolve_selection_windows_def
  by (auto intro!: win_total_lift win_total_then mctx_panic resolve_selectors_windows_total simp del: io_simps)

lemma resolve_selectors_windows_Ok:
  assumes "resolve_selectors_windows wa family selectors resolved w = Some (Inr r, w')"
  shows "(\<forall>k. resolved = Some k \<longrightarrow> r = Some k) \<and>
    (\<forall>a \<in> set selectors. family_matches_ip family a \<and>
       (\<exists>w1 w2. resolve_interface_index_windows wa a w1 = Some (Inr (the r), w2)))"
  using assms
proof (induction wa family selectors resolved arbitrary: w rule: resolve_selectors_windows.induct)
  case (2 wa family selector selectors resolved)
  from "2.prems"(1) obtain k w1 where fam: "family_matches_ip family selector"
      and k: "resolve_interface_index_windows wa selector w = Some (Inr k, w1)"
      and rest: "resolved = None \<or> resolved = Some k" "resolve_selectors_windows wa family selectors (Some k) w1 = Some (Inr r, w')"
    by (cases resolved) (auto simp: mctx_result split: if_splits)
  with "2.IH"(1) [OF _ _ rest(2)] "2.IH"(2) [OF _ _ _ rest(2)] have "r = Some k \<and> (\<forall>a \<in> set selectors. family_matches_ip family a \<and>
       (\<exists>w1 w2. resolve_interface_index_windows wa a w1 = Some (Inr (the r), w2)))"
    by (cases resolved) auto
  with k fam rest(1) show ?case by auto
qed (auto simp: mctx_result)

lemma resolve_selection_windows_Ok:
  assumes "resolve_selection_windows wa c w = Some (Inr sel, w')"
  shows "resolved_family c = Ok (is_family sel) \<and> is_bind_addr sel = ri_bind_addr c \<and>
    is_interface_addr sel = ri_interface_addr c \<and> (\<forall>k. ri_interface_index c = Some k \<longrightarrow> is_interface_index sel = k) \<and>
    (\<forall>a \<in> set_option (ri_bind_addr c) \<union> set_option (ri_interface_addr c).
       ip_family a = is_family sel \<and> (\<exists>w1 w2. resolve_interface_index_windows wa a w1 = Some (Inr (is_interface_index sel), w2)))"
proof -
  from assms obtain r where fam: "resolved_family c = Ok (is_family sel)"
      and r: "resolve_selectors_windows wa (is_family sel) (List.map_filter id [ri_bind_addr c, ri_interface_addr c])
        (ri_interface_index c) w = Some (Inr r, w')"
      and sel: "r = Some (is_interface_index sel)" "is_bind_addr sel = ri_bind_addr c" "is_interface_addr sel = ri_interface_addr c"
    by (auto simp: resolve_selection_windows_def mctx_result)
  note out = resolve_selectors_windows_Ok [OF r]
  have "set (List.map_filter id [ri_bind_addr c, ri_interface_addr c]) =
      set_option (ri_bind_addr c) \<union> set_option (ri_interface_addr c)"
    by (cases "ri_bind_addr c"; cases "ri_interface_addr c") (auto simp: map_filter_simps)
  with out fam sel show ?thesis by (auto simp: family_matches_ip_iff)
qed

section \<open>The invariant of a transmit socket\<close>

definition opened_windows :: "('w, 's) os_api \<Rightarrow> raw_ip_selection \<Rightarrow> i32 \<Rightarrow> 's \<Rightarrow> bool" where
  "opened_windows os sel protocol s \<longleftrightarrow> (\<exists>w w'. open_windows_raw_ipv4_socket os sel protocol w = (Ok s, w'))"

lemma opened_windowsI: "open_windows_raw_ipv4_socket os sel protocol w = (Ok s, w') \<Longrightarrow> opened_windows os sel protocol s"
  unfolding opened_windows_def by blast

definition it_ok_windows :: "('w, 's) os_api \<Rightarrow> 's raw_ip_transmit_socket \<Rightarrow> bool" where
  "it_ok_windows os it \<longleftrightarrow> it_family it = Ipv4 \<and> is_family (it_selection it) = Ipv4 \<and>
     (\<exists>cache. it_protocol_sockets it = CacheIpv4 cache \<and>
        cache_pool.pool_all (\<lambda>p. opened_windows os (it_selection it) (ucast p)) cache)"

lemma open_windows_safe: "io_safe (open_windows_raw_ipv4_socket os sel protocol)"
  unfolding open_windows_raw_ipv4_socket_def set_windows_unicast_interface_def
  by (auto simp del: io_simps intro!: mctx_panic split: option.splits ip_addr.splits)

lemma open_selected_safe: "io_safe (open_selected_windows os sel)"
  unfolding open_selected_windows_def by (auto simp del: io_simps intro!: mctx_panic open_windows_safe)

lemma open_selected_Ok:
  "open_selected_windows os sel w = (Inr it, w') \<Longrightarrow> it_ok_windows os it \<and> it_selection it = sel"
  by (auto simp: open_selected_windows_def it_ok_windows_def mctx_result split: if_splits address_family.splits)

lemma open_raw_ip_windows_total:
  assumes "finitely_grown wa \<mu>"
  shows "win_total (open_raw_ip_socket_windows wa os c)"
  unfolding open_raw_ip_socket_windows_def
  using resolve_selection_windows_total [OF assms] open_selected_safe by (intro win_total_then win_total_lift)

lemma cached_windows_outcome:
  assumes "it_ok_windows os it"
    and "cached_ipv4_protocol_socket p (open_windows_raw_ipv4_socket os (it_selection it) (ucast p)) it w = (r, it', w')"
  shows "no_panic r \<and> it_ok_windows os it' \<and> it_selection it' = it_selection it \<and>
    (\<forall>s. r = Ok s \<longrightarrow> opened_windows os (it_selection it) (ucast p) s)"
proof -
  let ?P = "\<lambda>p. opened_windows os (it_selection it) (ucast p)"
  from assms(1) obtain cache where cache: "it_protocol_sockets it = CacheIpv4 cache" "cache_pool.pool_all ?P cache"
    by (auto simp: it_ok_windows_def)
  obtain q c' where q: "get_or_try_insert_with p (open_windows_raw_ipv4_socket os (it_selection it) (ucast p)) cache w = (q, c', w')"
      "r = q" "it' = it\<lparr>it_protocol_sockets := CacheIpv4 c'\<rparr>"
    using assms(2) cache(1) by (auto simp: cached_ipv4_protocol_socket_def split: prod.splits)
  have out: "cache_pool.pool_all ?P c' \<and> (\<forall>s. q = Ok s \<longrightarrow> ?P p s) \<and>
      (\<forall>f. q = Err f \<longrightarrow> c' = cache \<and> open_windows_raw_ipv4_socket os (it_selection it) (ucast p) w = (Err f, w'))"
    by (rule cache_pool.request_outcome [OF cache(2) _ q(1)]) (erule opened_windowsI)
  have "q \<noteq> Err Panicked" using out io_safeD [OF open_windows_safe] by metis
  with out q assms(1) show ?thesis by (auto simp: it_ok_windows_def no_panic_def)
qed

text \<open>The last call of a successful send.\<close>

definition sent_windows :: "('w, 's) os_api \<Rightarrow> raw_ip_selection \<Rightarrow> parsed_raw_ip \<Rightarrow> bytes \<Rightarrow> 'w \<Rightarrow> bool" where
  "sent_windows os sel p d w' \<longleftrightarrow> (\<exists>s w1 a. pi_destination_ip p = V4 a \<and> opened_windows os sel (ucast (pi_protocol p)) s \<and>
     os_send_to os s d (SockV4 (socket_addr_v4_new a 0)) w1 = (Inr (length d), w'))"

lemma send_windows_outcome:
  assumes "it_ok_windows os it" and "send_ip_datagram_windows os i d it w = (r, it', w')"
  shows "no_panic r \<and> it_ok_windows os it' \<and> it_selection it' = it_selection it \<and>
    (\<forall>rep. r = Ok rep \<longrightarrow> (\<exists>p. parse_complete_ip_datagram d = Ok p \<and> pi_family p = Ipv4 \<and>
       report_ok i (it_selection it) p d rep \<and> sent_windows os (it_selection it) p d w'))"
proof (cases "parse_for_socket it d")
  case (Inl f)
  with assms parse_for_socket_safe [of it d] show ?thesis
    by (auto simp: send_ip_datagram_windows_def it_eqs no_panic_def)
next
  case (Inr p)
  note p = parse_for_socket_Ok [OF Inr]
  have fam: "pi_family p = Ipv4" using p assms(1) by (simp add: it_ok_windows_def)
  then obtain a where a: "pi_destination_ip p = V4 a"
    using raw_ip_parser.parse_families [of d p] p by auto
  obtain q it1 w1 where q: "cached_ipv4_protocol_socket (pi_protocol p)
      (open_windows_raw_ipv4_socket os (it_selection it) (ucast (pi_protocol p))) it w = (q, it1, w1)"
    by (metis prod_cases3)
  note out = cached_windows_outcome [OF assms(1) q]
  show ?thesis
  proof (cases q)
    case f: (Inl f)
    with assms(2) q a out Inr fam show ?thesis
      by (auto simp: send_ip_datagram_windows_def it_eqs ipv4_destination_def no_panic_def)
  next
    case s: (Inr s)
    have "io_then (io_sys RawSendFailed (os_send_to os s d (SockV4 (socket_addr_v4_new a 0))))
        (\<lambda>n. io_then (io_res (lift_res (ensure_full_send n (length d) ''raw IPv4'')))
          (\<lambda>_. io_return (make_raw_ip_send_report it i p n))) w1 = (r, w')" "it' = it1"
      using assms(2) q a s Inr fam by (auto simp: send_ip_datagram_windows_def it_eqs ipv4_destination_def)
    from full_send_outcome [OF this(1)] this(2) out s p fam a show ?thesis
      by (auto simp: sent_windows_def report_okI)
  qed
qed

text \<open>The calls that prepare a socket, in the order in which they are issued.\<close>

definition windows_setup_calls :: "raw_ip_selection \<Rightarrow> sock_call list" where
  "windows_setup_calls sel =
     [SetNonblocking True, SetHeaderIncludedV4 True] @
     (case is_bind_addr sel of Some (V4 a) \<Rightarrow> [Bind (SockV4 (socket_addr_v4_new a 0))] | _ \<Rightarrow> []) @
     [SetIpUnicastIf (u32_to_be (is_interface_index sel))]"

lemma open_windows_calls:
  assumes "open_windows_raw_ipv4_socket (logged os) sel protocol wl = (Inr s, wl')"
  shows "snd wl' = snd wl @ map (Pair s) (windows_setup_calls sel)"
  using assms
  by (cases "is_bind_addr sel" rule: option.exhaust; cases "the (is_bind_addr sel)")
    (auto simp: open_windows_raw_ipv4_socket_def set_windows_unicast_interface_def windows_setup_calls_def mctx_result)

text \<open>The bytes of the option are those of the index, most significant first.\<close>

lemma u32_to_be_bytes:
  "map (\<lambda>k. ucast (drop_bit (8 * k) (u32_to_be x)) :: u8) [0..<4] = map (\<lambda>k. ucast (drop_bit (24 - 8 * k) x)) [0..<4]"
proof -
  have ff: "(0xff :: u32) = mask 8" "(0xff00 :: u32) = push_bit 8 (mask 8)" by (simp_all add: mask_eq_exp_minus_1)
  have "ucast (drop_bit n (u32_to_be x)) = (ucast (drop_bit m x) :: u8)"
    if "(n, m) \<in> {(0, 24), (8, 16), (16, 8), (24, 0)}" for n m
    using that unfolding u32_to_be_def ff by (auto intro!: bit_word_eqI simp: bit_simps)
  from this [of 0 24] this [of 8 16] this [of 16 8] this [of 24 0] show ?thesis by (simp add: upt_rec)
qed

section \<open>The context on Windows\<close>

text \<open>When the adapter table is eventually returned, opening is an operation like those of the other platforms.\<close>

definition open_returned ::
  "'w win_api \<Rightarrow> ('w, 's) os_api \<Rightarrow> raw_ip_socket_config \<Rightarrow> ('w, mctx_error, 's raw_ip_transmit_socket) io" where
  "open_returned wa os c w = the (open_raw_ip_socket_windows wa os c w)"

lemma open_raw_ip_windows_Ok:
  assumes "open_raw_ip_socket_windows wa os c w = Some (Inr it, w')"
  shows "it_ok_windows os it"
  using assms by (auto simp: open_raw_ip_socket_windows_def mctx_result dest: open_selected_Ok)

lemma windows_raw_ip:
  assumes "finitely_grown wa \<mu>"
  shows "raw_ip_platform (open_returned wa os) (send_ip_datagram_windows os) (it_ok_windows os)"
proof
  note total = open_raw_ip_windows_total [OF assms, of os, unfolded win_total_def]
  show "io_safe (open_returned wa os c)" for c
    unfolding io_safe_def open_returned_def by (metis total option.sel fst_conv)
  show "it_ok_windows os it" if "open_returned wa os c w = (Inr it, w')" for c w it w'
    using that total [of c] open_raw_ip_windows_Ok [of wa os c w it w'] unfolding open_returned_def by (metis option.sel)
  show "no_panic r \<and> it_ok_windows os it'"
    if "it_ok_windows os it" "send_ip_datagram_windows os i d it w = (r, it', w')" for it i d w r it' w'
    using send_windows_outcome [OF that] by blast
qed


text \<open>A machine with one adapter.\<close>

definition device_windows :: "device win_api" where
  "device_windows = \<lparr>wa_get_adapters = (\<lambda>n w. ((NO_ERROR, n, sample_adapters), w))\<rparr>"

definition sample_windows_socket :: "nat raw_ip_transmit_socket" where
  "sample_windows_socket = projr (fst (the (open_raw_ip_socket_windows device_windows device_os
     (ip_with_interface_addr raw_ip_config_new (V4 (Ipv4Addr 192 0 2 1))) (device_start 1))))"


end
