(* ===== verification/Raw_Platforms.thy ===== *)
theory Raw_Platforms
  imports Raw_Linux_Facts Raw_Desktop_Facts Raw_Ip_Windows
begin

text \<open>
  What the crate is compiled for: the complete opening of raw multicast publications on Windows, the
  fallbacks for other systems, and the capability tables (\<open>src/raw/capabilities.rs\<close>,
  \<open>src/raw_ip/capabilities.rs\<close>), which conditional compilation chooses and which are functions of the
  target here. The tables are shown to agree with what opening does on each target.
\<close>

section \<open>Raw multicast on Windows\<close>

definition resolve_raw_ipv4_selection_windows ::
  "'w win_api \<Rightarrow> raw_publication_config \<Rightarrow> ('w, raw_ipv4_selection) win_op" where
  "resolve_raw_ipv4_selection_windows wa c =
     (let configured = (case rc_bind_addr c of Some (V4 addr) \<Rightarrow> Some addr | _ \<Rightarrow> None);
          selected = (case rc_outgoing_interface c of Some (OutIpv4Addr addr) \<Rightarrow> Some addr | _ \<Rightarrow> None) in
      win_then (win_lift (io_res (lift_res (ok_or RawInterfaceRequired (or_else selected configured))))) (\<lambda>interface_addr.
      let bind_addr = (case configured of Some a \<Rightarrow> a | None \<Rightarrow> interface_addr) in
      win_then (resolve_ipv4_interface_index_windows wa interface_addr) (\<lambda>interface_index.
      win_then (if bind_addr = interface_addr then win_lift (io_return interface_index)
                else resolve_ipv4_interface_index_windows wa bind_addr) (\<lambda>bind_index.
      if bind_index \<noteq> interface_index
      then win_lift (io_raise (InterfaceDiscoveryFailed
        (''raw bind address {bind_addr} resolves to interface index {bind_index}, expected {interface_index}'',
         [FIp (V4 bind_addr), FNum (uint bind_index), FNum (uint interface_index)])))
      else win_lift (io_return \<lparr>s4_bind_addr = bind_addr, s4_interface_addr = interface_addr,
                      s4_interface_index = interface_index\<rparr>)))))"

text \<open>With the resolution in place of the parameter of the rest of the opening.\<close>

definition open_raw_transmit_on_windows ::
  "'w win_api \<Rightarrow> ('w, 's) os_api \<Rightarrow> raw_publication_config \<Rightarrow> ('w, 's desktop_socket) win_op" where
  "open_raw_transmit_on_windows wa os c =
     win_then (win_lift (io_res (lift_res (raw_config_validate c)))) (\<lambda>_.
     if uses_route_selected_egress c
     then win_lift (io_raise (unsupported ''route-selected raw egress is not supported on Windows''))
     else win_then (win_lift (io_res (lift_res (infer_socket_family c)))) (\<lambda>family.
       case family of
         Ipv4 \<Rightarrow> win_then (resolve_raw_ipv4_selection_windows wa c) (\<lambda>selection.
           win_lift (open_windows_raw_socket_v4 os (\<lambda>_. io_return selection) c))
       | Ipv6 \<Rightarrow> win_lift (io_raise (unsupported ''Windows raw multicast transmit currently supports IPv4 only''))))"

section \<open>Other systems\<close>

definition open_raw_transmit_socket_other :: "raw_publication_config \<Rightarrow> mctx_error + 'a" where
  "open_raw_transmit_socket_other c =
     Err (unsupported ''raw multicast transmit is currently implemented on Linux, macOS, and Windows'')"

definition send_raw_ip_datagram_other :: "u64 \<Rightarrow> raw_publication_config \<Rightarrow> bytes \<Rightarrow> mctx_error + raw_send_report" where
  "send_raw_ip_datagram_other i c d =
     Err (unsupported ''raw multicast transmit is currently implemented on Linux, macOS, and Windows'')"

definition open_raw_ip_socket_other :: "raw_ip_socket_config \<Rightarrow> mctx_error + 'a" where
  "open_raw_ip_socket_other c =
     Err (unsupported ''raw-IP transmit is implemented on Linux and macOS for IPv4/IPv6, and on Windows for IPv4 only'')"

definition send_ip_datagram_other :: "u64 \<Rightarrow> bytes \<Rightarrow> mctx_error + raw_ip_send_report" where
  "send_ip_datagram_other i d = Err (unsupported ''raw-IP transmit is unsupported on this platform'')"

definition resolve_ipv6_interface_index_other :: "ipv6_addr \<Rightarrow> mctx_error + u32" where
  "resolve_ipv6_interface_index_other interface =
     Err (InterfaceDiscoveryFailed
       (''IPv6 interface resolution is not implemented on this platform for {interface}'', [FIp (V6 interface)]))"

section \<open>Capabilities\<close>

datatype target_os = TargetLinux | TargetMacos | TargetWindows | TargetOther

datatype raw_ipv6_egress_capability =
  EgressUnsupported | LocalSourceOnly | ExplicitInterfaceFullHeader | RouteSelectedFullHeader

definition ipv6_egress_is_supported :: "raw_ipv6_egress_capability \<Rightarrow> bool" where
  "ipv6_egress_is_supported cap \<longleftrightarrow> cap \<noteq> EgressUnsupported"

definition preserves_full_header :: "raw_ipv6_egress_capability \<Rightarrow> bool" where
  "preserves_full_header cap \<longleftrightarrow> cap \<in> {ExplicitInterfaceFullHeader, RouteSelectedFullHeader}"

record raw_ipv6_egress_capabilities_table =
  ec_explicit_interface :: raw_ipv6_egress_capability
  ec_route_selected :: raw_ipv6_egress_capability

text \<open>The second argument is the feature \<open>raw-route-egress\<close>.\<close>

fun raw_ipv6_egress_capabilities :: "target_os \<Rightarrow> bool \<Rightarrow> raw_ipv6_egress_capabilities_table" where
  "raw_ipv6_egress_capabilities TargetLinux True =
     \<lparr>ec_explicit_interface = ExplicitInterfaceFullHeader, ec_route_selected = RouteSelectedFullHeader\<rparr>"
| "raw_ipv6_egress_capabilities TargetLinux False =
     \<lparr>ec_explicit_interface = ExplicitInterfaceFullHeader, ec_route_selected = EgressUnsupported\<rparr>"
| "raw_ipv6_egress_capabilities TargetMacos _ =
     \<lparr>ec_explicit_interface = ExplicitInterfaceFullHeader, ec_route_selected = EgressUnsupported\<rparr>"
| "raw_ipv6_egress_capabilities _ _ =
     \<lparr>ec_explicit_interface = EgressUnsupported, ec_route_selected = EgressUnsupported\<rparr>"

datatype raw_route_egress_capability = RouteUnsupported | KernelRouteSelected

definition route_is_supported :: "raw_route_egress_capability \<Rightarrow> bool" where
  "route_is_supported cap \<longleftrightarrow> cap = KernelRouteSelected"

record raw_route_egress_capabilities_table =
  rt_ipv4 :: raw_route_egress_capability
  rt_ipv6 :: raw_route_egress_capability

fun for_family :: "raw_route_egress_capabilities_table \<Rightarrow> address_family \<Rightarrow> raw_route_egress_capability" where
  "for_family caps Ipv4 = rt_ipv4 caps"
| "for_family caps Ipv6 = rt_ipv6 caps"

fun raw_route_egress_capabilities :: "target_os \<Rightarrow> raw_route_egress_capabilities_table" where
  "raw_route_egress_capabilities TargetLinux = \<lparr>rt_ipv4 = KernelRouteSelected, rt_ipv6 = KernelRouteSelected\<rparr>"
| "raw_route_egress_capabilities TargetMacos = \<lparr>rt_ipv4 = KernelRouteSelected, rt_ipv6 = RouteUnsupported\<rparr>"
| "raw_route_egress_capabilities _ = \<lparr>rt_ipv4 = RouteUnsupported, rt_ipv6 = RouteUnsupported\<rparr>"

datatype raw_ip_capability = IpUnsupported | FullIpDatagram | KernelRebuiltIpv6Header

record raw_ip_capabilities_table =
  ri_cap_ipv4 :: raw_ip_capability
  ri_cap_ipv6 :: raw_ip_capability

fun raw_ip_capabilities :: "target_os \<Rightarrow> raw_ip_capabilities_table" where
  "raw_ip_capabilities TargetLinux = \<lparr>ri_cap_ipv4 = FullIpDatagram, ri_cap_ipv6 = KernelRebuiltIpv6Header\<rparr>"
| "raw_ip_capabilities TargetMacos = \<lparr>ri_cap_ipv4 = FullIpDatagram, ri_cap_ipv6 = KernelRebuiltIpv6Header\<rparr>"
| "raw_ip_capabilities TargetWindows = \<lparr>ri_cap_ipv4 = FullIpDatagram, ri_cap_ipv6 = IpUnsupported\<rparr>"
| "raw_ip_capabilities TargetOther = \<lparr>ri_cap_ipv4 = IpUnsupported, ri_cap_ipv6 = IpUnsupported\<rparr>"

section \<open>The Windows openers return\<close>

lemma resolve_raw_selection_total:
  "finitely_grown wa \<mu> \<Longrightarrow> win_total (resolve_raw_ipv4_selection_windows wa c)"
  unfolding resolve_raw_ipv4_selection_windows_def Let_def
  by (auto intro!: win_total_lift win_total_then mctx_panic resolve_windows_total simp del: io_simps)

lemma open_raw_transmit_windows_total:
  assumes "finitely_grown wa \<mu>"
  shows "win_total (open_raw_transmit_on_windows wa os c)"
proof -
  have "io_safe (open_windows_raw_socket_v4 os (\<lambda>_. io_return selection) c)" for selection
    unfolding open_windows_raw_socket_v4_def open_raw_ipv4_socket_with_protocol_def
    by (auto simp del: io_simps intro!: mctx_panic split: option.splits)
  then show ?thesis
    unfolding open_raw_transmit_on_windows_def
    by (auto intro!: win_total_lift win_total_then mctx_panic resolve_raw_selection_total [OF assms] simp del: io_simps
        split: address_family.split)
qed

lemma open_raw_transmit_windows_Ok:
  "open_raw_transmit_on_windows wa os c w = Some (Inr dt, w') \<Longrightarrow> dt_ok os c dt"
  by (auto simp: open_raw_transmit_on_windows_def open_windows_raw_socket_v4_def mctx_result dt_ok_def
      split: if_splits address_family.splits)

section \<open>Capabilities and opening\<close>

definition refused :: "mctx_error failure + 'a \<Rightarrow> bool" where
  "refused r \<longleftrightarrow> (\<exists>m. r = Err (Raised (RawPacketTransmitUnsupported m)))"

lemma refused_simps [simp]:
  "\<not> refused (Inr x)" "refused (Inl (Raised e)) \<longleftrightarrow> (\<exists>m. e = RawPacketTransmitUnsupported m)" "\<not> refused (Inl Panicked)"
  by (auto simp: refused_def)

lemma refused_lift [simp]:
  "refused (lift_res r) \<longleftrightarrow> (\<exists>m. r = Inl (RawPacketTransmitUnsupported m))"
  by (cases r) auto

lemma ok_or_Inl [simp]: "ok_or e x = Inl e' \<longleftrightarrow> x = None \<and> e = e'"
  by (cases x) auto

text \<open>Operations that never answer that something is unsupported.\<close>

definition never_refuses :: "('w, mctx_error, 'a) io \<Rightarrow> bool" where
  "never_refuses m \<longleftrightarrow> (\<forall>w. \<not> refused (fst (m w)))"

lemma never_refuses_basic:
  "never_refuses (io_return x)"
  "(\<And>m. e \<noteq> RawPacketTransmitUnsupported m) \<Longrightarrow> never_refuses (io_raise e)"
  "(\<And>e m. conv e \<noteq> RawPacketTransmitUnsupported m) \<Longrightarrow> never_refuses (io_sys conv call)"
  "\<not> refused r \<Longrightarrow> never_refuses (io_res r)"
  by (auto simp: never_refuses_def io_sys_def split: prod.splits sum.splits)

lemma never_refuses_sock_opt: "never_refuses (sock_opt os s call)"
  unfolding sock_opt_def by (rule never_refuses_basic) simp

lemma never_refuses_then:
  assumes "never_refuses m" and "\<And>x. never_refuses (f x)"
  shows "never_refuses (io_then m f)"
  unfolding never_refuses_def
proof
  fix w
  obtain r w' where m: "m w = (r, w')" by (rule prod.exhaust)
  have r: "\<not> refused r" using assms(1) m unfolding never_refuses_def by (metis fst_conv)
  show "\<not> refused (fst (io_then m f w))"
  proof (cases r)
    case (Inl e)
    with r m show ?thesis by (simp add: io_then_def refused_def)
  next
    case (Inr x)
    with m assms(2) show ?thesis by (simp add: io_then_def never_refuses_def)
  qed
qed

lemma never_refuses_when: "never_refuses m \<Longrightarrow> never_refuses (io_when b m)"
  by (cases b) (simp_all add: never_refuses_basic never_refuses_def)

lemma never_refuses_scan:
  assumes "\<And>x y k. amb x y \<noteq> RawPacketTransmitUnsupported k" and "\<And>k. miss \<noteq> RawPacketTransmitUnsupported k"
  shows "never_refuses (\<lambda>w. (lift_res (scan_ifaddrs m amb miss (f w) ifs found), w))"
proof -
  have "scan_ifaddrs m amb miss g ifs found \<noteq> Inl (RawPacketTransmitUnsupported k)" for g k
    using assms by (induction m amb miss g ifs found rule: scan_ifaddrs.induct) (auto simp: Let_def split: option.split)
  then show ?thesis by (simp add: never_refuses_def)
qed

lemma never_refuses_resolve:
  "never_refuses (resolve_ipv4_interface_index os a)" "never_refuses (resolve_ipv6_interface_index os b)"
  unfolding resolve_ipv4_interface_index_def resolve_ipv6_interface_index_def
  by (auto intro!: never_refuses_then never_refuses_basic never_refuses_scan
      simp: ambiguous_interface_error_v4_def ambiguous_interface_error_v6_def
        missing_interface_error_v4_def missing_interface_error_v6_def)

lemmas never_refuses = never_refuses_basic never_refuses_sock_opt never_refuses_then never_refuses_when never_refuses_resolve

lemma never_refuses_linux:
  "never_refuses (open_linux_route_selected_raw_socket_v4 os c)"
  "rc_loopback c \<noteq> Some True \<Longrightarrow> never_refuses (open_linux_route_selected_raw_socket_v6 os c)"
  "rc_loopback c \<noteq> Some True \<Longrightarrow> never_refuses (open_linux_raw_socket_v6 os c)"
proof -
  show "never_refuses (open_linux_route_selected_raw_socket_v4 os c)"
    unfolding open_linux_route_selected_raw_socket_v4_def
    by (auto simp del: io_simps intro!: never_refuses split: option.split)
  show "never_refuses (open_linux_route_selected_raw_socket_v6 os c)" if "rc_loopback c \<noteq> Some True"
    using that unfolding open_linux_route_selected_raw_socket_v6_def route_egress_new_def open_netlink_socket_def
    by (auto simp del: io_simps intro!: never_refuses)
  show "never_refuses (open_linux_raw_socket_v6 os c)" if "rc_loopback c \<noteq> Some True"
    using that unfolding open_linux_raw_socket_v6_def resolve_raw_ipv6_selection_def Let_def
    by (auto simp del: io_simps intro!: never_refuses split: option.split outgoing_interface.split)
qed

lemma never_refuses_bpf: "never_refuses (bpf_open bp k)"
proof -
  have "never_refuses (interface_name_from_index bp k)"
    by (auto simp: never_refuses_def interface_name_from_index_def split: option.split)
  moreover have "never_refuses (try_bpf_devices bp is)" for "is"
  proof -
    have "\<not> refused (fst (try_bpf_devices bp is w))" for w
      by (induction bp "is" w rule: try_bpf_devices.induct) (auto split: prod.splits sum.splits)
    then show ?thesis by (simp add: never_refuses_def)
  qed
  ultimately show ?thesis
    unfolding bpf_open_def interface_mac_def open_available_bpf_device_def bind_bpf_to_interface_def ensure_ethernet_datalink_def
    by (auto simp del: io_simps intro!: never_refuses split: option.split if_splits)
qed

lemma never_refuses_macos:
  "never_refuses (open_macos_route_selected_raw_socket_v4 os c)"
  "rc_loopback c \<noteq> Some True \<Longrightarrow> never_refuses (open_macos_raw_socket_v6 os bp c)"
proof -
  show "never_refuses (open_macos_route_selected_raw_socket_v4 os c)"
    unfolding open_macos_route_selected_raw_socket_v4_def open_raw_ipv4_socket_with_protocol_def
    by (auto simp del: io_simps intro!: never_refuses split: option.split)
  show "never_refuses (open_macos_raw_socket_v6 os bp c)" if "rc_loopback c \<noteq> Some True"
    using that unfolding open_macos_raw_socket_v6_def resolve_raw_ipv6_selection_def Let_def
    by (auto simp del: io_simps intro!: never_refuses never_refuses_bpf split: option.split outgoing_interface.split)
qed

text \<open>The answer of opening a raw multicast publication on a target.\<close>

definition open_answer ::
  "target_os \<Rightarrow> 'w win_api \<Rightarrow> ('w, 's) os_api \<Rightarrow> ('w, 's) bpf_api \<Rightarrow> raw_publication_config \<Rightarrow> 'w \<Rightarrow> (mctx_error failure + unit) option" where
  "open_answer target wa os bp c w =
     (case target of
        TargetLinux \<Rightarrow> Some (and_then (fst (open_raw_transmit_socket os c w)) (\<lambda>_. Ok ()))
      | TargetMacos \<Rightarrow> Some (and_then (fst (open_raw_transmit_socket_macos os bp c w)) (\<lambda>_. Ok ()))
      | TargetWindows \<Rightarrow> map_option (\<lambda>(r, _). and_then r (\<lambda>_. Ok ())) (open_raw_transmit_on_windows wa os c w)
      | TargetOther \<Rightarrow> Some (lift_res (open_raw_transmit_socket_other c)))"

lemma refused_and_then [simp]: "refused (and_then r (\<lambda>_. Ok ())) \<longleftrightarrow> refused r"
  by (cases r) (auto simp: refused_def)

lemma open_answer_returns:
  assumes "finitely_grown wa \<mu>"
  shows "\<exists>r. open_answer target wa os bp c w = Some r"
proof -
  obtain r w' where "open_raw_transmit_on_windows wa os c w = Some (r, w')"
    using open_raw_transmit_windows_total [OF assms] unfolding win_total_def by blast
  then show ?thesis by (cases target) (simp_all add: open_answer_def)
qed

lemma never_refusesD: "never_refuses m \<Longrightarrow> \<not> refused (fst (m w))"
  by (simp add: never_refuses_def)

lemma route_selected_family:
  "raw_config_validate c = Ok () \<Longrightarrow> uses_route_selected_egress c \<Longrightarrow> \<exists>f. configured_socket_family c = Some f"
  by (cases "rc_family c")
    (auto simp: raw_config_validate_def validate_route_selected_egress_def uses_route_selected_egress_def configured_socket_family_def
      mctx_result split: option.splits if_splits)



section \<open>Raw-IP capabilities\<close>

definition ip_capability :: "target_os \<Rightarrow> address_family \<Rightarrow> raw_ip_capability" where
  "ip_capability target f = (case f of Ipv4 \<Rightarrow> ri_cap_ipv4 | Ipv6 \<Rightarrow> ri_cap_ipv6) (raw_ip_capabilities target)"

definition ip_opens ::
  "target_os \<Rightarrow> 'w win_api \<Rightarrow> ('w, 's) os_api \<Rightarrow> raw_ip_socket_config \<Rightarrow> 'w \<Rightarrow> bool" where
  "ip_opens target wa os c w =
     (case target of
        TargetLinux \<Rightarrow> is_ok (fst (open_raw_ip_socket_linux os c w))
      | TargetMacos \<Rightarrow> is_ok (fst (open_raw_ip_socket_macos os c w))
      | TargetWindows \<Rightarrow> (case open_raw_ip_socket_windows wa os c w of None \<Rightarrow> False | Some (r, _) \<Rightarrow> is_ok r)
      | TargetOther \<Rightarrow> is_ok (open_raw_ip_socket_other c :: mctx_error + unit))"

text \<open>A publication of a family can be opened on a target exactly when the table supports it.\<close>

lemma raw_ip_unsupported:
  assumes "ip_capability target f = IpUnsupported" and "resolved_family c = Ok f"
  shows "\<not> ip_opens target wa os c w"
proof (cases target)
  case TargetWindows
  then have f: "f = Ipv6" using assms(1) by (cases f) (simp_all add: ip_capability_def)
  have "r \<noteq> Ok it" if "open_raw_ip_socket_windows wa os c w = Some (r, w')" for r it w'
    using that assms(2) f
    by (auto simp: open_raw_ip_socket_windows_def open_selected_windows_def mctx_result
        dest!: resolve_selection_windows_Ok split: if_splits)
  then show ?thesis using TargetWindows by (auto simp: ip_opens_def is_ok_def split: option.split sum.splits)
qed (use assms(1) in \<open>cases f; simp add: ip_capability_def ip_opens_def open_raw_ip_socket_other_def\<close>)+

lemma raw_ip_supported:
  assumes "ip_capability target f \<noteq> IpUnsupported"
  shows "\<exists>c w. resolved_family c = Ok f \<and> ip_opens target device_windows device_os c w"
proof -
  let ?c4 = "ip_with_interface_addr raw_ip_config_new (V4 (Ipv4Addr 192 0 2 1))"
  let ?w4 = "sample_ip_device\<lparr>dev_table := [(\<lparr>ifa_name = ''en0'', ifa_addr = Some (IfInet (Ipv4Addr 192 0 2 1))\<rparr>, 4)]\<rparr>"
  have "resolved_family ?c4 = Ok Ipv4" "ip_opens TargetLinux device_windows device_os ?c4 ?w4"
    "ip_opens TargetMacos device_windows device_os ?c4 ?w4" "ip_opens TargetWindows device_windows device_os ?c4 ?w4"
    "resolved_family sample_ip_config = Ok Ipv6" "ip_opens TargetLinux device_windows device_os sample_ip_config sample_ip_device"
    "ip_opens TargetMacos device_windows device_os sample_ip_config sample_ip_device"
    by code_simp+
  with assms show ?thesis by (cases target; cases f) (auto simp: ip_capability_def)
qed

lemma raw_ip_capabilities_match_opening:
  "ip_capability target f \<noteq> IpUnsupported \<longleftrightarrow>
     (\<exists>(wa :: device win_api) (os :: (device, nat) os_api) c w. resolved_family c = Ok f \<and> ip_opens target wa os c w)"
  using raw_ip_unsupported raw_ip_supported by metis

end
