(* ===== verification/Publication.thy ===== *)
theory Publication
  imports Publication_Config Interface_Resolve
begin

text \<open>
  A multicast publication (\<open>src/publication.rs\<close>): the socket setup for IPv4 and IPv6, the
  adoption of a socket the caller provides, sending, the cached local address, and the
  per-publication metrics (\<open>PublicationMetricsState\<close>).
\<close>

section \<open>State\<close>

record publication_metrics =
  pm_sequence :: u64
  pm_send_calls :: u64
  pm_packets_sent :: u64
  pm_bytes_sent :: u64
  pm_send_errors :: u64

record 's publication =
  pub_id :: u64
  pub_config :: publication_config
  pub_socket :: 's
  pub_destination :: socket_addr
  pub_cached_local_addr :: "socket_addr option"
  pub_metrics :: publication_metrics

record 's publication_parts =
  parts_id :: u64
  parts_config :: publication_config
  parts_socket :: 's

record send_report =
  sr_publication_id :: u64
  sr_destination :: socket_addr
  sr_local_addr :: "socket_addr option"
  sr_source_addr :: "ip_addr option"
  sr_bytes_sent :: nat

section \<open>Metrics of one publication\<close>

definition metrics_default :: publication_metrics where
  "metrics_default =
     \<lparr>pm_sequence = 0, pm_send_calls = 0, pm_packets_sent = 0, pm_bytes_sent = 0, pm_send_errors = 0\<rparr>"

text \<open>
  Taking the write guard makes the sequence odd and dropping it makes it even again; between
  the two the counters are updated. All additions wrap (\<open>AtomicU64::fetch_add\<close>).
\<close>

definition record_success :: "nat \<Rightarrow> publication_metrics \<Rightarrow> publication_metrics" where
  "record_success bytes_sent m =
     (let m1 = m\<lparr>pm_sequence := pm_sequence m + 1\<rparr>;
          m2 = m1\<lparr>pm_send_calls := pm_send_calls m1 + 1\<rparr>;
          m3 = m2\<lparr>pm_packets_sent := pm_packets_sent m2 + 1\<rparr>;
          m4 = m3\<lparr>pm_bytes_sent := pm_bytes_sent m3 + of_nat bytes_sent\<rparr>
      in m4\<lparr>pm_sequence := pm_sequence m4 + 1\<rparr>)"

definition record_error :: "publication_metrics \<Rightarrow> publication_metrics" where
  "record_error m =
     (let m1 = m\<lparr>pm_sequence := pm_sequence m + 1\<rparr>;
          m2 = m1\<lparr>pm_send_calls := pm_send_calls m1 + 1\<rparr>;
          m3 = m2\<lparr>pm_send_errors := pm_send_errors m2 + 1\<rparr>
      in m3\<lparr>pm_sequence := pm_sequence m3 + 1\<rparr>)"

section \<open>Bind decisions\<close>

definition is_unbound_local_addr :: "socket_addr \<Rightarrow> bool" where
  "is_unbound_local_addr addr \<longleftrightarrow> sock_port addr = 0 \<and> ip_is_unspecified (sock_ip addr)"

fun matches_bind_constraints :: "socket_addr \<Rightarrow> socket_addr \<Rightarrow> bool" where
  "matches_bind_constraints (SockV4 local) (SockV4 requested) \<longleftrightarrow>
     (ipv4_is_unspecified (sa4_ip requested) \<or> sa4_ip requested = sa4_ip local) \<and>
     (sa4_port requested = 0 \<or> sa4_port requested = sa4_port local)"
| "matches_bind_constraints (SockV6 local) (SockV6 requested) \<longleftrightarrow>
     (ipv6_is_unspecified (sa6_ip requested) \<or> sa6_ip requested = sa6_ip local) \<and>
     (sa6_port requested = 0 \<or> sa6_port requested = sa6_port local) \<and>
     (sa6_scope_id requested = 0 \<or> sa6_scope_id requested = sa6_scope_id local)"
| "matches_bind_constraints _ _ \<longleftrightarrow> False"

definition bind_addr_v4 :: "publication_config \<Rightarrow> mctx_error failure + socket_addr_v4 option" where
  "bind_addr_v4 c =
     (if pc_source_addr c = None \<and> pc_source_port c = None then Ok None
      else and_then
        (case pc_source_addr c of
           Some (V4 source_addr) \<Rightarrow> Ok source_addr
         | Some (V6 _) \<Rightarrow> Err Panicked
         | None \<Rightarrow> Ok ipv4_unspecified)
        (\<lambda>ip. Ok (Some (socket_addr_v4_new ip (case pc_source_port c of Some p \<Rightarrow> p | None \<Rightarrow> 0)))))"

definition bind_addr_v6 ::
  "publication_config \<Rightarrow> ipv6_addr option \<Rightarrow> u32 \<Rightarrow> socket_addr_v6 option" where
  "bind_addr_v6 c bind_source bind_scope_id =
     (if bind_source = None \<and> pc_source_port c = None then None
      else Some (socket_addr_v6_new
        (case bind_source of Some a \<Rightarrow> a | None \<Rightarrow> ipv6_unspecified)
        (case pc_source_port c of Some p \<Rightarrow> p | None \<Rightarrow> 0) 0 bind_scope_id))"

definition group_v4 :: "publication_config \<Rightarrow> mctx_error failure + ipv4_addr" where
  "group_v4 c = (case pc_group c of V4 g \<Rightarrow> Ok g | V6 _ \<Rightarrow> Err Panicked)"

definition group_v6 :: "publication_config \<Rightarrow> mctx_error failure + ipv6_addr" where
  "group_v6 c = (case pc_group c of V4 _ \<Rightarrow> Err Panicked | V6 g \<Rightarrow> Ok g)"

definition source_addr_v6 :: "publication_config \<Rightarrow> mctx_error failure + ipv6_addr option" where
  "source_addr_v6 c =
     (case pc_source_addr c of
        Some (V4 _) \<Rightarrow> Err Panicked
      | Some (V6 source) \<Rightarrow> Ok (Some source)
      | None \<Rightarrow> Ok None)"

definition interface_addr_v6 :: "publication_config \<Rightarrow> mctx_error failure + ipv6_addr option" where
  "interface_addr_v6 c =
     (case pc_outgoing_interface c of
        Some (OutIpv4Addr _) \<Rightarrow> Err Panicked
      | Some (OutIpv6Addr interface) \<Rightarrow> Ok (Some interface)
      | Some (OutIpv6Index _) \<Rightarrow> Ok None
      | None \<Rightarrow> Ok None)"

definition explicit_interface_index_v6 ::
  "('w, 's) os_api \<Rightarrow> publication_config \<Rightarrow> ipv6_addr option \<Rightarrow> ('w, mctx_error, u32 option) io" where
  "explicit_interface_index_v6 os c interface_addr =
     (case pc_outgoing_interface c of
        Some (OutIpv4Addr _) \<Rightarrow> io_res (Err Panicked)
      | Some (OutIpv6Index index) \<Rightarrow> io_return (Some index)
      | Some (OutIpv6Addr _) \<Rightarrow>
          (case interface_addr of
             None \<Rightarrow> io_return None
           | Some a \<Rightarrow> io_then (resolve_ipv6_interface_index os a) (\<lambda>k. io_return (Some k)))
      | None \<Rightarrow> io_return None)"

section \<open>Socket setup\<close>

definition needs_bind ::
  "('w, 's) os_api \<Rightarrow> 's \<Rightarrow> socket_addr \<Rightarrow> ('w, mctx_error, bool) io" where
  "needs_bind os s bind_addr =
     io_then (io_try (os_local_addr os s)) (\<lambda>r. case r of
       Ok (Some local_addr) \<Rightarrow>
         if is_unbound_local_addr local_addr then io_return True
         else if matches_bind_constraints local_addr bind_addr then io_return False
         else io_raise (SocketBindFailed (io_error_new AddrInUse
           (''existing socket local address {local_addr} does not satisfy requested bind constraints {bind_addr}'',
            [FAddr local_addr, FAddr bind_addr])))
     | Ok None \<Rightarrow> io_raise ExistingSocketAddressFamilyMismatch
     | Err _ \<Rightarrow> io_return True)"

definition bind_if_needed ::
  "('w, 's) os_api \<Rightarrow> 's \<Rightarrow> socket_addr \<Rightarrow> ('w, mctx_error, unit) io" where
  "bind_if_needed os s bind_addr =
     io_then (needs_bind os s bind_addr) (\<lambda>needs.
     io_when needs (io_sys SocketBindFailed (os_call os s (Bind bind_addr))))"

definition validate_existing_socket ::
  "('w, 's) os_api \<Rightarrow> 's \<Rightarrow> publication_config \<Rightarrow> ('w, mctx_error, unit) io" where
  "validate_existing_socket os s c =
     io_then (io_try (os_local_addr os s)) (\<lambda>r. case r of
       Err _ \<Rightarrow> io_return ()
     | Ok (Some (SockV4 local_v4)) \<Rightarrow>
         if config_is_ipv6 c then io_raise ExistingSocketAddressFamilyMismatch
         else if is_unbound_local_addr (SockV4 local_v4) then io_return ()
         else
           io_then (case pc_source_addr c of
               Some (V4 expected) \<Rightarrow>
                 if sa4_ip local_v4 \<noteq> expected
                 then io_raise (ExistingSocketAddressMismatch (V4 expected) (V4 (sa4_ip local_v4)))
                 else io_return ()
             | _ \<Rightarrow> io_return ()) (\<lambda>_.
           case pc_source_port c of
             Some expected \<Rightarrow>
               if sa4_port local_v4 \<noteq> expected
               then io_raise (ExistingSocketPortMismatch expected (sa4_port local_v4))
               else io_return ()
           | None \<Rightarrow> io_return ())
     | Ok (Some (SockV6 local_v6)) \<Rightarrow>
         if config_is_ipv4 c then io_raise ExistingSocketAddressFamilyMismatch
         else if is_unbound_local_addr (SockV6 local_v6) then io_return ()
         else
           io_then (case pc_source_addr c of
               Some (V6 expected) \<Rightarrow>
                 if sa6_ip local_v6 \<noteq> expected
                 then io_raise (ExistingSocketAddressMismatch (V6 expected) (V6 (sa6_ip local_v6)))
                 else io_return ()
             | _ \<Rightarrow> io_return ()) (\<lambda>_.
           case pc_source_port c of
             Some expected \<Rightarrow>
               if sa6_port local_v6 \<noteq> expected
               then io_raise (ExistingSocketPortMismatch expected (sa6_port local_v6))
               else io_return ()
           | None \<Rightarrow> io_return ())
     | Ok None \<Rightarrow> io_raise ExistingSocketAddressFamilyMismatch)"

definition configure_socket_v4 ::
  "('w, 's) os_api \<Rightarrow> 's \<Rightarrow> publication_config \<Rightarrow> ('w, mctx_error, socket_addr) io" where
  "configure_socket_v4 os s c =
     io_then (io_res (bind_addr_v4 c)) (\<lambda>bind_addr.
     io_then (case bind_addr of Some a \<Rightarrow> bind_if_needed os s (SockV4 a) | None \<Rightarrow> io_return ()) (\<lambda>_.
     io_then (case pc_outgoing_interface c of
                Some (OutIpv4Addr interface) \<Rightarrow> sock_opt os s (SetMulticastIfV4 interface)
              | _ \<Rightarrow> io_return ()) (\<lambda>_.
     io_then (sock_opt os s (SetMulticastLoopV4 (pc_loopback c))) (\<lambda>_.
     io_then (sock_opt os s (SetMulticastTtlV4 (pc_ttl c))) (\<lambda>_.
     io_then (io_res (group_v4 c)) (\<lambda>g.
     let destination = socket_addr_v4_new g (pc_dst_port c) in
     io_then (io_sys SocketConnectFailed (os_call os s (Connect (SockV4 destination)))) (\<lambda>_.
     io_return (SockV4 destination))))))))"

text \<open>
  The IPv6 setup first settles the interface: the index of an explicit selector, the index
  of an explicit source address, and the check that the two agree.
\<close>

definition source_interface_index_v6 ::
  "('w, 's) os_api \<Rightarrow> ipv6_addr option \<Rightarrow> ipv6_addr option \<Rightarrow> u32 option \<Rightarrow> ('w, mctx_error, u32 option) io" where
  "source_interface_index_v6 os explicit_source interface_addr explicit_interface_index =
     (case explicit_source of
        Some source \<Rightarrow>
          if interface_addr = Some source then io_return explicit_interface_index
          else if ipv6_is_unicast_link_local source then
            (case explicit_interface_index of
               Some interface_index \<Rightarrow> io_return (Some interface_index)
             | None \<Rightarrow> io_then (resolve_ipv6_interface_index os source) (\<lambda>k. io_return (Some k)))
          else io_then (resolve_ipv6_interface_index os source) (\<lambda>k. io_return (Some k))
      | None \<Rightarrow> io_return None)"

definition check_source_interface_v6 ::
  "ipv6_addr option \<Rightarrow> u32 option \<Rightarrow> u32 option \<Rightarrow> mctx_error + unit" where
  "check_source_interface_v6 explicit_source source_interface_index explicit_interface_index =
     (case (explicit_source, source_interface_index, explicit_interface_index) of
        (Some source, Some si, Some oi) \<Rightarrow>
          if si \<noteq> oi then Err (Ipv6SourceInterfaceMismatch (V6 source) si oi) else Ok ()
      | _ \<Rightarrow> Ok ())"

definition bind_scope_id_v6 :: "ipv6_addr option \<Rightarrow> u32 option \<Rightarrow> mctx_error + u32" where
  "bind_scope_id_v6 bind_source effective_interface_index =
     (case bind_source of
        Some source \<Rightarrow>
          if ipv6_is_unicast_link_local source
          then ok_or (InterfaceDiscoveryFailed
                 (''failed to determine interface index for link-local IPv6 address {source}'', [FIp (V6 source)]))
                 effective_interface_index
          else Ok 0
      | None \<Rightarrow> Ok 0)"

definition destination_scope_id_v6 ::
  "publication_config \<Rightarrow> ipv6_addr \<Rightarrow> u32 option \<Rightarrow> mctx_error + u32" where
  "destination_scope_id_v6 c g effective_interface_index =
     (case config_ipv6_scope c of
        Some InterfaceLocal \<Rightarrow> ok_or Ipv6ScopedMulticastRequiresInterface effective_interface_index
      | Some LinkLocal \<Rightarrow> ok_or Ipv6ScopedMulticastRequiresInterface effective_interface_index
      | _ \<Rightarrow> Ok (ipv6_destination_scope_id g
              (case effective_interface_index of Some k \<Rightarrow> k | None \<Rightarrow> 0)))"

definition configure_socket_v6 ::
  "('w, 's) os_api \<Rightarrow> 's \<Rightarrow> publication_config \<Rightarrow> ('w, mctx_error, socket_addr) io" where
  "configure_socket_v6 os s c =
     io_then (io_res (group_v6 c)) (\<lambda>g.
     io_then (io_res (source_addr_v6 c)) (\<lambda>explicit_source.
     io_then (io_res (interface_addr_v6 c)) (\<lambda>interface_addr.
     io_then (explicit_interface_index_v6 os c interface_addr) (\<lambda>explicit_interface_index.
     io_then (source_interface_index_v6 os explicit_source interface_addr explicit_interface_index)
       (\<lambda>source_interface_index.
     io_then (io_res (lift_res
       (check_source_interface_v6 explicit_source source_interface_index explicit_interface_index))) (\<lambda>_.
     let effective_interface_index = or_else explicit_interface_index source_interface_index;
         bind_source = or_else explicit_source interface_addr in
     io_then (io_res (lift_res (bind_scope_id_v6 bind_source effective_interface_index))) (\<lambda>bind_scope_id.
     io_then (case bind_addr_v6 c bind_source bind_scope_id of
                Some bind_addr \<Rightarrow> bind_if_needed os s (SockV6 bind_addr)
              | None \<Rightarrow> io_return ()) (\<lambda>_.
     io_then (case effective_interface_index of
                Some interface_index \<Rightarrow> sock_opt os s (SetMulticastIfV6 interface_index)
              | None \<Rightarrow> io_return ()) (\<lambda>_.
     io_then (sock_opt os s (SetMulticastLoopV6 (pc_loopback c))) (\<lambda>_.
     io_then (sock_opt os s (SetMulticastHopsV6 (pc_ttl c))) (\<lambda>_.
     io_then (io_res (lift_res (destination_scope_id_v6 c g effective_interface_index)))
       (\<lambda>destination_scope_id.
     let destination = socket_addr_v6_new g (pc_dst_port c) 0 destination_scope_id in
     io_then (io_sys SocketConnectFailed (os_call os s (Connect (SockV6 destination)))) (\<lambda>_.
     io_return (SockV6 destination))))))))))))))"

definition configure_socket ::
  "('w, 's) os_api \<Rightarrow> 's \<Rightarrow> publication_config \<Rightarrow> bool \<Rightarrow> ('w, mctx_error, socket_addr) io" where
  "configure_socket os s c existing_socket =
     io_then (io_when existing_socket (validate_existing_socket os s c)) (\<lambda>_.
     io_then (sock_opt os s (SetNonblocking True)) (\<lambda>_.
     case config_family c of
       Ipv4 \<Rightarrow> configure_socket_v4 os s c
     | Ipv6 \<Rightarrow>
         io_then (io_when (\<not> existing_socket) (sock_opt os s (SetOnlyV6 True))) (\<lambda>_.
         configure_socket_v6 os s c)))"

section \<open>Construction\<close>

definition ipproto_udp :: i32 where "ipproto_udp = 17"

definition publication_new ::
  "('w, 's) os_api \<Rightarrow> u64 \<Rightarrow> publication_config \<Rightarrow> ('w, mctx_error, 's publication) io" where
  "publication_new os i c =
     io_then (io_res (lift_res (config_validate c))) (\<lambda>_.
     let domain = (case config_family c of Ipv4 \<Rightarrow> DomainIpv4 | Ipv6 \<Rightarrow> DomainIpv6) in
     io_then (io_sys SocketCreateFailed (os_socket os domain TypeDgram ipproto_udp)) (\<lambda>s.
     io_then (configure_socket os s c False) (\<lambda>destination.
     io_return \<lparr>pub_id = i, pub_config = c, pub_socket = s, pub_destination = destination,
       pub_cached_local_addr = None, pub_metrics = metrics_default\<rparr>)))"

definition publication_new_with_socket ::
  "('w, 's) os_api \<Rightarrow> u64 \<Rightarrow> publication_config \<Rightarrow> 's \<Rightarrow> ('w, mctx_error, 's publication) io" where
  "publication_new_with_socket os i c s =
     io_then (io_res (lift_res (config_validate c))) (\<lambda>_.
     io_then (configure_socket os s c True) (\<lambda>destination.
     io_return \<lparr>pub_id = i, pub_config = c, pub_socket = s, pub_destination = destination,
       pub_cached_local_addr = None, pub_metrics = metrics_default\<rparr>))"

text \<open>\<open>Socket::from(UdpSocket)\<close> takes over the handle unchanged.\<close>

definition publication_new_with_udp_socket ::
  "('w, 's) os_api \<Rightarrow> u64 \<Rightarrow> publication_config \<Rightarrow> 's \<Rightarrow> ('w, mctx_error, 's publication) io" where
  "publication_new_with_udp_socket os i c s = publication_new_with_socket os i c s"

section \<open>Accessors\<close>

definition destination_v4 :: "'s publication \<Rightarrow> mctx_error + socket_addr_v4" where
  "destination_v4 p = (case pub_destination p of
     SockV4 d \<Rightarrow> Ok d | SockV6 _ \<Rightarrow> Err ExistingSocketAddressFamilyMismatch)"

definition destination_v6 :: "'s publication \<Rightarrow> mctx_error + socket_addr_v6" where
  "destination_v6 p = (case pub_destination p of
     SockV4 _ \<Rightarrow> Err ExistingSocketAddressFamilyMismatch | SockV6 d \<Rightarrow> Ok d)"

definition socket_mut :: "'s publication \<Rightarrow> 's \<times> 's publication" where
  "socket_mut p = (pub_socket p, p\<lparr>pub_cached_local_addr := None\<rparr>)"

definition into_socket :: "'s publication \<Rightarrow> 's" where
  "into_socket p = pub_socket p"

definition into_parts :: "'s publication \<Rightarrow> 's publication_parts" where
  "into_parts p = \<lparr>parts_id = pub_id p, parts_config = pub_config p, parts_socket = pub_socket p\<rparr>"

section \<open>The local address and sending\<close>

definition read_local_addr ::
  "('w, 's) os_api \<Rightarrow> 's \<Rightarrow> 'w \<Rightarrow> (mctx_error + socket_addr) \<times> 'w" where
  "read_local_addr os s w =
     (case os_local_addr os s w of
        (Inl e, w') \<Rightarrow> (Err (SocketLocalAddrFailed e), w')
      | (Inr None, w') \<Rightarrow>
          (Err (SocketLocalAddrFailed
             (io_error_new OtherKind (''socket local address was not an IP address'', []))), w')
      | (Inr (Some a), w') \<Rightarrow> (Ok a, w'))"

definition cached_local_addr ::
  "('w, 's) os_api \<Rightarrow> 's publication \<Rightarrow> 'w \<Rightarrow> (mctx_error + socket_addr) \<times> 's publication \<times> 'w" where
  "cached_local_addr os p w =
     (case pub_cached_local_addr p of
        Some a \<Rightarrow> (Ok a, p, w)
      | None \<Rightarrow>
          (case read_local_addr os (pub_socket p) w of
             (Inl e, w') \<Rightarrow> (Err e, p, w')
           | (Inr a, w') \<Rightarrow> (Ok a, p\<lparr>pub_cached_local_addr := Some a\<rparr>, w')))"

definition local_addr ::
  "('w, 's) os_api \<Rightarrow> 's publication \<Rightarrow> 'w \<Rightarrow> (mctx_error + socket_addr) \<times> 's publication \<times> 'w" where
  "local_addr os p w = cached_local_addr os p w"

definition local_addr_v4 ::
  "('w, 's) os_api \<Rightarrow> 's publication \<Rightarrow> 'w \<Rightarrow> (mctx_error + socket_addr_v4) \<times> 's publication \<times> 'w" where
  "local_addr_v4 os p w =
     (case local_addr os p w of (r, p', w') \<Rightarrow>
        (and_then r (\<lambda>a. case a of
           SockV4 x \<Rightarrow> Ok x | SockV6 _ \<Rightarrow> Err ExistingSocketAddressFamilyMismatch), p', w'))"

definition local_addr_v6 ::
  "('w, 's) os_api \<Rightarrow> 's publication \<Rightarrow> 'w \<Rightarrow> (mctx_error + socket_addr_v6) \<times> 's publication \<times> 'w" where
  "local_addr_v6 os p w =
     (case local_addr os p w of (r, p', w') \<Rightarrow>
        (and_then r (\<lambda>a. case a of
           SockV4 _ \<Rightarrow> Err ExistingSocketAddressFamilyMismatch | SockV6 x \<Rightarrow> Ok x), p', w'))"

definition source_addr ::
  "('w, 's) os_api \<Rightarrow> 's publication \<Rightarrow> 'w \<Rightarrow> (mctx_error + ip_addr) \<times> 's publication \<times> 'w" where
  "source_addr os p w =
     (case local_addr os p w of (r, p', w') \<Rightarrow> (and_then r (\<lambda>a. Ok (sock_ip a)), p', w'))"

definition announce_tuple ::
  "('w, 's) os_api \<Rightarrow> 's publication \<Rightarrow> 'w \<Rightarrow>
   (mctx_error + (ip_addr \<times> ip_addr \<times> u16)) \<times> 's publication \<times> 'w" where
  "announce_tuple os p w =
     (case source_addr os p w of (r, p', w') \<Rightarrow>
        (and_then r (\<lambda>s. Ok (s, pc_group (pub_config p'), pc_dst_port (pub_config p'))), p', w'))"

definition finish_send ::
  "('w, 's) os_api \<Rightarrow> 's publication \<Rightarrow> io_error + nat \<Rightarrow> 'w \<Rightarrow>
   (mctx_error + send_report) \<times> 's publication \<times> 'w" where
  "finish_send os p res w =
     (case res of
        Inr bytes_sent \<Rightarrow>
          (case cached_local_addr os (p\<lparr>pub_metrics := record_success bytes_sent (pub_metrics p)\<rparr>) w of
             (r, p', w') \<Rightarrow>
               (Ok \<lparr>sr_publication_id = pub_id p', sr_destination = pub_destination p',
                    sr_local_addr = ok r, sr_source_addr = map_option sock_ip (ok r),
                    sr_bytes_sent = bytes_sent\<rparr>, p', w'))
      | Inl e \<Rightarrow> (Err (SendFailed e), p\<lparr>pub_metrics := record_error (pub_metrics p)\<rparr>, w))"

definition publication_send ::
  "('w, 's) os_api \<Rightarrow> 's publication \<Rightarrow> bytes \<Rightarrow> 'w \<Rightarrow>
   (mctx_error + send_report) \<times> 's publication \<times> 'w" where
  "publication_send os p payload w =
     (case os_send os (pub_socket p) payload w of (r, w') \<Rightarrow> finish_send os p r w')"

section \<open>No panics\<close>

lemma bind_if_needed_safe [mctx_panic]: "io_safe (bind_if_needed os s a)"
  unfolding bind_if_needed_def needs_bind_def
  by (intro mctx_panic) (auto intro!: mctx_panic split: sum.splits option.splits)

lemma validate_existing_socket_safe [mctx_panic]: "io_safe (validate_existing_socket os s c)"
  unfolding validate_existing_socket_def
  by (intro mctx_panic)
    (auto intro!: mctx_panic split: sum.splits option.splits socket_addr.splits ip_addr.splits)

lemma configure_socket_v4_safe:
  assumes "config_validate c = Ok ()" and "config_family c = Ipv4"
  shows "io_safe (configure_socket_v4 os s c)"
proof -
  from assms(2) obtain g where g: "pc_group c = V4 g"
    by (auto simp: config_family_def split: ip_addr.splits)
  have "no_panic (bind_addr_v4 c)" "no_panic (group_v4 c)"
    using validated_families(1) [OF assms(1) g]
    by (auto simp: bind_addr_v4_def group_v4_def g mctx_result no_panic_def
        split: option.splits ip_addr.splits if_splits)
  then show ?thesis
    unfolding configure_socket_v4_def Let_def
    by (auto intro!: mctx_panic split: option.splits outgoing_interface.splits)
qed

lemma source_interface_index_v6_safe [mctx_panic]:
  "io_safe (source_interface_index_v6 os src ia ei)"
  unfolding source_interface_index_v6_def
  by (auto intro!: mctx_panic resolver_v6.resolve_safe split: option.splits)

lemma configure_socket_v6_safe:
  assumes "config_validate c = Ok ()" and "config_family c = Ipv6"
  shows "io_safe (configure_socket_v6 os s c)"
proof -
  from assms(2) obtain g where g: "pc_group c = V6 g"
    by (auto simp: config_family_def split: ip_addr.splits)
  note fam = validated_families(2,3) [OF assms(1) g]
  have "no_panic (group_v6 c)" "no_panic (source_addr_v6 c)" "no_panic (interface_addr_v6 c)"
    using fam by (auto simp: group_v6_def source_addr_v6_def interface_addr_v6_def g
        split: option.splits ip_addr.splits outgoing_interface.splits)
  moreover have "io_safe (explicit_interface_index_v6 os c ia)" for ia
    using fam by (auto simp: explicit_interface_index_v6_def
        intro!: mctx_panic resolver_v6.resolve_safe split: option.splits outgoing_interface.splits)
  ultimately show ?thesis
    unfolding configure_socket_v6_def Let_def
    by (intro mctx_panic allI) (auto intro!: mctx_panic split: option.splits)
qed

lemma configure_socket_safe:
  "config_validate c = Ok () \<Longrightarrow> io_safe (configure_socket os s c existing)"
  unfolding configure_socket_def
  by (auto intro!: mctx_panic configure_socket_v4_safe configure_socket_v6_safe
      split: address_family.splits)

text \<open>
  C7. Creating a publication never panics, whatever the configuration and however the
  operating system answers: the \<open>unreachable!\<close> branches of the setup code are not
  reachable after validation.
\<close>

theorem publication_setup_never_panics:
  "io_safe (publication_new os i c) \<and>
   io_safe (publication_new_with_socket os i c s) \<and>
   io_safe (publication_new_with_udp_socket os i c s)"
  unfolding publication_new_def publication_new_with_socket_def publication_new_with_udp_socket_def Let_def
  by (auto intro!: mctx_panic configure_socket_safe simp: mctx_result)

section \<open>What a successful setup has done\<close>

lemma configure_socket_v4_Ok:
  assumes "configure_socket_v4 os s c w = (Inr d, w')"
  shows "\<exists>g. pc_group c = V4 g \<and> d = SockV4 (socket_addr_v4_new g (pc_dst_port c))"
  using assms
  by (auto simp: configure_socket_v4_def Let_def mctx_result group_v4_def split: ip_addr.splits)

lemma explicit_index_nonzero:
  assumes "config_validate c = Ok ()"
    and "explicit_interface_index_v6 os c ia w = (Inr (Some k), w')"
  shows "k \<noteq> 0"
proof -
  have "pc_outgoing_interface c \<noteq> Some (OutIpv6Index 0)"
    using assms(1) config_validate_Ok_iff [of c] config_defect.simps(7) [of c] by metis
  with assms(2) show ?thesis
    by (auto simp: explicit_interface_index_v6_def mctx_result resolver_v6.resolve_not_zero
        split: option.splits outgoing_interface.splits)
qed

lemma source_index_nonzero:
  assumes "source_interface_index_v6 os src ia ei w = (Inr (Some k), w')" and "ei \<noteq> Some 0"
  shows "k \<noteq> 0"
  using assms
  by (auto simp: source_interface_index_v6_def mctx_result resolver_v6.resolve_not_zero
      split: option.splits if_splits)

text \<open>The scope identifier of the destination, with the interface the setup settled on.\<close>

definition scoped :: "ipv6_addr \<Rightarrow> bool" where
  "scoped g \<longleftrightarrow> ipv6_multicast_scope g \<in> {Some InterfaceLocal, Some LinkLocal}"

lemma destination_scope_id_Ok:
  assumes "destination_scope_id_v6 c g eff = Ok sid" and "pc_group c = V6 g"
  shows "if scoped g then eff = Some sid else sid = 0"
  using assms
  by (auto simp: destination_scope_id_v6_def config_ipv6_scope_def scoped_def
      ipv6_destination_scope_id_def mctx_result split: option.splits multicast_scope.splits)

lemma configure_socket_v6_Ok:
  assumes "configure_socket_v6 os s c w = (Inr d, w')" and "config_validate c = Ok ()"
  shows "\<exists>g sid. pc_group c = V6 g \<and> d = SockV6 (socket_addr_v6_new g (pc_dst_port c) 0 sid) \<and>
           (scoped g \<longleftrightarrow> sid \<noteq> 0)"
proof -
  from assms(1) obtain g src ia ei w2 si w3 sid where st:
      "group_v6 c = Inr g"
      "explicit_interface_index_v6 os c ia w = (Inr ei, w2)"
      "source_interface_index_v6 os src ia ei w2 = (Inr si, w3)"
      "destination_scope_id_v6 c g (or_else ei si) = Inr sid"
      "d = SockV6 (socket_addr_v6_new g (pc_dst_port c) 0 sid)"
    unfolding configure_socket_v6_def Let_def
    by (clarsimp simp only: io_then_eq_Ok io_simps prod.inject sum.inject lift_res_eq)
  from st(1) have g: "pc_group c = V6 g"
    by (auto simp: group_v6_def split: ip_addr.splits)
  have ei: "ei \<noteq> Some 0" using explicit_index_nonzero [OF assms(2)] st(2) by metis
  then have "si \<noteq> Some 0" using source_index_nonzero [OF _ ei] st(3) by metis
  with ei have "or_else ei si \<noteq> Some 0" by (cases ei) auto
  with destination_scope_id_Ok [OF st(4) g] have "scoped g \<longleftrightarrow> sid \<noteq> 0" by (auto split: if_splits)
  with g st(5) show ?thesis by blast
qed

lemma configure_socket_Ok:
  assumes "configure_socket os s c e w = (Inr d, w')" and "config_validate c = Ok ()"
  shows "sock_ip d = pc_group c \<and> sock_port d = pc_dst_port c \<and>
    (\<forall>a. d = SockV6 a \<longrightarrow> sa6_flowinfo a = 0 \<and> (scoped (sa6_ip a) \<longleftrightarrow> sa6_scope_id a \<noteq> 0))"
  using assms
  by (auto simp: configure_socket_def mctx_result socket_addr_v4_new_def socket_addr_v6_new_def
      dest!: configure_socket_v4_Ok configure_socket_v6_Ok split: address_family.splits)

text \<open>
  A publication that was created successfully keeps the identifier and configuration it
  was given, has an empty local-address cache and zero metrics, and is connected to the
  configured group and port; an IPv6 destination carries a scope identifier exactly when
  the group is interface-local or link-local.
\<close>

theorem publication_new_destination:
  assumes "publication_new os i c w = (Inr p, w')"
  shows "pub_id p = i \<and> pub_config p = c \<and> pub_cached_local_addr p = None \<and>
    pub_metrics p = metrics_default \<and>
    sock_ip (pub_destination p) = pc_group c \<and> sock_port (pub_destination p) = pc_dst_port c \<and>
    ip_is_multicast (sock_ip (pub_destination p)) \<and> sock_port (pub_destination p) \<noteq> 0 \<and>
    (\<forall>a. pub_destination p = SockV6 a \<longrightarrow>
       sa6_flowinfo a = 0 \<and> (scoped (sa6_ip a) \<longleftrightarrow> sa6_scope_id a \<noteq> 0))"
proof -
  from assms obtain s w1 w2 d where st: "config_validate c = Inr ()"
      "configure_socket os s c False w1 = (Inr d, w2)"
      "p = \<lparr>pub_id = i, pub_config = c, pub_socket = s, pub_destination = d,
            pub_cached_local_addr = None, pub_metrics = metrics_default\<rparr>"
    by (auto simp: publication_new_def Let_def mctx_result)
  have "\<not> config_defect c InvalidDestinationPort" "\<not> config_defect c InvalidMulticastGroup"
    using st(1) config_validate_Ok_iff [of c] by blast+
  with configure_socket_Ok [OF st(2,1)] st(3) show ?thesis by simp
qed

text \<open>An IPv6 link-local group with an explicit interface: the scope identifier is the index.\<close>

theorem publication_new_destination_witness:
  "let c = with_ipv6_interface_index (config_new (V6 0xff320000000000000000000080001234) 5000) 7;
       w = device_start 1;
       d = SockV6 (socket_addr_v6_new 0xff320000000000000000000080001234 5000 0 7);
       p = \<lparr>pub_id = 1, pub_config = c, pub_socket = 3, pub_destination = d,
            pub_cached_local_addr = None, pub_metrics = metrics_default\<rparr>
   in publication_new device_os 1 c w = (Inr p, w\<lparr>dev_next := 4\<rparr>) \<and>
      sock_ip (pub_destination p) = pc_group c \<and> (scoped (0xff320000000000000000000080001234) \<longleftrightarrow> (7 :: u32) \<noteq> 0)"
proof -
  define c where "c = with_ipv6_interface_index (config_new (V6 0xff320000000000000000000080001234) 5000) 7"
  define w where "w = device_start 1"
  define d where "d = SockV6 (socket_addr_v6_new 0xff320000000000000000000080001234 5000 0 7)"
  define p :: "nat publication" where "p = \<lparr>pub_id = 1, pub_config = c, pub_socket = 3, pub_destination = d,
            pub_cached_local_addr = None, pub_metrics = metrics_default\<rparr>"
  have run: "publication_new device_os 1 c w = (Inr p, w\<lparr>dev_next := 4\<rparr>)"
    unfolding p_def d_def c_def w_def by code_simp
  from publication_new_destination [OF run] run show ?thesis
    by (simp add: c_def w_def d_def p_def socket_addr_v6_new_def)
qed

end
