(* ===== verification/Publication_Calls.thy ===== *)
theory Publication_Calls
  imports Publication
begin

text \<open>
  Two views of the socket setup of \<open>src/publication.rs\<close> from the outside. The calls a
  successful setup issues are a fixed sequence, read off the recording wrapper
  \<open>logged\<close>; and the adoption of a socket the caller provides is accepted exactly when the
  local address of the socket agrees with the configuration.
\<close>

section \<open>The sequence of calls\<close>

definition opt_list :: "'a option \<Rightarrow> 'a list" where
  "opt_list x = (case x of None \<Rightarrow> [] | Some a \<Rightarrow> [a])"

lemma opt_list_simps [simp]: "opt_list None = []" "opt_list (Some x) = [x]"
  by (simp_all add: opt_list_def)

text \<open>
  The calls of a successful setup: \<open>fresh\<close> tells whether the socket was created by the
  publication, \<open>bnd\<close> is the address bound, if any, \<open>eff\<close> the IPv6 interface settled on.
\<close>

definition option_calls :: "publication_config \<Rightarrow> socket_addr option \<Rightarrow> u32 option \<Rightarrow> sock_call list" where
  "option_calls c bnd eff =
     map Bind (opt_list bnd) @
     (case config_family c of
        Ipv4 \<Rightarrow>
          (case pc_outgoing_interface c of Some (OutIpv4Addr i) \<Rightarrow> [SetMulticastIfV4 i] | _ \<Rightarrow> []) @
          [SetMulticastLoopV4 (pc_loopback c), SetMulticastTtlV4 (pc_ttl c)]
      | Ipv6 \<Rightarrow>
          map SetMulticastIfV6 (opt_list eff) @
          [SetMulticastLoopV6 (pc_loopback c), SetMulticastHopsV6 (pc_ttl c)])"

definition setup_calls ::
  "publication_config \<Rightarrow> bool \<Rightarrow> socket_addr option \<Rightarrow> u32 option \<Rightarrow> socket_addr \<Rightarrow> sock_call list" where
  "setup_calls c fresh bnd eff destination =
     SetNonblocking True # (if fresh \<and> config_is_ipv6 c then [SetOnlyV6 True] else []) @
     option_calls c bnd eff @ [Connect destination]"

text \<open>
  The address a setup may bind: the configured source (or, for IPv6, the interface
  address) and port, unspecified where nothing is configured, with the interface index as
  scope of a link-local address.
\<close>

definition wanted_bind :: "publication_config \<Rightarrow> u32 option \<Rightarrow> socket_addr option" where
  "wanted_bind c eff =
     (let port = (case pc_source_port c of Some p \<Rightarrow> p | None \<Rightarrow> 0) in
      case config_family c of
        Ipv4 \<Rightarrow>
          if pc_source_addr c = None \<and> pc_source_port c = None then None
          else Some (SockV4 (socket_addr_v4_new
                 (case pc_source_addr c of Some (V4 a) \<Rightarrow> a | _ \<Rightarrow> ipv4_unspecified) port))
      | Ipv6 \<Rightarrow>
          (let src = (case (pc_source_addr c, pc_outgoing_interface c) of
                        (Some (V6 a), _) \<Rightarrow> Some a
                      | (None, Some (OutIpv6Addr i)) \<Rightarrow> Some i
                      | _ \<Rightarrow> None) in
           if src = None \<and> pc_source_port c = None then None
           else Some (case src of
             None \<Rightarrow> SockV6 (socket_addr_v6_new ipv6_unspecified port 0 0)
           | Some a \<Rightarrow> SockV6 (socket_addr_v6_new a port 0
               (if ipv6_is_unicast_link_local a then the eff else 0)))))"

text \<open>The decision whether to bind only reads the local address.\<close>

lemma needs_bind_quiet [mctx_quiet]: "quiet (needs_bind (logged os) s a)"
  unfolding needs_bind_def by (auto intro!: mctx_quiet split: sum.splits option.splits)

lemma bind_if_needed_logged:
  assumes "bind_if_needed (logged os) s a wl = (Inr u, wl')"
  shows "\<exists>b. snd wl' = snd wl @ map (Pair s) (map Bind (opt_list b)) \<and> b \<in> {None, Some a}"
proof -
  from assms obtain needs wl1 where
    dec: "needs_bind (logged os) s a wl = (Inr needs, wl1)" and
    bnd: "io_when needs (io_sys SocketBindFailed (os_call (logged os) s (Bind a))) wl1 = (Inr u, wl')"
    unfolding bind_if_needed_def by (auto simp only: io_then_eq_Ok)
  have "snd wl1 = snd wl" by (rule quietD [OF needs_bind_quiet dec])
  then show ?thesis
    using bnd by (cases needs) (auto simp: mctx_result intro: exI [of _ None] exI [of _ "Some a"])
qed

lemma explicit_index_quiet [mctx_quiet]: "quiet (explicit_interface_index_v6 (logged os) c ia)"
  unfolding explicit_interface_index_v6_def
  by (auto intro!: mctx_quiet split: option.splits outgoing_interface.splits)

lemma source_index_quiet [mctx_quiet]: "quiet (source_interface_index_v6 (logged os) src ia ei)"
  unfolding source_interface_index_v6_def by (auto intro!: mctx_quiet split: option.splits)

lemma validate_existing_quiet [mctx_quiet]: "quiet (validate_existing_socket (logged os) s c)"
  unfolding validate_existing_socket_def
  by (auto intro!: mctx_quiet split: sum.splits option.splits socket_addr.splits ip_addr.splits)

lemma optional_bind_logged:
  assumes "(case x of Some a \<Rightarrow> bind_if_needed (logged os) s (f a) | None \<Rightarrow> io_return ()) wl = (Inr u, wl')"
  shows "\<exists>b. snd wl' = snd wl @ map (Pair s) (map Bind (opt_list b)) \<and> b \<in> {None, map_option f x}"
proof (cases x)
  case None
  then show ?thesis using assms by (intro exI [of _ None]) simp
next
  case (Some a)
  then show ?thesis using assms bind_if_needed_logged [of os s "f a" wl u wl'] by simp
qed

lemma interface_v4_logged:
  "(case i of Some (OutIpv4Addr a) \<Rightarrow> sock_opt (logged os) s (SetMulticastIfV4 a) | _ \<Rightarrow> io_return ()) wl
     = (Inr u, wl') \<Longrightarrow>
   snd wl' = snd wl @ map (Pair s) (case i of Some (OutIpv4Addr a) \<Rightarrow> [SetMulticastIfV4 a] | _ \<Rightarrow> [])"
  by (auto simp: mctx_result split: option.splits outgoing_interface.splits)

lemma interface_v6_logged:
  "(case i of Some k \<Rightarrow> sock_opt (logged os) s (SetMulticastIfV6 k) | None \<Rightarrow> io_return ()) wl
     = (Inr u, wl') \<Longrightarrow>
   snd wl' = snd wl @ map (Pair s) (map SetMulticastIfV6 (opt_list i))"
  by (auto simp: mctx_result split: option.splits)

lemma bind_addr_v4_wanted:
  assumes "bind_addr_v4 c = Inr a" and "config_family c = Ipv4"
  shows "map_option SockV4 a = wanted_bind c eff"
  using assms
  by (auto simp: bind_addr_v4_def wanted_bind_def mctx_result split: if_splits option.splits ip_addr.splits)

lemma configure_socket_v4_logged:
  assumes run: "configure_socket_v4 (logged os) s c wl = (Inr d, wl')" and fam: "config_family c = Ipv4"
  shows "\<exists>b. snd wl' = snd wl @ map (Pair s) (option_calls c b eff @ [Connect d]) \<and>
     b \<in> {None, wanted_bind c eff}"
proof -
  from run obtain ba wl1 wl2 wl3 wl4 where st: "bind_addr_v4 c = Inr ba"
      "(case ba of Some a \<Rightarrow> bind_if_needed (logged os) s (SockV4 a) | None \<Rightarrow> io_return ()) wl = (Inr (), wl1)"
      "(case pc_outgoing_interface c of Some (OutIpv4Addr a) \<Rightarrow> sock_opt (logged os) s (SetMulticastIfV4 a)
         | _ \<Rightarrow> io_return ()) wl1 = (Inr (), wl2)"
      "sock_opt (logged os) s (SetMulticastLoopV4 (pc_loopback c)) wl2 = (Inr (), wl3)"
      "sock_opt (logged os) s (SetMulticastTtlV4 (pc_ttl c)) wl3 = (Inr (), wl4)"
      "os_call (logged os) s (Connect d) wl4 = (Inr (), wl')"
    unfolding configure_socket_v4_def Let_def
    by (clarsimp simp only: io_then_eq_Ok io_simps prod.inject sum.inject io_sys_eq_Ok)
  from optional_bind_logged [OF st(2)] obtain b where
    b: "snd wl1 = snd wl @ map (Pair s) (map Bind (opt_list b))" "b \<in> {None, map_option SockV4 ba}"
    by blast
  have "snd wl' = snd wl @ map (Pair s) (option_calls c b eff @ [Connect d])"
    using b(1) interface_v4_logged [OF st(3)] st(4-6)
    by (simp add: option_calls_def fam mctx_result)
  with b(2) bind_addr_v4_wanted [OF st(1) fam, of eff] show ?thesis by auto
qed

text \<open>
  For IPv6 the interface settled on is the one the configuration names, and the one the
  destination is scoped to.
\<close>

lemma bind_addr_v6_wanted:
  assumes "config_family c = Ipv6" "source_addr_v6 c = Inr src" "interface_addr_v6 c = Inr ia"
    and "bind_scope_id_v6 (or_else src ia) eff = Inr sid"
  shows "map_option SockV6 (bind_addr_v6 c (or_else src ia) sid) = wanted_bind c eff"
  using assms
  by (auto simp: wanted_bind_def bind_addr_v6_def source_addr_v6_def interface_addr_v6_def
      bind_scope_id_v6_def mctx_result split: option.splits ip_addr.splits outgoing_interface.splits if_splits)

lemma explicit_index_Ok:
  "explicit_interface_index_v6 os c ia w = (Inr ei, w') \<Longrightarrow>
   pc_outgoing_interface c = Some (OutIpv6Index k) \<Longrightarrow> ei = Some k"
  by (simp add: explicit_interface_index_v6_def)

lemma configure_socket_v6_logged:
  assumes run: "configure_socket_v6 (logged os) s c wl = (Inr d, wl')" and fam: "config_family c = Ipv6"
  shows "\<exists>b eff. snd wl' = snd wl @ map (Pair s) (option_calls c b eff @ [Connect d]) \<and>
     b \<in> {None, wanted_bind c eff} \<and>
     (\<forall>k. pc_outgoing_interface c = Some (OutIpv6Index k) \<longrightarrow> eff = Some k) \<and>
     (\<forall>a. d = SockV6 a \<and> scoped (sa6_ip a) \<longrightarrow> eff = Some (sa6_scope_id a))"
proof -
  from run obtain g src ia ei si wl1 wl2 sid wl3 wl4 wl5 wl6 dsid where st:
      "source_addr_v6 c = Inr src" "interface_addr_v6 c = Inr ia"
      "explicit_interface_index_v6 (logged os) c ia wl = (Inr ei, wl1)"
      "source_interface_index_v6 (logged os) src ia ei wl1 = (Inr si, wl2)"
      "bind_scope_id_v6 (or_else src ia) (or_else ei si) = Inr sid"
      "(case bind_addr_v6 c (or_else src ia) sid of
          Some a \<Rightarrow> bind_if_needed (logged os) s (SockV6 a) | None \<Rightarrow> io_return ()) wl2 = (Inr (), wl3)"
      "(case or_else ei si of Some k \<Rightarrow> sock_opt (logged os) s (SetMulticastIfV6 k)
         | None \<Rightarrow> io_return ()) wl3 = (Inr (), wl4)"
      "sock_opt (logged os) s (SetMulticastLoopV6 (pc_loopback c)) wl4 = (Inr (), wl5)"
      "sock_opt (logged os) s (SetMulticastHopsV6 (pc_ttl c)) wl5 = (Inr (), wl6)"
      "os_call (logged os) s (Connect d) wl6 = (Inr (), wl')"
      "group_v6 c = Inr g" "destination_scope_id_v6 c g (or_else ei si) = Inr dsid"
      "d = SockV6 (socket_addr_v6_new g (pc_dst_port c) 0 dsid)"
    unfolding configure_socket_v6_def Let_def
    by (clarsimp simp only: io_then_eq_Ok io_simps prod.inject sum.inject io_sys_eq_Ok lift_res_eq)
  from optional_bind_logged [OF st(6)] obtain b where
    b: "snd wl3 = snd wl2 @ map (Pair s) (map Bind (opt_list b))"
      "b \<in> {None, map_option SockV6 (bind_addr_v6 c (or_else src ia) sid)}" by blast
  have "snd wl2 = snd wl"
    using quietD [OF explicit_index_quiet st(3)] quietD [OF source_index_quiet st(4)] by simp
  then have "snd wl' = snd wl @ map (Pair s) (option_calls c b (or_else ei si) @ [Connect d])"
    using b(1) interface_v6_logged [OF st(7)] st(8-10) by (simp add: option_calls_def fam mctx_result)
  moreover have "b \<in> {None, wanted_bind c (or_else ei si)}"
    using b(2) bind_addr_v6_wanted [OF fam st(1,2,5)] by simp
  moreover have "or_else ei si = Some k" if "pc_outgoing_interface c = Some (OutIpv6Index k)" for k
    using explicit_index_Ok [OF st(3) that] by simp
  moreover have "pc_group c = V6 g" using st(11) by (auto simp: group_v6_def split: ip_addr.splits)
  then have "or_else ei si = Some (sa6_scope_id a)" if "d = SockV6 a" "scoped (sa6_ip a)" for a
    using destination_scope_id_Ok [OF st(12)] st(13) that by (auto simp: socket_addr_v6_new_def)
  ultimately show ?thesis by blast
qed

lemma configure_socket_logged:
  assumes "configure_socket (logged os) s c existing wl = (Inr d, wl')"
  shows "\<exists>b eff. snd wl' = snd wl @ map (Pair s) (setup_calls c (\<not> existing) b eff d) \<and>
     b \<in> {None, wanted_bind c eff} \<and>
     (\<forall>k. pc_outgoing_interface c = Some (OutIpv6Index k) \<and> config_is_ipv6 c \<longrightarrow> eff = Some k) \<and>
     (\<forall>a. d = SockV6 a \<and> scoped (sa6_ip a) \<longrightarrow> eff = Some (sa6_scope_id a))"
proof -
  from assms obtain wl0 wl1 where st:
      "io_when existing (validate_existing_socket (logged os) s c) wl = (Inr (), wl0)"
      "sock_opt (logged os) s (SetNonblocking True) wl0 = (Inr (), wl1)"
      "(case config_family c of Ipv4 \<Rightarrow> configure_socket_v4 (logged os) s c
         | Ipv6 \<Rightarrow> io_then (io_when (\<not> existing) (sock_opt (logged os) s (SetOnlyV6 True)))
             (\<lambda>_. configure_socket_v6 (logged os) s c)) wl1 = (Inr d, wl')"
    unfolding configure_socket_def by (clarsimp simp only: io_then_eq_Ok)
  have log1: "snd wl1 = snd wl @ [(s, SetNonblocking True)]"
    using quietD [OF quiet_when [OF validate_existing_quiet] st(1)] st(2) by (simp add: mctx_result)
  show ?thesis
  proof (cases "config_family c")
    case Ipv4
    with st(3) have run: "configure_socket_v4 (logged os) s c wl1 = (Inr d, wl')" by simp
    from configure_socket_v4_Ok [OF run] obtain a where "d = SockV4 a" by blast
    with configure_socket_v4_logged [OF run Ipv4, of None] log1 Ipv4 show ?thesis
      by (auto simp: setup_calls_def config_is_ipv6_def)
  next
    case Ipv6
    with st(3) obtain wl2 where run: "configure_socket_v6 (logged os) s c wl2 = (Inr d, wl')"
        "io_when (\<not> existing) (sock_opt (logged os) s (SetOnlyV6 True)) wl1 = (Inr (), wl2)"
      by (auto simp: io_then_eq_Ok)
    from run(2) have "snd wl2 = snd wl1 @ (if existing then [] else [(s, SetOnlyV6 True)])"
      by (cases existing) (simp_all add: mctx_result)
    with configure_socket_v6_logged [OF run(1) Ipv6] log1 Ipv6 show ?thesis
      by (fastforce simp: setup_calls_def config_is_ipv6_def)
  qed
qed



section \<open>Adopting an existing socket\<close>

text \<open>
  When the local address of a socket is compatible with a configuration: it cannot be read,
  or it has the family of the group and, unless the socket is still unbound, agrees with
  the source address and the source port that are configured.
\<close>

definition socket_agrees :: "publication_config \<Rightarrow> io_error + socket_addr option \<Rightarrow> bool" where
  "socket_agrees c r =
     (case r of
        Inl _ \<Rightarrow> True
      | Inr None \<Rightarrow> False
      | Inr (Some a) \<Rightarrow>
          same_family_ip (pc_group c) (sock_ip a) \<and>
          (is_unbound_local_addr a \<or>
           pc_source_addr c \<in> {None, Some (sock_ip a)} \<and> pc_source_port c \<in> {None, Some (sock_port a)}))"

text \<open>The mismatch each error of the check names.\<close>

definition socket_conflict :: "publication_config \<Rightarrow> socket_addr option \<Rightarrow> mctx_error \<Rightarrow> bool" where
  "socket_conflict c la e \<longleftrightarrow>
     e = ExistingSocketAddressFamilyMismatch \<and>
       (\<forall>a. la = Some a \<longrightarrow> \<not> same_family_ip (pc_group c) (sock_ip a)) \<or>
     (\<exists>a x. la = Some a \<and> pc_source_addr c = Some x \<and> x \<noteq> sock_ip a \<and>
        e = ExistingSocketAddressMismatch x (sock_ip a)) \<or>
     (\<exists>a x. la = Some a \<and> pc_source_port c = Some x \<and> x \<noteq> sock_port a \<and>
        e = ExistingSocketPortMismatch x (sock_port a))"

lemmas existing_socket_defs =
  validate_existing_socket_def io_then_def io_try_def config_is_ipv6_def config_is_ipv4_def config_family_def

lemma validate_existing_v4:
  assumes v: "config_validate c = Ok ()" and r: "os_local_addr os s w = (Inr (Some (SockV4 a)), w')"
  shows "case validate_existing_socket os s c w of
           (Inr _, _) \<Rightarrow> socket_agrees c (Inr (Some (SockV4 a)))
         | (Inl f, _) \<Rightarrow> \<not> socket_agrees c (Inr (Some (SockV4 a))) \<and>
             (\<exists>e. f = Raised e \<and> socket_conflict c (Some (SockV4 a)) e)"
proof (cases "pc_group c")
  case (V4 g)
  with validated_families(1) [OF v V4] r show ?thesis
    by (auto simp: existing_socket_defs socket_agrees_def socket_conflict_def
        split: option.splits ip_addr.splits)
next
  case (V6 g)
  then show ?thesis
    using r by (auto simp: existing_socket_defs socket_agrees_def socket_conflict_def)
qed

lemma validate_existing_v6:
  assumes v: "config_validate c = Ok ()" and r: "os_local_addr os s w = (Inr (Some (SockV6 a)), w')"
  shows "case validate_existing_socket os s c w of
           (Inr _, _) \<Rightarrow> socket_agrees c (Inr (Some (SockV6 a)))
         | (Inl f, _) \<Rightarrow> \<not> socket_agrees c (Inr (Some (SockV6 a))) \<and>
             (\<exists>e. f = Raised e \<and> socket_conflict c (Some (SockV6 a)) e)"
proof (cases "pc_group c")
  case (V6 g)
  with validated_families(2) [OF v V6] r show ?thesis
    by (auto simp: existing_socket_defs socket_agrees_def socket_conflict_def
        split: option.splits ip_addr.splits)
next
  case (V4 g)
  then show ?thesis
    using r by (auto simp: existing_socket_defs socket_agrees_def socket_conflict_def)
qed

text \<open>
  The check of a socket the caller provides is exact for a validated configuration: it
  accepts exactly the sockets whose local address agrees with the configuration, and the
  error of a rejected socket names a mismatch that is present.
\<close>

theorem validate_existing_socket_exact:
  assumes "config_validate c = Ok ()"
  shows "case validate_existing_socket os s c w of
           (Inr _, _) \<Rightarrow> socket_agrees c (fst (os_local_addr os s w))
         | (Inl f, _) \<Rightarrow> \<not> socket_agrees c (fst (os_local_addr os s w)) \<and>
             (\<exists>la e. os_local_addr os s w = (Inr la, snd (os_local_addr os s w)) \<and>
                f = Raised e \<and> socket_conflict c la e)"
proof -
  obtain r w' where r: "os_local_addr os s w = (r, w')" by (cases "os_local_addr os s w")
  consider x where "r = Inl x" | "r = Inr None"
    | a where "r = Inr (Some (SockV4 a))" | a where "r = Inr (Some (SockV6 a))"
    by (cases r; metis not_None_eq socket_addr.exhaust)
  then show ?thesis
  proof cases
    case 3
    with validate_existing_v4 [OF assms, of os s w a w'] r show ?thesis by (simp split: prod.splits sum.splits)
  next
    case 4
    with validate_existing_v6 [OF assms, of os s w a w'] r show ?thesis by (simp split: prod.splits sum.splits)
  qed (simp_all add: existing_socket_defs r socket_agrees_def socket_conflict_def)
qed

text \<open>A socket already bound to port 4001 is refused by a configuration that asks for port 4000.\<close>

theorem validate_existing_socket_exact_witness:
  "let c = with_source_port (config_new (V4 (Ipv4Addr 239 1 2 3)) 5000) 4000;
       a = SockV4 (socket_addr_v4_new (Ipv4Addr 10 0 0 1) 4001);
       w = device_start 0\<lparr>dev_local := Some a\<rparr>
   in config_validate c = Ok () \<and>
      validate_existing_socket device_os 7 c w = (Inl (Raised (ExistingSocketPortMismatch 4000 4001)), w) \<and>
      \<not> socket_agrees c (Inr (Some a))"
proof -
  define c where "c = with_source_port (config_new (V4 (Ipv4Addr 239 1 2 3)) 5000) 4000"
  define a where "a = SockV4 (socket_addr_v4_new (Ipv4Addr 10 0 0 1) 4001)"
  define w where "w = device_start 0\<lparr>dev_local := Some a\<rparr>"
  have v: "config_validate c = Ok ()" unfolding c_def by code_simp
  have run: "validate_existing_socket device_os 7 c w =
      (Inl (Raised (ExistingSocketPortMismatch 4000 4001)), w)"
    unfolding c_def a_def w_def by code_simp
  have "fst (os_local_addr device_os (7 :: nat) w) = Inr (Some a)"
    by (simp add: w_def device_defs)
  with validate_existing_socket_exact [OF v, of device_os 7 w] run
  have "\<not> socket_agrees c (Inr (Some a))" by simp
  with v run show ?thesis unfolding c_def a_def w_def Let_def by blast
qed

section \<open>Sending\<close>

text \<open>
  The counters of a publication agree with each other as long as the sequence is even: every
  call was either a packet or an error, and every update took the sequence two steps on.
\<close>

definition metrics_ok :: "publication_metrics \<Rightarrow> bool" where
  "metrics_ok m \<longleftrightarrow>
     pm_send_calls m = pm_packets_sent m + pm_send_errors m \<and> pm_sequence m = 2 * pm_send_calls m"

lemma metrics_ok_default [simp]: "metrics_ok metrics_default"
  by (simp add: metrics_ok_def metrics_default_def)

lemma metrics_ok_success [simp]: "metrics_ok m \<Longrightarrow> metrics_ok (record_success n m)"
  by (simp add: metrics_ok_def record_success_def algebra_simps)

lemma metrics_ok_error [simp]: "metrics_ok m \<Longrightarrow> metrics_ok (record_error m)"
  by (simp add: metrics_ok_def record_error_def algebra_simps)

text \<open>A sequence of sends on one publication, with the result of each.\<close>

fun send_many ::
  "('w, 's) os_api \<Rightarrow> 's publication \<Rightarrow> bytes list \<Rightarrow> 'w \<Rightarrow>
   (mctx_error + send_report) list \<times> 's publication \<times> 'w" where
  "send_many os p [] w = ([], p, w)"
| "send_many os p (b # bs) w =
     (case publication_send os p b w of (r, p', w') \<Rightarrow>
      case send_many os p' bs w' of (rs, p'', w'') \<Rightarrow> (r # rs, p'', w''))"

definition sent_bytes :: "mctx_error + send_report \<Rightarrow> nat" where
  "sent_bytes r = (case r of Inr x \<Rightarrow> sr_bytes_sent x | Inl _ \<Rightarrow> 0)"

text \<open>What one send does to the publication, and what it reports.\<close>

lemma publication_send_effect:
  assumes "publication_send os p b w = (r, p', w')"
  shows "pub_id p' = pub_id p \<and> pub_config p' = pub_config p \<and> pub_socket p' = pub_socket p \<and>
     pub_destination p' = pub_destination p \<and>
     (pub_cached_local_addr p \<noteq> None \<longrightarrow> pub_cached_local_addr p' = pub_cached_local_addr p) \<and>
     (case r of
        Inl e \<Rightarrow> pub_metrics p' = record_error (pub_metrics p) \<and>
          (\<exists>x. e = SendFailed x \<and> os_send os (pub_socket p) b w = (Inl x, w'))
      | Inr rep \<Rightarrow> pub_metrics p' = record_success (sr_bytes_sent rep) (pub_metrics p) \<and>
          sr_publication_id rep = pub_id p \<and> sr_destination rep = pub_destination p \<and>
          sr_source_addr rep = map_option sock_ip (sr_local_addr rep) \<and>
          (pub_cached_local_addr p \<noteq> None \<longrightarrow> sr_local_addr rep = pub_cached_local_addr p) \<and>
          fst (os_send os (pub_socket p) b w) = Inr (sr_bytes_sent rep))"
  using assms
  by (auto simp: publication_send_def finish_send_def cached_local_addr_def
      split: prod.splits sum.splits option.splits)

lemma record_success_counts [simp]:
  "pm_send_calls (record_success n m) = pm_send_calls m + 1"
  "pm_packets_sent (record_success n m) = pm_packets_sent m + 1"
  "pm_bytes_sent (record_success n m) = pm_bytes_sent m + of_nat n"
  "pm_send_errors (record_success n m) = pm_send_errors m"
  by (simp_all add: record_success_def)

lemma record_error_counts [simp]:
  "pm_send_calls (record_error m) = pm_send_calls m + 1"
  "pm_packets_sent (record_error m) = pm_packets_sent m"
  "pm_bytes_sent (record_error m) = pm_bytes_sent m"
  "pm_send_errors (record_error m) = pm_send_errors m + 1"
  by (simp_all add: record_error_def)

text \<open>
  C33. The metrics of a publication after any sequence of sends are the totals of the results
  the callers saw, modulo the width of the counters: one call per send, one packet per
  report, one error per failure, and the sum of the byte counts reported. A send never
  changes the identity, the configuration, the socket or the destination.
\<close>

theorem send_many_metrics:
  "case send_many os p bs w of (rs, p', _) \<Rightarrow>
     length rs = length bs \<and>
     pm_send_calls (pub_metrics p') = pm_send_calls (pub_metrics p) + of_nat (length bs) \<and>
     pm_packets_sent (pub_metrics p') = pm_packets_sent (pub_metrics p) + of_nat (length (filter is_ok rs)) \<and>
     pm_send_errors (pub_metrics p') =
       pm_send_errors (pub_metrics p) + of_nat (length bs - length (filter is_ok rs)) \<and>
     pm_bytes_sent (pub_metrics p') = pm_bytes_sent (pub_metrics p) + of_nat (sum_list (map sent_bytes rs)) \<and>
     pub_id p' = pub_id p \<and> pub_config p' = pub_config p \<and> pub_socket p' = pub_socket p \<and>
     pub_destination p' = pub_destination p \<and>
     (metrics_ok (pub_metrics p) \<longrightarrow> metrics_ok (pub_metrics p'))"
proof (induction bs arbitrary: p w)
  case (Cons b bs)
  obtain r p1 w1 where one: "publication_send os p b w = (r, p1, w1)" by (metis prod_cases3)
  obtain rs p2 w2 where rest: "send_many os p1 bs w1 = (rs, p2, w2)" by (metis prod_cases3)
  have len: "length (filter is_ok rs) \<le> length bs"
    using Cons.IH [of p1 w1] rest length_filter_le [of is_ok rs] by simp
  show ?case
    using publication_send_effect [OF one] Cons.IH [of p1 w1] len
    by (cases r) (auto simp: one rest sent_bytes_def algebra_simps Suc_diff_le)
qed simp

text \<open>Three sends with credit for two: two packets, one error, seven bytes.\<close>

theorem send_many_metrics_witness:
  "let p = \<lparr>pub_id = 1, pub_config = config_new (V4 (Ipv4Addr 239 1 2 3)) 5000, pub_socket = 3,
            pub_destination = SockV4 (socket_addr_v4_new (Ipv4Addr 239 1 2 3) 5000),
            pub_cached_local_addr = None, pub_metrics = metrics_default\<rparr>;
       m = pub_metrics (fst (snd (send_many device_os p [[1, 2, 3], [4, 5, 6, 7], [8]] (device_start 2))))
   in metrics_ok (pub_metrics p) \<and> metrics_ok m \<and> pm_send_calls m = 3"
proof -
  define p :: "nat publication" where
    "p = \<lparr>pub_id = 1, pub_config = config_new (V4 (Ipv4Addr 239 1 2 3)) 5000, pub_socket = 3,
          pub_destination = SockV4 (socket_addr_v4_new (Ipv4Addr 239 1 2 3) 5000),
          pub_cached_local_addr = None, pub_metrics = metrics_default\<rparr>"
  have start: "metrics_ok (pub_metrics p)" "pm_send_calls (pub_metrics p) = 0"
    by (simp_all add: p_def) (simp add: metrics_default_def)
  from send_many_metrics [where os = device_os and p = p and bs = "[[1, 2, 3], [4, 5, 6, 7], [8]]"
      and w = "device_start 2"] start
  show ?thesis by (simp add: p_def [symmetric] Let_def split: prod.splits)
qed

end
