(* ===== verification/Mctx_Context.thy ===== *)
theory Mctx_Context
  imports Publication_Calls Publication_Registry
begin

text \<open>
  The owner of a set of UDP publications (\<open>src/context.rs\<close>): adding, looking up, taking
  and sending, with the context metrics. Sending takes \<open>&self\<close> in the source and changes
  the publication through its counters and its address cache, so the operations return the
  context as they leave it. The increment of \<open>next_id\<close> is the one of a release build.
\<close>

section \<open>State\<close>

record context_metrics =
  cm_sequence :: u64
  cm_publications_added :: u64
  cm_publications_removed :: u64
  cm_total_send_calls :: u64
  cm_total_packets_sent :: u64
  cm_total_bytes_sent :: u64
  cm_total_send_errors :: u64

record 's mctx_context =
  ctx_publications :: "'s publication list"
  ctx_next_id :: u64
  ctx_metrics :: context_metrics

definition context_metrics_default :: context_metrics where
  "context_metrics_default =
     \<lparr>cm_sequence = 0, cm_publications_added = 0, cm_publications_removed = 0, cm_total_send_calls = 0,
      cm_total_packets_sent = 0, cm_total_bytes_sent = 0, cm_total_send_errors = 0\<rparr>"

text \<open>The update a write guard encloses: the sequence is odd while it runs.\<close>

definition guarded :: "(context_metrics \<Rightarrow> context_metrics) \<Rightarrow> context_metrics \<Rightarrow> context_metrics" where
  "guarded f m = (let m' = f (m\<lparr>cm_sequence := cm_sequence m + 1\<rparr>) in m'\<lparr>cm_sequence := cm_sequence m' + 1\<rparr>)"

definition record_send_success :: "nat \<Rightarrow> context_metrics \<Rightarrow> context_metrics" where
  "record_send_success bytes_sent = guarded (\<lambda>m.
     m\<lparr>cm_total_send_calls := cm_total_send_calls m + 1,
       cm_total_packets_sent := cm_total_packets_sent m + 1,
       cm_total_bytes_sent := cm_total_bytes_sent m + of_nat bytes_sent\<rparr>)"

definition record_send_error :: "context_metrics \<Rightarrow> context_metrics" where
  "record_send_error = guarded (\<lambda>m.
     m\<lparr>cm_total_send_calls := cm_total_send_calls m + 1,
       cm_total_send_errors := cm_total_send_errors m + 1\<rparr>)"

section \<open>Operations\<close>

definition context_new :: "'s mctx_context" where
  "context_new = \<lparr>ctx_publications = [], ctx_next_id = 1, ctx_metrics = context_metrics_default\<rparr>"

definition ensure_publication_config_is_unique :: "'s mctx_context \<Rightarrow> publication_config \<Rightarrow> mctx_error + unit" where
  "ensure_publication_config_is_unique ctx c =
     (if list_ex (\<lambda>p. pub_config p = c) (ctx_publications ctx) then Err DuplicatePublication else Ok ())"

definition insert_publication :: "'s publication \<Rightarrow> 's mctx_context \<Rightarrow> u64 \<times> 's mctx_context" where
  "insert_publication p ctx =
     (pub_id p,
      ctx\<lparr>ctx_publications := ctx_publications ctx @ [p],
          ctx_metrics := guarded (\<lambda>m. m\<lparr>cm_publications_added := cm_publications_added m + 1\<rparr>) (ctx_metrics ctx)\<rparr>)"

definition finish_publication_removal ::
  "nat \<Rightarrow> 's mctx_context \<Rightarrow> mctx_error failure + 's publication \<times> 's mctx_context" where
  "finish_publication_removal index ctx =
     and_then (swap_remove (ctx_publications ctx) index) (\<lambda>(p, rest).
     Ok (p, ctx\<lparr>ctx_publications := rest,
            ctx_metrics := guarded (\<lambda>m. m\<lparr>cm_publications_removed := cm_publications_removed m + 1\<rparr>)
              (ctx_metrics ctx)\<rparr>))"

definition publication_count :: "'s mctx_context \<Rightarrow> nat" where
  "publication_count ctx = length (ctx_publications ctx)"

definition contains_publication :: "'s mctx_context \<Rightarrow> u64 \<Rightarrow> bool" where
  "contains_publication ctx i = list_ex (\<lambda>p. pub_id p = i) (ctx_publications ctx)"

definition get_publication :: "'s mctx_context \<Rightarrow> u64 \<Rightarrow> 's publication option" where
  "get_publication ctx i = find (\<lambda>p. pub_id p = i) (ctx_publications ctx)"

text \<open>What a caller does through \<open>get_publication_mut\<close>: an update of the one found.\<close>

definition get_publication_mut ::
  "('s publication \<Rightarrow> 's publication) \<Rightarrow> 's mctx_context \<Rightarrow> u64 \<Rightarrow> 's mctx_context option" where
  "get_publication_mut f ctx i =
     map_option (\<lambda>k. ctx\<lparr>ctx_publications := (ctx_publications ctx)[k := f (ctx_publications ctx ! k)]\<rparr>)
       (position (\<lambda>p. pub_id p = i) (ctx_publications ctx))"

definition publications :: "'s mctx_context \<Rightarrow> 's publication list" where
  "publications ctx = ctx_publications ctx"

text \<open>
  What a caller does through the slice of \<open>publications_mut\<close>: its length cannot change.
\<close>

definition publications_mut ::
  "('s publication list \<Rightarrow> 's publication list) \<Rightarrow> 's mctx_context \<Rightarrow> 's mctx_context" where
  "publications_mut f ctx = ctx\<lparr>ctx_publications := f (publications ctx)\<rparr>"

definition next_publication_id :: "'s mctx_context \<Rightarrow> u64 \<times> 's mctx_context" where
  "next_publication_id ctx = (ctx_next_id ctx, ctx\<lparr>ctx_next_id := ctx_next_id ctx + 1\<rparr>)"

text \<open>
  The three ways to add a publication differ in the constructor only. The identifier is used
  up before the constructor runs, so it is gone also when the constructor fails.
\<close>

definition add_with ::
  "(u64 \<Rightarrow> ('w, mctx_error, 's publication) io) \<Rightarrow> publication_config \<Rightarrow> 's mctx_context \<Rightarrow> 'w \<Rightarrow>
   (mctx_error failure + u64) \<times> 's mctx_context \<times> 'w" where
  "add_with create c ctx w =
     (case ensure_publication_config_is_unique ctx c of
        Inl e \<Rightarrow> (Err (Raised e), ctx, w)
      | Inr _ \<Rightarrow>
          (case next_publication_id ctx of (i, ctx1) \<Rightarrow>
           case create i w of
             (Inl f, w') \<Rightarrow> (Err f, ctx1, w')
           | (Inr p, w') \<Rightarrow> (case insert_publication p ctx1 of (i', ctx2) \<Rightarrow> (Ok i', ctx2, w'))))"

definition add_publication ::
  "('w, 's) os_api \<Rightarrow> publication_config \<Rightarrow> 's mctx_context \<Rightarrow> 'w \<Rightarrow> (mctx_error failure + u64) \<times> 's mctx_context \<times> 'w" where
  "add_publication os c = add_with (\<lambda>i. publication_new os i c) c"

definition add_publication_with_socket ::
  "('w, 's) os_api \<Rightarrow> publication_config \<Rightarrow> 's \<Rightarrow> 's mctx_context \<Rightarrow> 'w \<Rightarrow>
   (mctx_error failure + u64) \<times> 's mctx_context \<times> 'w" where
  "add_publication_with_socket os c s = add_with (\<lambda>i. publication_new_with_socket os i c s) c"

definition add_publication_with_udp_socket ::
  "('w, 's) os_api \<Rightarrow> publication_config \<Rightarrow> 's \<Rightarrow> 's mctx_context \<Rightarrow> 'w \<Rightarrow>
   (mctx_error failure + u64) \<times> 's mctx_context \<times> 'w" where
  "add_publication_with_udp_socket os c s = add_with (\<lambda>i. publication_new_with_udp_socket os i c s) c"

definition take_publication ::
  "u64 \<Rightarrow> 's mctx_context \<Rightarrow> mctx_error failure + 's publication option \<times> 's mctx_context" where
  "take_publication i ctx =
     (case position (\<lambda>p. pub_id p = i) (ctx_publications ctx) of
        None \<Rightarrow> Ok (None, ctx)
      | Some index \<Rightarrow>
          and_then (finish_publication_removal index ctx) (\<lambda>(p, ctx'). Ok (Some p, ctx')))"

definition remove_publication :: "u64 \<Rightarrow> 's mctx_context \<Rightarrow> mctx_error failure + bool \<times> 's mctx_context" where
  "remove_publication i ctx =
     and_then (take_publication i ctx) (\<lambda>(p, ctx'). Ok (p \<noteq> None, ctx'))"

definition record_result :: "mctx_error + send_report \<Rightarrow> context_metrics \<Rightarrow> context_metrics" where
  "record_result r = (case r of Inr rep \<Rightarrow> record_send_success (sr_bytes_sent rep) | Inl _ \<Rightarrow> record_send_error)"

definition context_send ::
  "('w, 's) os_api \<Rightarrow> u64 \<Rightarrow> bytes \<Rightarrow> 's mctx_context \<Rightarrow> 'w \<Rightarrow> (mctx_error + send_report) \<times> 's mctx_context \<times> 'w" where
  "context_send os i payload ctx w =
     (case position (\<lambda>p. pub_id p = i) (ctx_publications ctx) of
        None \<Rightarrow> (Err PublicationNotFound, ctx, w)
      | Some k \<Rightarrow>
          (case publication_send os (ctx_publications ctx ! k) payload w of (r, p', w') \<Rightarrow>
             (r, ctx\<lparr>ctx_publications := (ctx_publications ctx)[k := p'],
                     ctx_metrics := record_result r (ctx_metrics ctx)\<rparr>, w')))"

text \<open>
  The loop of \<open>send_all\<close>: it stops at the first failure. The result carries the failure,
  if any, the publications as the sends left them, the reports pushed and the metrics.
\<close>

fun send_each ::
  "('w, 's) os_api \<Rightarrow> 's publication list \<Rightarrow> bytes \<Rightarrow> send_report list \<Rightarrow> context_metrics \<Rightarrow> 'w \<Rightarrow>
   mctx_error option \<times> 's publication list \<times> send_report list \<times> context_metrics \<times> 'w" where
  "send_each os [] payload out m w = (None, [], out, m, w)"
| "send_each os (p # ps) payload out m w =
     (case publication_send os p payload w of
        (Inl e, p', w') \<Rightarrow> (Some e, p' # ps, out, record_send_error m, w')
      | (Inr rep, p', w') \<Rightarrow>
          (case send_each os ps payload (out @ [rep]) (record_send_success (sr_bytes_sent rep) m) w' of
             (e, ps', out', m', w'') \<Rightarrow> (e, p' # ps', out', m', w'')))"

definition send_all ::
  "('w, 's) os_api \<Rightarrow> bytes \<Rightarrow> send_report list \<Rightarrow> 's mctx_context \<Rightarrow> 'w \<Rightarrow>
   (mctx_error + nat) \<times> send_report list \<times> 's mctx_context \<times> 'w" where
  "send_all os payload out ctx w =
     (case send_each os (ctx_publications ctx) payload out (ctx_metrics ctx) w of
        (e, ps', out', m', w') \<Rightarrow>
          ((case e of Some x \<Rightarrow> Err x | None \<Rightarrow> Ok (length out' - length out)),
           out', ctx\<lparr>ctx_publications := ps', ctx_metrics := m'\<rparr>, w'))"

section \<open>The context as a registry\<close>

definition ids_ok :: "'s mctx_context \<Rightarrow> bool" where
  "ids_ok ctx \<longleftrightarrow> distinct (map pub_id (ctx_publications ctx)) \<and>
     (\<forall>p \<in> set (ctx_publications ctx). pub_id p < ctx_next_id ctx)"

definition ctx_insert :: "'s publication \<Rightarrow> 's mctx_context \<Rightarrow> 's mctx_context" where
  "ctx_insert p ctx = snd (insert_publication p (snd (next_publication_id ctx)))"

lemma take_publication_Ok:
  assumes "ids_ok ctx"
  shows "\<exists>ctx'. take_publication i ctx = Inr (get_publication ctx i, ctx') \<and> ids_ok ctx' \<and>
     get_publication ctx' = (get_publication ctx)(i := None) \<and> ctx_next_id ctx' = ctx_next_id ctx"
proof (cases "position (\<lambda>p. pub_id p = i) (ctx_publications ctx)")
  case None
  then have "get_publication ctx i = None" by (simp add: get_publication_def find_position)
  with None assms show ?thesis by (auto simp: take_publication_def)
next
  case (Some k)
  from position_Some [OF Some] have k: "k < length (ctx_publications ctx)"
    "pub_id (ctx_publications ctx ! k) = i" by auto
  from assms have dist: "distinct (map pub_id (ctx_publications ctx))" by (simp add: ids_ok_def)
  have "get_publication ctx i = Some (ctx_publications ctx ! k)"
    by (simp add: get_publication_def find_position Some)
  moreover have "get_publication ctx' = (get_publication ctx)(i := None)"
    if "ctx_publications ctx' = butlast ((ctx_publications ctx)[k := last (ctx_publications ctx)])"
    for ctx' :: "'a mctx_context"
    using find_key_swap_removed [OF k(1) dist] k(2) by (auto simp: get_publication_def that)
  ultimately show ?thesis
    using Some k dist assms set_swap_removed [OF k(1) dist]
    by (auto simp: take_publication_def finish_publication_removal_def swap_remove_Ok ids_ok_def
        distinct_swap_removed)
qed

interpretation ctx_registry: publication_registry ids_ok ctx_next_id get_publication ctx_insert
  "\<lambda>ctx. snd (next_publication_id ctx)" take_publication publication_count pub_id
proof unfold_locales
  fix ctx :: "'s mctx_context" and p :: "'s publication"
  assume inv: "ids_ok ctx" and id: "pub_id p = ctx_next_id ctx" and room: "ctx_next_id ctx \<noteq> - 1"
  from inv have new: "pub_id p \<notin> pub_id ` set (ctx_publications ctx)" by (auto simp: ids_ok_def id)
  have "get_publication (ctx_insert p ctx) = (get_publication ctx)(ctx_next_id ctx \<mapsto> p)"
    using new find_key_None [of pub_id "pub_id p" "ctx_publications ctx"]
    by (auto simp: get_publication_def ctx_insert_def insert_publication_def next_publication_id_def
        find_key_append id split: option.splits)
  then show "ids_ok (ctx_insert p ctx) \<and>
      get_publication (ctx_insert p ctx) = (get_publication ctx)(ctx_next_id ctx \<mapsto> p) \<and>
      ctx_next_id (ctx_insert p ctx) = ctx_next_id ctx + 1"
    using inv new less_word_plus_one [OF room]
    by (auto simp: ids_ok_def ctx_insert_def insert_publication_def next_publication_id_def id)
next
  fix ctx :: "'s mctx_context"
  assume "ids_ok ctx" and room: "ctx_next_id ctx \<noteq> - 1"
  then show "ids_ok (snd (next_publication_id ctx)) \<and>
      get_publication (snd (next_publication_id ctx)) = get_publication ctx \<and>
      ctx_next_id (snd (next_publication_id ctx)) = ctx_next_id ctx + 1"
    using less_word_plus_one [OF room]
    by (auto simp: ids_ok_def next_publication_id_def get_publication_def)
next
  fix ctx :: "'s mctx_context" and i
  assume "ids_ok ctx"
  then show "\<exists>ctx'. take_publication i ctx = Inr (get_publication ctx i, ctx') \<and> ids_ok ctx' \<and>
     get_publication ctx' = (get_publication ctx)(i := None) \<and> ctx_next_id ctx' = ctx_next_id ctx"
    by (rule take_publication_Ok)
next
  fix ctx :: "'s mctx_context" and i p
  assume "ids_ok ctx" "get_publication ctx i = Some p"
  then show "pub_id p = i \<and> i < ctx_next_id ctx"
    by (auto simp: ids_ok_def get_publication_def find_key)
next
  fix ctx :: "'s mctx_context"
  assume "ids_ok ctx"
  then show "finite (dom (get_publication ctx)) \<and> publication_count ctx = card (dom (get_publication ctx))"
    using card_dom_find_key [of pub_id "ctx_publications ctx"]
    by (auto simp: ids_ok_def get_publication_def [abs_def] publication_count_def)
qed

text \<open>
  C8. Any sequence of insertions, failed insertions and removals on a context runs without a
  panic and has the effect of the same operations on a finite map, as long as identifiers
  are left; an identifier that was handed out and is no longer stored never finds a
  publication again.
\<close>

theorem context_refines_map:
  assumes "ids_ok ctx" and "unat (ctx_next_id ctx) + length cmds < 2 ^ 64"
    and "\<forall>f n. Insert f \<in> set cmds \<longrightarrow> pub_id (f n) = n"
  shows "\<exists>ctx'. run_cmds ctx_next_id ctx_insert (\<lambda>c. snd (next_publication_id c)) take_publication cmds ctx = Inr ctx' \<and>
     ids_ok ctx' \<and>
     (get_publication ctx', ctx_next_id ctx') = fold abs_cmd cmds (get_publication ctx, ctx_next_id ctx) \<and>
     (\<forall>i < ctx_next_id ctx. get_publication ctx i = None \<longrightarrow> get_publication ctx' i = None)"
proof -
  from ctx_registry.run_refines [OF assms] obtain ctx' where
    run: "run_cmds ctx_next_id ctx_insert (\<lambda>c. snd (next_publication_id c)) take_publication cmds ctx = Inr ctx'"
      "ids_ok ctx'"
      "(get_publication ctx', ctx_next_id ctx') = fold abs_cmd cmds (get_publication ctx, ctx_next_id ctx)"
    by blast
  have "get_publication ctx' i = None" if "i < ctx_next_id ctx" "get_publication ctx i = None" for i
    using ctx_registry.id_never_reused [OF assms that] run(1) by simp
  with run show ?thesis by blast
qed

definition sample_publication :: "u64 \<Rightarrow> nat publication" where
  "sample_publication i =
     \<lparr>pub_id = i, pub_config = config_new (V4 (Ipv4Addr 239 0 0 1)) 5000, pub_socket = 3,
      pub_destination = SockV4 (socket_addr_v4_new (Ipv4Addr 239 0 0 1) 5000),
      pub_cached_local_addr = None, pub_metrics = metrics_default\<rparr>"

theorem context_refines_map_witness:
  "ids_ok (context_new :: nat mctx_context) \<and>
   (\<exists>ctx'. run_cmds ctx_next_id ctx_insert (\<lambda>c. snd (next_publication_id c)) take_publication
       [Insert sample_publication, Skip, Insert sample_publication, Take 1] context_new = Inr ctx' \<and>
     get_publication ctx' = [3 \<mapsto> sample_publication 3] \<and> ctx_next_id ctx' = 4)"
proof -
  let ?cmds = "[Insert sample_publication, Skip, Insert sample_publication, Take 1]"
  have inv: "ids_ok (context_new :: nat mctx_context)"
    by (simp add: ids_ok_def context_new_def)
  moreover have "unat (ctx_next_id (context_new :: nat mctx_context)) + length ?cmds < 2 ^ 64"
    by (simp add: context_new_def)
  moreover have "get_publication (context_new :: nat mctx_context) = Map.empty"
    by (auto simp: get_publication_def context_new_def)
  ultimately show ?thesis
    using context_refines_map [of "context_new :: nat mctx_context" ?cmds]
    by (auto simp: sample_publication_def context_new_def)
qed

section \<open>Adding a publication\<close>

text \<open>What the constructors promise the context: the identifier, the configuration, no panic.\<close>

definition good_create :: "publication_config \<Rightarrow> (u64 \<Rightarrow> ('w, mctx_error, 's publication) io) \<Rightarrow> bool" where
  "good_create c create \<longleftrightarrow> (\<forall>i. io_safe (create i) \<and> (\<forall>w p w'. create i w = (Inr p, w') \<longrightarrow>
     pub_id p = i \<and> pub_config p = c \<and> config_validate c = Ok () \<and>
     sock_ip (pub_destination p) = pc_group c \<and> sock_port (pub_destination p) = pc_dst_port c \<and>
     pub_metrics p = metrics_default))"

lemma good_create_new: "good_create c (\<lambda>i. publication_new os i c)"
  unfolding good_create_def
proof (intro allI conjI impI, goal_cases)
  case (1 i)
  then show ?case
    unfolding publication_new_def Let_def by (auto intro!: mctx_panic configure_socket_safe simp: mctx_result)
qed (auto simp: publication_new_def Let_def mctx_result dest: configure_socket_Ok)

lemma good_create_socket: "good_create c (\<lambda>i. publication_new_with_socket os i c s)"
  unfolding good_create_def
proof (intro allI conjI impI, goal_cases)
  case (1 i)
  then show ?case
    unfolding publication_new_with_socket_def
    by (auto intro!: mctx_panic configure_socket_safe simp: mctx_result)
qed (auto simp: publication_new_with_socket_def mctx_result dest: configure_socket_Ok)

lemma good_create_udp: "good_create c (\<lambda>i. publication_new_with_udp_socket os i c s)"
  using good_create_socket by (simp add: publication_new_with_udp_socket_def)

lemma ensure_unique_Ok:
  "ensure_publication_config_is_unique ctx c = Inr u \<longleftrightarrow> c \<notin> pub_config ` set (ctx_publications ctx)"
  "ensure_publication_config_is_unique ctx c = Inl e \<longleftrightarrow>
     c \<in> pub_config ` set (ctx_publications ctx) \<and> e = DuplicatePublication"
  by (auto simp: ensure_publication_config_is_unique_def list_ex_iff)

text \<open>The three outcomes of an addition.\<close>

lemma add_with_cases:
  assumes "add_with create c ctx w = (r, ctx', w')" and "good_create c create"
  obtains (dup) "c \<in> pub_config ` set (ctx_publications ctx)" "r = Err (Raised DuplicatePublication)"
      "ctx' = ctx" "w' = w"
  | (failed) e where "c \<notin> pub_config ` set (ctx_publications ctx)" "r = Err (Raised e)"
      "ctx' = snd (next_publication_id ctx)"
  | (added) p where "c \<notin> pub_config ` set (ctx_publications ctx)" "r = Ok (ctx_next_id ctx)"
      "ctx' = ctx_insert p ctx" "pub_id p = ctx_next_id ctx" "pub_config p = c"
      "config_validate c = Ok ()" "sock_ip (pub_destination p) = pc_group c"
      "sock_port (pub_destination p) = pc_dst_port c" "pub_metrics p = metrics_default"
proof (cases "ensure_publication_config_is_unique ctx c")
  case (Inl e)
  with assms(1) show ?thesis by (intro dup) (auto simp: add_with_def ensure_unique_Ok)
next
  case (Inr u)
  obtain q w1 where q: "create (ctx_next_id ctx) w = (q, w1)" by force
  show ?thesis
  proof (cases q)
    case (Inl f)
    have "f \<noteq> Panicked"
      using assms(2) q Inl io_safeD unfolding good_create_def by metis
    then obtain e where "f = Raised e" by (cases f) auto
    with assms(1) Inr q Inl show ?thesis
      by (intro failed [of e]) (auto simp: add_with_def ensure_unique_Ok next_publication_id_def)
  next
    case (Inr p)
    with assms(2) q have p: "pub_id p = ctx_next_id ctx" "pub_config p = c" "config_validate c = Ok ()"
        "sock_ip (pub_destination p) = pc_group c" "sock_port (pub_destination p) = pc_dst_port c"
        "pub_metrics p = metrics_default"
      unfolding good_create_def by blast+
    with assms(1) \<open>ensure_publication_config_is_unique ctx c = Inr u\<close> q Inr show ?thesis
      by (intro added [of p])
        (auto simp: add_with_def ensure_unique_Ok next_publication_id_def ctx_insert_def insert_publication_def)
  qed
qed

text \<open>
  Adding a publication. On success the identifier is the next one, was not in use, and
  now finds a publication with the given configuration, while every other identifier finds what
  it found before. On an error the stored publications are untouched; when the configuration
  is already stored, the error is the duplicate error and nothing has changed at all.
\<close>

theorem add_publication_effect:
  assumes "ids_ok ctx" and "ctx_next_id ctx \<noteq> - 1" and "add_publication os c ctx w = (r, ctx', w')"
  shows "ids_ok ctx' \<and> (case r of
     Inr i \<Rightarrow> i = ctx_next_id ctx \<and> get_publication ctx i = None \<and> config_validate c = Ok () \<and>
       (\<exists>p. pub_config p = c \<and> get_publication ctx' = (get_publication ctx)(i \<mapsto> p)) \<and>
       publication_count ctx' = publication_count ctx + 1
   | Inl f \<Rightarrow> f \<noteq> Panicked \<and> ctx_publications ctx' = ctx_publications ctx \<and>
       (f = Raised DuplicatePublication \<or> c \<notin> pub_config ` set (ctx_publications ctx)) \<and>
       (c \<in> pub_config ` set (ctx_publications ctx) \<longrightarrow> ctx' = ctx \<and> w' = w))"
proof -
  have fresh: "get_publication ctx (ctx_next_id ctx) = None"
    using assms(1) ctx_registry.lkp_law [of ctx "ctx_next_id ctx"]
    by (cases "get_publication ctx (ctx_next_id ctx)") auto
  show ?thesis
    using assms(3) [unfolded add_publication_def] good_create_new
  proof (cases rule: add_with_cases)
    case dup
    then show ?thesis using assms(1) by simp
  next
    case failed
    then show ?thesis using ctx_registry.skp_law [OF assms(1,2)] by (simp add: next_publication_id_def)
  next
    case (added p)
    then show ?thesis using ctx_registry.ins_law [OF assms(1) _ assms(2), of p] fresh
      by (auto simp: publication_count_def ctx_insert_def insert_publication_def next_publication_id_def)
  qed
qed

theorem add_publication_effect_witness:
  "let c = config_new (V4 (Ipv4Addr 239 0 0 1)) 5000;
       w = device_start 0;
       ctx = (context_new :: nat mctx_context)
   in fst (add_publication device_os c ctx w) = Inr 1 \<and> get_publication ctx 1 = None \<and>
      publication_count (fst (snd (add_publication device_os c ctx w))) = 1"
proof -
  define c where "c = config_new (V4 (Ipv4Addr 239 0 0 1)) 5000"
  define w where "w = device_start 0"
  define ctx where "ctx = (context_new :: nat mctx_context)"
  have one: "fst (add_publication device_os c ctx w) = Inr 1"
    unfolding c_def w_def ctx_def by code_simp
  obtain r ctx' w' where run: "add_publication device_os c ctx w = (r, ctx', w')" by (metis prod_cases3)
  have inv: "ids_ok ctx" "ctx_next_id ctx \<noteq> - 1" by (simp_all add: ctx_def ids_ok_def context_new_def)
  from add_publication_effect [OF inv run] one run
  have "get_publication ctx 1 = None" "publication_count ctx' = 1"
    by (simp_all add: publication_count_def ctx_def context_new_def)
  with one run show ?thesis unfolding c_def w_def ctx_def Let_def by simp
qed

section \<open>Sending\<close>

text \<open>What sends leave of a publication.\<close>

definition same_pub :: "'s publication \<Rightarrow> 's publication \<Rightarrow> bool" where
  "same_pub p p' \<longleftrightarrow> pub_id p' = pub_id p \<and> pub_config p' = pub_config p \<and> pub_socket p' = pub_socket p \<and>
     pub_destination p' = pub_destination p \<and> (metrics_ok (pub_metrics p) \<longrightarrow> metrics_ok (pub_metrics p'))"

lemma same_pub_refl [simp]: "same_pub p p"
  by (simp add: same_pub_def)

lemma send_same_pub: "publication_send os p b w = (r, p', w') \<Longrightarrow> same_pub p p'"
  using publication_send_effect [of os p b w r p' w'] by (cases r) (auto simp: same_pub_def)

lemma context_counts [simp]:
  "cm_total_send_calls (record_send_success n m) = cm_total_send_calls m + 1"
  "cm_total_packets_sent (record_send_success n m) = cm_total_packets_sent m + 1"
  "cm_total_bytes_sent (record_send_success n m) = cm_total_bytes_sent m + of_nat n"
  "cm_total_send_errors (record_send_success n m) = cm_total_send_errors m"
  "cm_total_send_calls (record_send_error m) = cm_total_send_calls m + 1"
  "cm_total_packets_sent (record_send_error m) = cm_total_packets_sent m"
  "cm_total_bytes_sent (record_send_error m) = cm_total_bytes_sent m"
  "cm_total_send_errors (record_send_error m) = cm_total_send_errors m + 1"
  by (simp_all add: record_send_success_def record_send_error_def guarded_def)

lemma send_each_effect:
  assumes "send_each os ps payload out m w = (e, ps', out', m', w')"
  shows "\<exists>rs. out' = out @ rs \<and> list_all2 same_pub ps ps' \<and>
     map sr_publication_id rs = map pub_id (take (length rs) ps) \<and>
     map sr_destination rs = map pub_destination (take (length rs) ps) \<and>
     cm_total_packets_sent m' = cm_total_packets_sent m + of_nat (length rs) \<and>
     cm_total_bytes_sent m' = cm_total_bytes_sent m + of_nat (sum_list (map sr_bytes_sent rs)) \<and>
     (case e of
        None \<Rightarrow> length rs = length ps \<and>
          cm_total_send_calls m' = cm_total_send_calls m + of_nat (length rs) \<and>
          cm_total_send_errors m' = cm_total_send_errors m
      | Some x \<Rightarrow> length rs < length ps \<and> drop (Suc (length rs)) ps' = drop (Suc (length rs)) ps \<and>
          (\<exists>y. x = SendFailed y) \<and>
          cm_total_send_calls m' = cm_total_send_calls m + of_nat (length rs) + 1 \<and>
          cm_total_send_errors m' = cm_total_send_errors m + 1)"
  using assms
proof (induction ps arbitrary: out m w ps')
  case Nil
  then show ?case by simp
next
  case (Cons p ps)
  obtain r p1 w1 where one: "publication_send os p payload w = (r, p1, w1)" by (metis prod_cases3)
  note eff = publication_send_effect [OF one] send_same_pub [OF one]
  show ?case
  proof (cases r)
    case (Inl x)
    with Cons.prems one eff show ?thesis by (auto simp: list_all2_same)
  next
    case (Inr rep)
    let ?m = "record_send_success (sr_bytes_sent rep) m"
    obtain ps1 where rest: "send_each os ps payload (out @ [rep]) ?m w1 = (e, ps1, out', m', w')"
        "ps' = p1 # ps1"
      using Cons.prems one Inr by (auto split: prod.splits)
    from Cons.IH [OF rest(1)]
    obtain rs where rs: "out' = (out @ [rep]) @ rs" "list_all2 same_pub ps ps1"
     "map sr_publication_id rs = map pub_id (take (length rs) ps)"
     "map sr_destination rs = map pub_destination (take (length rs) ps)"
     "cm_total_packets_sent m' = cm_total_packets_sent ?m + of_nat (length rs)"
     "cm_total_bytes_sent m' = cm_total_bytes_sent ?m + of_nat (sum_list (map sr_bytes_sent rs))"
     "(case e of
        None \<Rightarrow> length rs = length ps \<and>
          cm_total_send_calls m' = cm_total_send_calls ?m + of_nat (length rs) \<and>
          cm_total_send_errors m' = cm_total_send_errors ?m
      | Some x \<Rightarrow> length rs < length ps \<and> drop (Suc (length rs)) ps1 = drop (Suc (length rs)) ps \<and>
          (\<exists>y. x = SendFailed y) \<and>
          cm_total_send_calls m' = cm_total_send_calls ?m + of_nat (length rs) + 1 \<and>
          cm_total_send_errors m' = cm_total_send_errors ?m + 1)" by blast
    from rs eff Inr rest(2) show ?thesis
      by (intro exI [of _ "rep # rs"]) (auto simp: algebra_simps split: option.splits)
  qed
qed

end
