(* ===== verification/Metrics_Sampling.thy ===== *)
theory Metrics_Sampling
  imports Mctx_Context
begin

text \<open>
  Snapshots of the counters, differences between them and the samplers (\<open>src/metrics.rs\<close>, the
  snapshot functions of \<open>src/publication.rs\<close> and \<open>src/context.rs\<close>). Points in time and durations
  are numbers of nanoseconds, which an interval in seconds is computed from where it is used. The clock readings of a call are its arguments. The two samplers
  of the source differ only in the kind of snapshot, so they are instances of one definition.
\<close>

section \<open>Snapshots\<close>

record publication_snapshot =
  ps_send_calls :: u64
  ps_packets_sent :: u64
  ps_bytes_sent :: u64
  ps_send_errors :: u64
  ps_captured_at :: nat

record publication_delta =
  pd_interval :: nat
  pd_send_calls :: u64
  pd_packets_sent :: u64
  pd_bytes_sent :: u64
  pd_send_errors :: u64

record context_snapshot =
  cs_publications_added :: u64
  cs_publications_removed :: u64
  cs_active_publications :: nat
  cs_total_send_calls :: u64
  cs_total_packets_sent :: u64
  cs_total_bytes_sent :: u64
  cs_total_send_errors :: u64
  cs_captured_at :: nat

record context_delta =
  cd_interval :: nat
  cd_publications_added :: u64
  cd_publications_removed :: u64
  cd_send_calls :: u64
  cd_packets_sent :: u64
  cd_bytes_sent :: u64
  cd_send_errors :: u64

section \<open>Rates\<close>

text \<open>
  Floating-point numbers are a parameter: the number of a count, zero, and a count divided by an interval.
\<close>

record 'n num_api =
  nu_count :: "nat \<Rightarrow> 'n"
  nu_zero :: 'n
  nu_div :: "u64 \<Rightarrow> nat \<Rightarrow> 'n"

definition rate_per_sec :: "'n num_api \<Rightarrow> u64 \<Rightarrow> nat \<Rightarrow> 'n" where
  "rate_per_sec nu count interval = (if interval > 0 then nu_div nu count interval else nu_zero nu)"

definition publication_send_calls_per_sec :: "'n num_api \<Rightarrow> publication_delta \<Rightarrow> 'n" where
  "publication_send_calls_per_sec nu d = rate_per_sec nu (pd_send_calls d) (pd_interval d)"

definition publication_packets_per_sec :: "'n num_api \<Rightarrow> publication_delta \<Rightarrow> 'n" where
  "publication_packets_per_sec nu d = rate_per_sec nu (pd_packets_sent d) (pd_interval d)"

definition publication_bytes_per_sec :: "'n num_api \<Rightarrow> publication_delta \<Rightarrow> 'n" where
  "publication_bytes_per_sec nu d = rate_per_sec nu (pd_bytes_sent d) (pd_interval d)"

definition publication_send_errors_per_sec :: "'n num_api \<Rightarrow> publication_delta \<Rightarrow> 'n" where
  "publication_send_errors_per_sec nu d = rate_per_sec nu (pd_send_errors d) (pd_interval d)"

definition context_send_calls_per_sec :: "'n num_api \<Rightarrow> context_delta \<Rightarrow> 'n" where
  "context_send_calls_per_sec nu d = rate_per_sec nu (cd_send_calls d) (cd_interval d)"

definition context_packets_per_sec :: "'n num_api \<Rightarrow> context_delta \<Rightarrow> 'n" where
  "context_packets_per_sec nu d = rate_per_sec nu (cd_packets_sent d) (cd_interval d)"

definition context_bytes_per_sec :: "'n num_api \<Rightarrow> context_delta \<Rightarrow> 'n" where
  "context_bytes_per_sec nu d = rate_per_sec nu (cd_bytes_sent d) (cd_interval d)"

definition context_send_errors_per_sec :: "'n num_api \<Rightarrow> context_delta \<Rightarrow> 'n" where
  "context_send_errors_per_sec nu d = rate_per_sec nu (cd_send_errors d) (cd_interval d)"

section \<open>Taking snapshots\<close>

text \<open>A snapshot with no concurrent update; concurrent ones are the subject of the sequence lock.\<close>

definition publication_metrics_snapshot :: "nat \<Rightarrow> 's publication \<Rightarrow> publication_snapshot" where
  "publication_metrics_snapshot now p =
     \<lparr>ps_send_calls = pm_send_calls (pub_metrics p), ps_packets_sent = pm_packets_sent (pub_metrics p),
      ps_bytes_sent = pm_bytes_sent (pub_metrics p), ps_send_errors = pm_send_errors (pub_metrics p),
      ps_captured_at = now\<rparr>"

definition context_metrics_snapshot :: "nat \<Rightarrow> 's mctx_context \<Rightarrow> context_snapshot" where
  "context_metrics_snapshot now ctx =
     \<lparr>cs_publications_added = cm_publications_added (ctx_metrics ctx),
      cs_publications_removed = cm_publications_removed (ctx_metrics ctx),
      cs_active_publications = length (ctx_publications ctx),
      cs_total_send_calls = cm_total_send_calls (ctx_metrics ctx),
      cs_total_packets_sent = cm_total_packets_sent (ctx_metrics ctx),
      cs_total_bytes_sent = cm_total_bytes_sent (ctx_metrics ctx),
      cs_total_send_errors = cm_total_send_errors (ctx_metrics ctx),
      cs_captured_at = now\<rparr>"

section \<open>Differences\<close>

text \<open>\<open>u64::checked_sub\<close> and the differences of points in time\<close>

definition checked_sub :: "u64 \<Rightarrow> u64 \<Rightarrow> u64 option" where
  "checked_sub a b = (if b \<le> a then Some (a - b) else None)"

definition duration_since :: "nat \<Rightarrow> nat \<Rightarrow> nat option" where
  "duration_since later earlier = (if earlier \<le> later then Some (later - earlier) else None)"

definition publication_delta_since_duration ::
  "publication_snapshot \<Rightarrow> publication_snapshot \<Rightarrow> nat \<Rightarrow> publication_delta option" where
  "publication_delta_since_duration self earlier duration =
     Option.bind (checked_sub (ps_send_calls self) (ps_send_calls earlier)) (\<lambda>send_calls.
     Option.bind (checked_sub (ps_packets_sent self) (ps_packets_sent earlier)) (\<lambda>packets_sent.
     Option.bind (checked_sub (ps_bytes_sent self) (ps_bytes_sent earlier)) (\<lambda>bytes_sent.
     Option.bind (checked_sub (ps_send_errors self) (ps_send_errors earlier)) (\<lambda>send_errors.
     Some \<lparr>pd_interval = duration, pd_send_calls = send_calls, pd_packets_sent = packets_sent,
           pd_bytes_sent = bytes_sent, pd_send_errors = send_errors\<rparr>))))"

definition publication_delta_since ::
  "publication_snapshot \<Rightarrow> publication_snapshot \<Rightarrow> publication_delta option" where
  "publication_delta_since self earlier =
     Option.bind (duration_since (ps_captured_at self) (ps_captured_at earlier))
       (publication_delta_since_duration self earlier)"

definition context_delta_since_duration ::
  "context_snapshot \<Rightarrow> context_snapshot \<Rightarrow> nat \<Rightarrow> context_delta option" where
  "context_delta_since_duration self earlier duration =
     Option.bind (checked_sub (cs_publications_added self) (cs_publications_added earlier)) (\<lambda>publications_added.
     Option.bind (checked_sub (cs_publications_removed self) (cs_publications_removed earlier)) (\<lambda>publications_removed.
     Option.bind (checked_sub (cs_total_send_calls self) (cs_total_send_calls earlier)) (\<lambda>send_calls.
     Option.bind (checked_sub (cs_total_packets_sent self) (cs_total_packets_sent earlier)) (\<lambda>packets_sent.
     Option.bind (checked_sub (cs_total_bytes_sent self) (cs_total_bytes_sent earlier)) (\<lambda>bytes_sent.
     Option.bind (checked_sub (cs_total_send_errors self) (cs_total_send_errors earlier)) (\<lambda>send_errors.
     Some \<lparr>cd_interval = duration, cd_publications_added = publications_added,
           cd_publications_removed = publications_removed, cd_send_calls = send_calls,
           cd_packets_sent = packets_sent, cd_bytes_sent = bytes_sent, cd_send_errors = send_errors\<rparr>))))))"

definition context_delta_since :: "context_snapshot \<Rightarrow> context_snapshot \<Rightarrow> context_delta option" where
  "context_delta_since self earlier =
     Option.bind (duration_since (cs_captured_at self) (cs_captured_at earlier))
       (context_delta_since_duration self earlier)"

section \<open>Samplers\<close>

record 'snap sampler =
  sp_previous :: "'snap option"
  sp_previous_sampled_at :: "nat option"

definition sampler_new :: "'snap sampler" where
  "sampler_new = \<lparr>sp_previous = None, sp_previous_sampled_at = None\<rparr>"

definition sampler_reset :: "'snap sampler \<Rightarrow> 'snap sampler" where
  "sampler_reset s = s\<lparr>sp_previous := None, sp_previous_sampled_at := None\<rparr>"

definition sample_snapshot ::
  "('snap \<Rightarrow> 'snap \<Rightarrow> 'd option) \<Rightarrow> 'snap \<Rightarrow> 'snap sampler \<Rightarrow> 'd option \<times> 'snap sampler" where
  "sample_snapshot delta_since current s =
     (Option.bind (sp_previous s) (\<lambda>previous. delta_since current previous),
      s\<lparr>sp_previous := Some current, sp_previous_sampled_at := None\<rparr>)"

definition sample_snapshot_at ::
  "('snap \<Rightarrow> 'snap \<Rightarrow> nat \<Rightarrow> 'd option) \<Rightarrow> 'snap \<Rightarrow> nat \<Rightarrow> 'snap sampler \<Rightarrow> 'd option \<times> 'snap sampler" where
  "sample_snapshot_at delta_since_duration current sampled_at s =
     ((case (sp_previous s, sp_previous_sampled_at s) of
         (Some previous, Some previous_sampled_at) \<Rightarrow>
           Option.bind (duration_since sampled_at previous_sampled_at) (delta_since_duration current previous)
       | _ \<Rightarrow> None),
      s\<lparr>sp_previous := Some current, sp_previous_sampled_at := Some sampled_at\<rparr>)"

text \<open>\<open>sample\<close>: the publication or context as it is now, and the readings of the two clocks.\<close>

definition publication_sample ::
  "'s publication \<Rightarrow> nat \<Rightarrow> nat \<Rightarrow> publication_snapshot sampler \<Rightarrow> publication_delta option \<times> publication_snapshot sampler" where
  "publication_sample p wall instant =
     sample_snapshot_at publication_delta_since_duration (publication_metrics_snapshot wall p) instant"

definition context_sample ::
  "'s mctx_context \<Rightarrow> nat \<Rightarrow> nat \<Rightarrow> context_snapshot sampler \<Rightarrow> context_delta option \<times> context_snapshot sampler" where
  "context_sample ctx wall instant =
     sample_snapshot_at context_delta_since_duration (context_metrics_snapshot wall ctx) instant"

section \<open>Facts\<close>

lemma checked_sub_eq: "checked_sub a b = Some c \<longleftrightarrow> b \<le> a \<and> c = a - b"
  by (auto simp: checked_sub_def)

lemma duration_since_eq: "duration_since a b = Some c \<longleftrightarrow> b \<le> a \<and> c = a - b"
  by (auto simp: duration_since_def)

lemma publication_delta_Some:
  "publication_delta_since_duration a b t = Some d \<longleftrightarrow>
     ps_send_calls b \<le> ps_send_calls a \<and> ps_packets_sent b \<le> ps_packets_sent a \<and>
     ps_bytes_sent b \<le> ps_bytes_sent a \<and> ps_send_errors b \<le> ps_send_errors a \<and>
     d = \<lparr>pd_interval = t, pd_send_calls = ps_send_calls a - ps_send_calls b,
          pd_packets_sent = ps_packets_sent a - ps_packets_sent b,
          pd_bytes_sent = ps_bytes_sent a - ps_bytes_sent b,
          pd_send_errors = ps_send_errors a - ps_send_errors b\<rparr>"
  by (auto simp: publication_delta_since_duration_def bind_eq_Some_conv checked_sub_eq)

lemma context_delta_Some:
  "context_delta_since_duration a b t = Some d \<longleftrightarrow>
     cs_publications_added b \<le> cs_publications_added a \<and> cs_publications_removed b \<le> cs_publications_removed a \<and>
     cs_total_send_calls b \<le> cs_total_send_calls a \<and> cs_total_packets_sent b \<le> cs_total_packets_sent a \<and>
     cs_total_bytes_sent b \<le> cs_total_bytes_sent a \<and> cs_total_send_errors b \<le> cs_total_send_errors a \<and>
     d = \<lparr>cd_interval = t, cd_publications_added = cs_publications_added a - cs_publications_added b,
          cd_publications_removed = cs_publications_removed a - cs_publications_removed b,
          cd_send_calls = cs_total_send_calls a - cs_total_send_calls b,
          cd_packets_sent = cs_total_packets_sent a - cs_total_packets_sent b,
          cd_bytes_sent = cs_total_bytes_sent a - cs_total_bytes_sent b,
          cd_send_errors = cs_total_send_errors a - cs_total_send_errors b\<rparr>"
  by (auto simp: context_delta_since_duration_def bind_eq_Some_conv checked_sub_eq)

lemma publication_delta_None:
  "publication_delta_since_duration a b t = None \<longleftrightarrow>
     \<not> (ps_send_calls b \<le> ps_send_calls a \<and> ps_packets_sent b \<le> ps_packets_sent a \<and>
        ps_bytes_sent b \<le> ps_bytes_sent a \<and> ps_send_errors b \<le> ps_send_errors a)"
  by (auto simp: publication_delta_since_duration_def checked_sub_def)

section \<open>What a sampler relies on, and what its callers get\<close>

text \<open>Samples taken one after the other, each a snapshot and a reading of the monotonic clock.\<close>

fun run_sampler ::
  "('snap \<Rightarrow> 'snap \<Rightarrow> nat \<Rightarrow> 'd option) \<Rightarrow> ('snap \<times> nat) list \<Rightarrow> 'snap sampler \<Rightarrow> 'd option list \<times> 'snap sampler" where
  "run_sampler delta [] s = ([], s)"
| "run_sampler delta ((x, t) # xs) s =
     (case sample_snapshot_at delta x t s of (d, s1) \<Rightarrow> case run_sampler delta xs s1 of (ds, s2) \<Rightarrow> (d # ds, s2))"

text \<open>Counters that only grow, at times that only grow.\<close>

fun growing :: "('snap \<Rightarrow> u64 list) \<Rightarrow> ('snap \<times> nat) list \<Rightarrow> bool" where
  "growing counters ((x, t) # (y, u) # xs) \<longleftrightarrow>
     list_all2 (\<le>) (counters x) (counters y) \<and> t \<le> u \<and> growing counters ((y, u) # xs)"
| "growing counters _ \<longleftrightarrow> True"

locale counter_deltas =
  fixes counters :: "'snap \<Rightarrow> u64 list"
    and delta :: "'snap \<Rightarrow> 'snap \<Rightarrow> nat \<Rightarrow> 'd option"
    and amounts :: "'d \<Rightarrow> u64 list"
    and interval :: "'d \<Rightarrow> nat"
  assumes delta_iff: "(\<exists>d. delta a b t = Some d) \<longleftrightarrow> list_all2 (\<le>) (counters b) (counters a)"
    and delta_amounts: "delta a b t = Some d \<Longrightarrow> amounts d = map2 (-) (counters a) (counters b) \<and> interval d = t"
begin

lemma growing_lengths: "growing counters ((x, t) # xs) \<Longrightarrow> (y, u) \<in> set xs \<Longrightarrow> length (counters y) = length (counters x)"
proof (induction xs arbitrary: x t)
  case (Cons z xs)
  then show ?case by (cases z) (auto dest: list_all2_lengthD)
qed simp

lemma growing_last:
  "growing counters ((x, t) # xs) \<Longrightarrow> k < length (counters x) \<Longrightarrow>
   counters x ! k \<le> counters (fst (last ((x, t) # xs))) ! k \<and> t \<le> snd (last ((x, t) # xs))"
proof (induction xs arbitrary: x t)
  case (Cons z xs)
  obtain y u where z: "z = (y, u)" by force
  have g: "list_all2 (\<le>) (counters x) (counters y)" "t \<le> u" "growing counters ((y, u) # xs)"
    using Cons.prems(1) by (simp_all add: z)
  have k: "k < length (counters y)" "counters x ! k \<le> counters y ! k"
    using g(1) Cons.prems(2) by (simp_all add: list_all2_conv_all_nth)
  from Cons.IH [OF g(3) k(1)] g(2) k(2) show ?case by (auto simp: z)
qed simp

text \<open>Every sample after the first yields a difference, and the differences add up.\<close>

lemma deltas_telescope:
  assumes "growing counters ((x, t) # xs)"
  shows "\<exists>ds. fst (run_sampler delta xs \<lparr>sp_previous = Some x, sp_previous_sampled_at = Some t\<rparr>) = map Some ds \<and>
    t + sum_list (map interval ds) = snd (last ((x, t) # xs)) \<and>
    (\<forall>k < length (counters x).
       unat (counters x ! k) + sum_list (map (\<lambda>d. unat (amounts d ! k)) ds) = unat (counters (fst (last ((x, t) # xs))) ! k))"
  using assms
proof (induction xs arbitrary: x t)
  case (Cons z xs)
  obtain y u where z: "z = (y, u)" by force
  have g: "list_all2 (\<le>) (counters x) (counters y)" "t \<le> u" "growing counters ((y, u) # xs)"
    using Cons.prems by (simp_all add: z)
  from delta_iff g(1) obtain d where d: "delta y x (u - t) = Some d" by blast
  note am = delta_amounts [OF d]
  from Cons.IH [OF g(3)] obtain ds where ds:
    "fst (run_sampler delta xs \<lparr>sp_previous = Some y, sp_previous_sampled_at = Some u\<rparr>) = map Some ds"
    "u + sum_list (map interval ds) = snd (last ((y, u) # xs))"
    "\<forall>k < length (counters y).
       unat (counters y ! k) + sum_list (map (\<lambda>d. unat (amounts d ! k)) ds) = unat (counters (fst (last ((y, u) # xs))) ! k)"
    by blast
  have run: "fst (run_sampler delta (z # xs) \<lparr>sp_previous = Some x, sp_previous_sampled_at = Some t\<rparr>) = map Some (d # ds)"
    using ds(1) d g(2) by (simp add: z sample_snapshot_at_def duration_since_def case_prod_beta)
  have step: "unat (counters x ! k) + unat (amounts d ! k) = unat (counters y ! k)" if "k < length (counters x)" for k
  proof -
    have "k < length (counters y)" "counters x ! k \<le> counters y ! k"
      using g(1) that by (simp_all add: list_all2_conv_all_nth)
    then show ?thesis using am that by (simp add: unat_sub word_le_nat_alt)
  qed
  have len: "length (counters y) = length (counters x)" using g(1) by (simp add: list_all2_lengthD)
  show ?case
  proof (intro exI [of _ "d # ds"] conjI run allI impI)
    show "t + sum_list (map interval (d # ds)) = snd (last ((x, t) # z # xs))"
      using ds(2) am g(2) by (simp add: z)
    show "unat (counters x ! k) + sum_list (map (\<lambda>d. unat (amounts d ! k)) (d # ds)) =
        unat (counters (fst (last ((x, t) # z # xs))) ! k)" if "k < length (counters x)" for k
      using ds(3) step [OF that] that len by (simp add: z add.assoc [symmetric])
  qed
qed simp

end

definition publication_counters :: "publication_snapshot \<Rightarrow> u64 list" where
  "publication_counters x = [ps_send_calls x, ps_packets_sent x, ps_bytes_sent x, ps_send_errors x]"

definition publication_amounts :: "publication_delta \<Rightarrow> u64 list" where
  "publication_amounts d = [pd_send_calls d, pd_packets_sent d, pd_bytes_sent d, pd_send_errors d]"

interpretation publication_deltas: counter_deltas publication_counters publication_delta_since_duration
  publication_amounts pd_interval
  by unfold_locales (auto simp: publication_delta_Some publication_counters_def publication_amounts_def)

definition context_counters :: "context_snapshot \<Rightarrow> u64 list" where
  "context_counters x = [cs_publications_added x, cs_publications_removed x, cs_total_send_calls x,
     cs_total_packets_sent x, cs_total_bytes_sent x, cs_total_send_errors x]"

definition context_amounts :: "context_delta \<Rightarrow> u64 list" where
  "context_amounts d = [cd_publications_added d, cd_publications_removed d, cd_send_calls d,
     cd_packets_sent d, cd_bytes_sent d, cd_send_errors d]"

interpretation context_deltas: counter_deltas context_counters context_delta_since_duration
  context_amounts cd_interval
  by unfold_locales (auto simp: context_delta_Some context_counters_def context_amounts_def)

text \<open>
  Sampling a context loses nothing. On a fresh sampler the first sample yields no difference;
  as long as the counters and the monotonic clock do not go backwards, whatever the wall clock
  does, every later sample yields one, the intervals add up to the time between the first and
  the last sample, and the differences of each counter add up to its growth.
\<close>

theorem context_samples_add_up:
  assumes "growing context_counters ((x, t) # xs)"
  shows "\<exists>ds. fst (run_sampler context_delta_since_duration ((x, t) # xs) sampler_new) = None # map Some ds \<and>
    t + sum_list (map cd_interval ds) = snd (last ((x, t) # xs)) \<and>
    (\<forall>k < 6. unat (context_counters x ! k) + sum_list (map (\<lambda>d. unat (context_amounts d ! k)) ds) =
       unat (context_counters (fst (last ((x, t) # xs))) ! k))"
proof -
  have "fst (run_sampler context_delta_since_duration ((x, t) # xs) sampler_new) =
      None # fst (run_sampler context_delta_since_duration xs \<lparr>sp_previous = Some x, sp_previous_sampled_at = Some t\<rparr>)"
    by (simp add: sampler_new_def sample_snapshot_at_def split: prod.splits)
  moreover have "length (context_counters x) = 6" by (simp add: context_counters_def)
  ultimately show ?thesis using context_deltas.deltas_telescope [OF assms] by auto
qed

definition sample_context_snapshot :: "u64 \<Rightarrow> nat \<Rightarrow> context_snapshot" where
  "sample_context_snapshot n wall =
     \<lparr>cs_publications_added = 1, cs_publications_removed = 0, cs_active_publications = 1, cs_total_send_calls = n,
      cs_total_packets_sent = n, cs_total_bytes_sent = 10 * n, cs_total_send_errors = 0, cs_captured_at = wall\<rparr>"

text \<open>The wall clock goes backwards between the two samples.\<close>

theorem context_samples_add_up_witness:
  "growing context_counters [(sample_context_snapshot 1 10, 3), (sample_context_snapshot 2 5, 7)] \<and>
   (\<exists>ds. fst (run_sampler context_delta_since_duration
        [(sample_context_snapshot 1 10, 3), (sample_context_snapshot 2 5, 7)] sampler_new) = None # map Some ds \<and>
      3 + sum_list (map cd_interval ds) = 7)"
proof -
  have g: "growing context_counters [(sample_context_snapshot 1 10, 3), (sample_context_snapshot 2 5, 7)]"
    by code_simp
  from context_samples_add_up [OF g] g show ?thesis by auto
qed

text \<open>
  C39. A difference of two publication snapshots exists exactly when the later one was not captured
  earlier and no counter went backwards; it is then the exact difference of each counter: the
  earlier count plus the difference is the later count, with no wrap-around.
\<close>

theorem publication_delta_since_exact:
  "(publication_delta_since a b = None \<longleftrightarrow>
      ps_captured_at a < ps_captured_at b \<or> \<not> list_all2 (\<le>) (publication_counters b) (publication_counters a)) \<and>
   (publication_delta_since a b = Some d \<longrightarrow>
      pd_interval d = ps_captured_at a - ps_captured_at b \<and>
      map2 (\<lambda>x y. unat x + unat y) (publication_counters b) (publication_amounts d) = map unat (publication_counters a))"
proof -
  have add: "unat y + unat (x - y) = unat x" if "y \<le> x" for x y :: u64
    using that by (simp add: unat_sub word_le_nat_alt)
  show ?thesis
    by (auto simp: publication_delta_since_def bind_eq_Some_conv bind_eq_None_conv duration_since_def
        publication_delta_None publication_delta_Some publication_counters_def publication_amounts_def add not_less
        split: if_splits)
qed

definition sample_publication_snapshot :: "u64 \<Rightarrow> nat \<Rightarrow> publication_snapshot" where
  "sample_publication_snapshot n wall =
     \<lparr>ps_send_calls = n, ps_packets_sent = n, ps_bytes_sent = 10 * n, ps_send_errors = 0, ps_captured_at = wall\<rparr>"

theorem publication_delta_since_exact_witness:
  "publication_delta_since (sample_publication_snapshot 5 8) (sample_publication_snapshot 2 1) =
     Some \<lparr>pd_interval = 7, pd_send_calls = 3, pd_packets_sent = 3, pd_bytes_sent = 30, pd_send_errors = 0\<rparr> \<and>
   publication_delta_since (sample_publication_snapshot 2 8) (sample_publication_snapshot 5 1) = None"
proof -
  have "publication_delta_since (sample_publication_snapshot 5 8) (sample_publication_snapshot 2 1) =
     Some \<lparr>pd_interval = 7, pd_send_calls = 3, pd_packets_sent = 3, pd_bytes_sent = 30, pd_send_errors = 0\<rparr>"
    by code_simp
  moreover have "\<not> list_all2 (\<le>) (publication_counters (sample_publication_snapshot 5 1))
      (publication_counters (sample_publication_snapshot 2 8))"
    by code_simp
  ultimately show ?thesis using publication_delta_since_exact by blast
qed

end
