(* ===== verification/Context_Runs.thy ===== *)
theory Context_Runs
  imports Mctx_Context "HOL-Library.Multiset"
begin

text \<open>
  Sequences of operations on a context (\<open>src/context.rs\<close>): the effect of sending to all
  publications, and the invariant of every context a program can reach through the public
  operations, by rule induction over the runs.
\<close>

section \<open>Sending to all publications\<close>

text \<open>
  C9. Sending one payload to all publications: the reports pushed are those of an initial part
  of the publications, in their order, and earlier reports are kept. The call succeeds
  exactly when that part is all of them, and then returns their number. After a failure the
  reports already written are preserved, the later publications were not touched, and the
  context counted one call per report and one failed call.
\<close>

theorem send_all_effect:
  assumes "send_all os payload out ctx w = (r, out', ctx', w')"
  shows "\<exists>rs. out' = out @ rs \<and>
     map sr_publication_id rs = map pub_id (take (length rs) (ctx_publications ctx)) \<and>
     map sr_destination rs = map pub_destination (take (length rs) (ctx_publications ctx)) \<and>
     list_all2 same_pub (ctx_publications ctx) (ctx_publications ctx') \<and>
     ctx_next_id ctx' = ctx_next_id ctx \<and>
     cm_total_packets_sent (ctx_metrics ctx') = cm_total_packets_sent (ctx_metrics ctx) + of_nat (length rs) \<and>
     cm_total_bytes_sent (ctx_metrics ctx') =
       cm_total_bytes_sent (ctx_metrics ctx) + of_nat (sum_list (map sr_bytes_sent rs)) \<and>
     (case r of
        Inr n \<Rightarrow> n = length rs \<and> n = publication_count ctx \<and>
          cm_total_send_calls (ctx_metrics ctx') = cm_total_send_calls (ctx_metrics ctx) + of_nat n \<and>
          cm_total_send_errors (ctx_metrics ctx') = cm_total_send_errors (ctx_metrics ctx)
      | Inl e \<Rightarrow> length rs < publication_count ctx \<and> (\<exists>x. e = SendFailed x) \<and>
          drop (Suc (length rs)) (ctx_publications ctx') = drop (Suc (length rs)) (ctx_publications ctx) \<and>
          cm_total_send_calls (ctx_metrics ctx') = cm_total_send_calls (ctx_metrics ctx) + of_nat (length rs) + 1 \<and>
          cm_total_send_errors (ctx_metrics ctx') = cm_total_send_errors (ctx_metrics ctx) + 1)"
proof -
  from assms obtain e ps' m' where st:
      "send_each os (ctx_publications ctx) payload out (ctx_metrics ctx) w = (e, ps', out', m', w')"
      "r = (case e of Some x \<Rightarrow> Err x | None \<Rightarrow> Ok (length out' - length out))"
      "ctx' = ctx\<lparr>ctx_publications := ps', ctx_metrics := m'\<rparr>"
    by (auto simp: send_all_def split: prod.splits)
  from send_each_effect [OF st(1)] obtain rs where
    "out' = out @ rs" "list_all2 same_pub (ctx_publications ctx) ps'" and rs:
    "map sr_publication_id rs = map pub_id (take (length rs) (ctx_publications ctx))"
    "map sr_destination rs = map pub_destination (take (length rs) (ctx_publications ctx))"
    "cm_total_packets_sent m' = cm_total_packets_sent (ctx_metrics ctx) + of_nat (length rs)"
    "cm_total_bytes_sent m' = cm_total_bytes_sent (ctx_metrics ctx) + of_nat (sum_list (map sr_bytes_sent rs))"
    "(case e of
        None \<Rightarrow> length rs = length (ctx_publications ctx) \<and>
          cm_total_send_calls m' = cm_total_send_calls (ctx_metrics ctx) + of_nat (length rs) \<and>
          cm_total_send_errors m' = cm_total_send_errors (ctx_metrics ctx)
      | Some x \<Rightarrow> length rs < length (ctx_publications ctx) \<and>
          drop (Suc (length rs)) ps' = drop (Suc (length rs)) (ctx_publications ctx) \<and>
          (\<exists>y. x = SendFailed y) \<and>
          cm_total_send_calls m' = cm_total_send_calls (ctx_metrics ctx) + of_nat (length rs) + 1 \<and>
          cm_total_send_errors m' = cm_total_send_errors (ctx_metrics ctx) + 1)" by blast
  then show ?thesis
    using st(2,3)
    by (intro exI [of _ rs] conjI) (auto simp: publication_count_def split: option.splits)
qed

text \<open>Two publications and credit for one packet: one report, then the failure.\<close>

theorem send_all_effect_witness:
  "let ctx = \<lparr>ctx_publications = [sample_publication 1, sample_publication 2], ctx_next_id = 3,
              ctx_metrics = context_metrics_default\<rparr>;
       run = send_all device_os [1, 2, 3] [] ctx (device_start 1)
   in fst run = Inl (SendFailed would_block) \<and> length (fst (snd run)) = 1 \<and>
      cm_total_send_calls (ctx_metrics (fst (snd (snd run)))) = 2"
proof -
  define ctx :: "nat mctx_context" where
    "ctx = \<lparr>ctx_publications = [sample_publication 1, sample_publication 2], ctx_next_id = 3,
            ctx_metrics = context_metrics_default\<rparr>"
  obtain r out' ctx' w' where run: "send_all device_os [1, 2, 3] [] ctx (device_start 1) = (r, out', ctx', w')"
    by (metis prod_cases4)
  have r: "fst (send_all device_os [1, 2, 3] [] ctx (device_start 1)) = Inl (SendFailed would_block)"
    unfolding ctx_def by code_simp
  have len: "length (fst (snd (send_all device_os [1, 2, 3] [] ctx (device_start 1)))) = 1"
    unfolding ctx_def by code_simp
  from send_all_effect [OF run] run r len
  have "cm_total_send_calls (ctx_metrics ctx') = 2"
    by (auto simp: ctx_def context_metrics_default_def)
  with run r len show ?thesis by (simp add: ctx_def Let_def)
qed

section \<open>Runs\<close>

text \<open>
  The contexts a program can reach: \<open>n\<close> counts the additions, and the world may change in
  any way between two operations. Through the mutable references a program may use the sockets of
  publications and reorder them; one that overwrites a publication with another is not a run.
\<close>

inductive context_run :: "('w, 's) os_api \<Rightarrow> nat \<Rightarrow> 's mctx_context \<Rightarrow> bool" for os where
  start: "context_run os 0 context_new"
| add: "context_run os n ctx \<Longrightarrow> add_publication os c ctx w = (r, ctx', w') \<Longrightarrow> context_run os (Suc n) ctx'"
| add_socket: "context_run os n ctx \<Longrightarrow> add_publication_with_socket os c s ctx w = (r, ctx', w') \<Longrightarrow>
    context_run os (Suc n) ctx'"
| add_udp: "context_run os n ctx \<Longrightarrow> add_publication_with_udp_socket os c s ctx w = (r, ctx', w') \<Longrightarrow>
    context_run os (Suc n) ctx'"
| tak: "context_run os n ctx \<Longrightarrow> take_publication i ctx = Inr (p, ctx') \<Longrightarrow> context_run os n ctx'"
| remove: "context_run os n ctx \<Longrightarrow> remove_publication i ctx = Inr (b, ctx') \<Longrightarrow> context_run os n ctx'"
| socket: "context_run os n ctx \<Longrightarrow> get_publication_mut (\<lambda>p. snd (socket_mut p)) ctx i = Some ctx' \<Longrightarrow>
    context_run os n ctx'"
| send: "context_run os n ctx \<Longrightarrow> context_send os i payload ctx w = (res, ctx', w') \<Longrightarrow> context_run os n ctx'"
| send_all: "context_run os n ctx \<Longrightarrow> send_all os payload out ctx w = (ra, out', ctx', w') \<Longrightarrow>
    context_run os n ctx'"
| reorder: "context_run os n ctx \<Longrightarrow> mset (f (publications ctx)) = mset (publications ctx) \<Longrightarrow>
    context_run os n (publications_mut f ctx)"

text \<open>
  The invariant: stored configurations are valid and pairwise different, destinations are the
  configured ones, the counters of every publication agree, the gauge of active publications
  is the difference of the counters of additions and removals, and calls split into packets
  and errors.
\<close>

definition pub_ok :: "'s publication \<Rightarrow> bool" where
  "pub_ok p \<longleftrightarrow> config_validate (pub_config p) = Ok () \<and>
     sock_ip (pub_destination p) = pc_group (pub_config p) \<and>
     sock_port (pub_destination p) = pc_dst_port (pub_config p) \<and> metrics_ok (pub_metrics p)"

definition counters_ok :: "nat \<Rightarrow> context_metrics \<Rightarrow> bool" where
  "counters_ok active m \<longleftrightarrow>
     of_nat active = cm_publications_added m - cm_publications_removed m \<and>
     cm_total_send_calls m = cm_total_packets_sent m + cm_total_send_errors m \<and>
     cm_sequence m = 2 * (cm_publications_added m + cm_publications_removed m + cm_total_send_calls m)"

definition context_ok :: "'s mctx_context \<Rightarrow> bool" where
  "context_ok ctx \<longleftrightarrow> distinct (map pub_config (ctx_publications ctx)) \<and>
     (\<forall>p \<in> set (ctx_publications ctx). pub_ok p) \<and>
     counters_ok (publication_count ctx) (ctx_metrics ctx)"

lemma counters_ok_send [simp]:
  "counters_ok n m \<Longrightarrow> counters_ok n (record_result r m)"
  by (cases r) (simp_all add: counters_ok_def record_result_def record_send_success_def
      record_send_error_def guarded_def algebra_simps)

lemma counters_ok_send_each:
  "send_each os ps payload out m w = (e, ps', out', m', w') \<Longrightarrow> counters_ok n m \<Longrightarrow> counters_ok n m'"
proof (induction ps arbitrary: out m w ps')
  case (Cons p ps)
  from Cons.prems(1) obtain r p1 w1 where one: "publication_send os p payload w = (r, p1, w1)"
    by (metis prod_cases3)
  from counters_ok_send [OF Cons.prems(2), of r] Cons one show ?case
    by (cases r) (auto simp: record_result_def split: prod.splits)
qed simp

lemma counters_ok_insert:
  "counters_ok n m \<Longrightarrow>
   counters_ok (Suc n) (guarded (\<lambda>m. m\<lparr>cm_publications_added := cm_publications_added m + 1\<rparr>) m)"
  by (simp add: counters_ok_def guarded_def algebra_simps)

lemma counters_ok_remove:
  "counters_ok (Suc n) m \<Longrightarrow>
   counters_ok n (guarded (\<lambda>m. m\<lparr>cm_publications_removed := cm_publications_removed m + 1\<rparr>) m)"
  by (simp add: counters_ok_def guarded_def algebra_simps)

text \<open>Operations that keep the publications up to \<open>same_pub\<close> keep everything but the counters.\<close>

lemma same_pub_ok: "same_pub p p' \<Longrightarrow> pub_ok p \<Longrightarrow> pub_ok p'"
  by (simp add: same_pub_def pub_ok_def)

lemma same_pubs:
  assumes "list_all2 same_pub ps ps'"
  shows "map pub_id ps' = map pub_id ps" and "map pub_config ps' = map pub_config ps"
    and "length ps' = length ps" and "(\<forall>p \<in> set ps. pub_ok p) \<Longrightarrow> (\<forall>p \<in> set ps'. pub_ok p)"
proof -
  from assms show "map pub_id ps' = map pub_id ps" "map pub_config ps' = map pub_config ps"
    by (induction rule: list_all2_induct; simp add: same_pub_def)+
  from assms show "length ps' = length ps" by (rule list_all2_lengthD [symmetric])
  from assms show "(\<forall>p \<in> set ps. pub_ok p) \<Longrightarrow> (\<forall>p \<in> set ps'. pub_ok p)"
    by (induction rule: list_all2_induct) (simp_all add: same_pub_ok)
qed

lemma in_place_ok:
  assumes "list_all2 same_pub (ctx_publications ctx) ps'" and "ctx_publications ctx' = ps'"
    and "ctx_next_id ctx' = ctx_next_id ctx"
    and "counters_ok (publication_count ctx) (ctx_metrics ctx) \<Longrightarrow>
         counters_ok (publication_count ctx) (ctx_metrics ctx')"
  shows "(ids_ok ctx \<longrightarrow> ids_ok ctx') \<and> (context_ok ctx \<longrightarrow> context_ok ctx')"
proof -
  note sp = same_pubs [OF assms(1)]
  have "(\<forall>p \<in> set ps. pub_id p < n) \<longleftrightarrow> (\<forall>i \<in> set (map pub_id ps). i < n)" for ps :: "'a publication list" and n
    by simp
  then have "(\<forall>p \<in> set ps'. pub_id p < n) \<longleftrightarrow> (\<forall>p \<in> set (ctx_publications ctx). pub_id p < n)" for n
    using sp(1) by presburger
  then show ?thesis
    using sp assms(2-4) by (auto simp: ids_ok_def context_ok_def publication_count_def)
qed

lemma update_same_pub:
  "k < length ps \<Longrightarrow> same_pub (ps ! k) p' \<Longrightarrow> list_all2 same_pub ps (ps[k := p'])"
  by (auto simp: list_all2_conv_all_nth nth_list_update)

lemma context_send_ok:
  assumes "context_send os i payload ctx w = (r, ctx', w')"
  shows "(ids_ok ctx \<longrightarrow> ids_ok ctx') \<and> (context_ok ctx \<longrightarrow> context_ok ctx') \<and> ctx_next_id ctx' = ctx_next_id ctx"
proof (cases "position (\<lambda>p. pub_id p = i) (ctx_publications ctx)")
  case None
  then show ?thesis using assms by (simp add: context_send_def)
next
  case (Some k)
  obtain r1 p1 w1 where one: "publication_send os (ctx_publications ctx ! k) payload w = (r1, p1, w1)"
    by (metis prod_cases3)
  with assms Some have ctx': "ctx' = ctx\<lparr>ctx_publications := (ctx_publications ctx)[k := p1],
      ctx_metrics := record_result r1 (ctx_metrics ctx)\<rparr>" by (auto simp: context_send_def)
  have upd: "list_all2 same_pub (ctx_publications ctx) ((ctx_publications ctx)[k := p1])"
    using position_Some [OF Some] send_same_pub [OF one] by (intro update_same_pub) auto
  show ?thesis using in_place_ok [OF upd, of ctx'] by (simp add: ctx')
qed

lemma socket_mut_ok:
  assumes "get_publication_mut (\<lambda>p. snd (socket_mut p)) ctx i = Some ctx'"
  shows "(ids_ok ctx \<longrightarrow> ids_ok ctx') \<and> (context_ok ctx \<longrightarrow> context_ok ctx') \<and> ctx_next_id ctx' = ctx_next_id ctx"
proof -
  from assms obtain k where k: "position (\<lambda>p. pub_id p = i) (ctx_publications ctx) = Some k"
      "ctx' = ctx\<lparr>ctx_publications := (ctx_publications ctx)[k := snd (socket_mut (ctx_publications ctx ! k))]\<rparr>"
    by (auto simp: get_publication_mut_def)
  have upd: "list_all2 same_pub (ctx_publications ctx)
      ((ctx_publications ctx)[k := snd (socket_mut (ctx_publications ctx ! k))])"
    using position_Some [OF k(1)] by (intro update_same_pub) (auto simp: same_pub_def socket_mut_def)
  show ?thesis using in_place_ok [OF upd, of ctx'] by (simp add: k(2))
qed

lemma reorder_distinct:
  assumes "mset ys = mset xs"
  shows "distinct (map g ys) \<longleftrightarrow> distinct (map g xs)"
  using assms by (intro mset_eq_imp_distinct_iff) simp

lemma reorder_ok:
  assumes "mset (f (publications ctx)) = mset (publications ctx)"
  shows "(ids_ok ctx \<longrightarrow> ids_ok (publications_mut f ctx)) \<and> (context_ok ctx \<longrightarrow> context_ok (publications_mut f ctx)) \<and>
    ctx_next_id (publications_mut f ctx) = ctx_next_id ctx"
  using reorder_distinct [OF assms, of pub_id] reorder_distinct [OF assms, of pub_config]
    mset_eq_setD [OF assms] mset_eq_length [OF assms]
  by (simp add: ids_ok_def context_ok_def publications_mut_def publications_def publication_count_def)

lemma send_all_ok:
  assumes "send_all os payload out ctx w = (r, out', ctx', w')"
  shows "(ids_ok ctx \<longrightarrow> ids_ok ctx') \<and> (context_ok ctx \<longrightarrow> context_ok ctx') \<and> ctx_next_id ctx' = ctx_next_id ctx"
proof -
  from assms obtain e ps' m' where st:
      "send_each os (ctx_publications ctx) payload out (ctx_metrics ctx) w = (e, ps', out', m', w')"
      "ctx' = ctx\<lparr>ctx_publications := ps', ctx_metrics := m'\<rparr>"
    by (auto simp: send_all_def split: prod.splits)
  from send_each_effect [OF st(1)] have upd: "list_all2 same_pub (ctx_publications ctx) ps'" by blast
  show ?thesis using in_place_ok [OF upd, of ctx'] counters_ok_send_each [OF st(1)] by (simp add: st(2))
qed

lemma take_context_ok:
  assumes "take_publication i ctx = Inr (p, ctx')" and "context_ok ctx"
  shows "context_ok ctx'"
proof (cases "position (\<lambda>p. pub_id p = i) (ctx_publications ctx)")
  case None
  then show ?thesis using assms by (simp add: take_publication_def)
next
  case (Some k)
  let ?ps = "ctx_publications ctx"
  from position_Some [OF Some] have k: "k < length ?ps" by simp
  with Some assms(1) have ctx': "ctx_publications ctx' = butlast (?ps[k := last ?ps])"
      "ctx_metrics ctx' =
         guarded (\<lambda>m. m\<lparr>cm_publications_removed := cm_publications_removed m + 1\<rparr>) (ctx_metrics ctx)"
    by (auto simp: take_publication_def finish_publication_removal_def swap_remove_Ok)
  have "length ?ps = Suc (length ?ps - 1)" using k by simp
  then have "counters_ok (length ?ps - 1) (ctx_metrics ctx')"
    using assms(2) counters_ok_remove [of "length ?ps - 1" "ctx_metrics ctx"]
    by (simp add: context_ok_def publication_count_def ctx'(2))
  moreover from assms(2) have "distinct (map pub_config ?ps)" by (simp add: context_ok_def)
  note distinct_swap_removed [OF this, of k] set_swap_removed [OF k this]
  ultimately show ?thesis
    using assms(2) by (simp add: context_ok_def publication_count_def ctx'(1))
qed

lemma add_with_ok:
  assumes "add_with create c ctx w = (r, ctx', w')" and "good_create c create" and "context_ok ctx"
  shows "context_ok ctx'"
  using assms(1,2)
proof (cases rule: add_with_cases)
  case (added p)
  have "pub_ok p" using added by (simp add: pub_ok_def)
  moreover have "counters_ok (Suc (publication_count ctx)) (ctx_metrics ctx')"
    using assms(3) counters_ok_insert [of "publication_count ctx" "ctx_metrics ctx"] added(3)
    by (simp add: context_ok_def ctx_insert_def insert_publication_def next_publication_id_def)
  ultimately show ?thesis
    using assms(3) added
    by (auto simp: context_ok_def publication_count_def ctx_insert_def insert_publication_def next_publication_id_def)
qed (use assms(3) in \<open>auto simp: context_ok_def publication_count_def next_publication_id_def\<close>)

text \<open>Identifiers: the counter is at most the number of additions plus one.\<close>

definition ids_bounded :: "nat \<Rightarrow> 's mctx_context \<Rightarrow> bool" where
  "ids_bounded n ctx \<longleftrightarrow> ids_ok ctx \<and> unat (ctx_next_id ctx) \<le> n + 1"

lemma add_with_ids:
  assumes "add_with create c ctx w = (r, ctx', w')" and "good_create c create"
    and "ids_bounded n ctx" and "n + 2 < 2 ^ 64"
  shows "ids_bounded (Suc n) ctx'"
proof -
  have b: "ids_ok ctx" "unat (ctx_next_id ctx) \<le> n + 1" using assms(3) by (simp_all add: ids_bounded_def)
  have room: "ctx_next_id ctx \<noteq> - 1"
    using b(2) assms(4) by (auto simp: unsigned_minus_1_eq_mask mask_eq_exp_minus_1)
  have next1: "unat (ctx_next_id ctx + 1) \<le> Suc n + 1"
    using b(2) le_trans [OF mod_less_eq_dividend] by (simp add: unat_word_ariths)
  show ?thesis using assms(1,2)
  proof (cases rule: add_with_cases)
    case dup
    then show ?thesis using b by (simp add: ids_bounded_def)
  next
    case failed
    then show ?thesis using ctx_registry.skp_law [OF b(1) room] next1 by (simp add: ids_bounded_def)
  next
    case (added p)
    then show ?thesis using ctx_registry.ins_law [OF b(1) _ room, of p] next1 by (simp add: ids_bounded_def)
  qed
qed

lemma take_ids: "take_publication i ctx = Inr (p, ctx') \<Longrightarrow> ids_bounded n ctx \<Longrightarrow> ids_bounded n ctx'"
  using take_publication_Ok [of ctx i] by (auto simp: ids_bounded_def)

lemmas add_defs = add_publication_def add_publication_with_socket_def add_publication_with_udp_socket_def

lemma add_with_inv:
  assumes "add_with create c ctx w = (r, ctx', w')" and "good_create c create"
    and "context_ok ctx \<and> (n + 1 < 2 ^ 64 \<longrightarrow> ids_bounded n ctx)"
  shows "context_ok ctx' \<and> (Suc n + 1 < 2 ^ 64 \<longrightarrow> ids_bounded (Suc n) ctx')"
  using add_with_ok [OF assms(1,2)] add_with_ids [OF assms(1,2), of n] assms(3) by simp

lemma context_run_inv: "context_run os n ctx \<Longrightarrow> context_ok ctx \<and> (n + 1 < 2 ^ 64 \<longrightarrow> ids_bounded n ctx)"
proof (induction rule: context_run.induct)
  case start
  show ?case
    by (simp add: context_ok_def ids_bounded_def ids_ok_def context_new_def counters_ok_def
        publication_count_def context_metrics_default_def)
next
  case (add n ctx c w r ctx' w')
  then show ?case
    using add_with_inv [OF add(2) [unfolded add_defs] good_create_new] by blast
next
  case (add_socket n ctx c s w r ctx' w')
  then show ?case
    using add_with_inv [OF add_socket(2) [unfolded add_defs] good_create_socket] by blast
next
  case (add_udp n ctx c s w r ctx' w')
  then show ?case
    using add_with_inv [OF add_udp(2) [unfolded add_defs] good_create_udp] by blast
next
  case (tak n ctx i p ctx')
  then show ?case using take_context_ok take_ids by blast
next
  case (remove n ctx i b ctx')
  then obtain p where "take_publication i ctx = Inr (p, ctx')"
    by (auto simp: remove_publication_def mctx_result)
  then show ?case using remove.IH take_context_ok take_ids by blast
next
  case (socket n ctx i ctx')
  then show ?case using socket_mut_ok [OF socket(2)] by (auto simp: ids_bounded_def)
next
  case (send n ctx i payload w res ctx' w')
  then show ?case using context_send_ok [OF send(2)] by (auto simp: ids_bounded_def)
next
  case (send_all n ctx payload out w ra out' ctx' w')
  then show ?case using send_all_ok [OF send_all(2)] by (auto simp: ids_bounded_def)
next
  case (reorder n ctx f)
  then show ?case using reorder_ok [of f ctx, OF reorder(2)] by (auto simp: ids_bounded_def)
qed

text \<open>
  C1. Every context a program reaches with fewer than \<open>2^64 - 1\<close> additions, without overwriting
  publications through the mutable references, keeps its invariant, whatever the operating system answers: identifiers are distinct and below the
  next one, stored configurations are valid and pairwise different, the number of active
  publications is the number added less the number removed, every send call was counted as
  a packet or as an error in the context and in each publication, and removing never panics.
\<close>

theorem context_run_invariant:
  assumes "context_run os n ctx" and "n < 2 ^ 64 - 1"
  shows "ids_ok ctx \<and> context_ok ctx \<and> no_panic (take_publication i ctx)"
proof -
  have "n + 1 < 2 ^ 64" using assms(2) by simp
  then have "ids_ok ctx" "context_ok ctx"
    using context_run_inv [OF assms(1)] by (simp_all add: ids_bounded_def)
  with take_publication_Ok [of ctx i] show ?thesis by auto
qed

text \<open>A run: one publication added, one payload sent to it, the publication removed.\<close>

theorem context_run_invariant_witness:
  "\<exists>ctx. context_run device_os 1 ctx \<and> (1 :: nat) < 2 ^ 64 - 1 \<and> ids_ok ctx \<and> context_ok ctx"
proof -
  let ?c = "config_new (V4 (Ipv4Addr 239 0 0 1)) 5000"
  obtain r ctx1 w1 where a: "add_publication device_os ?c context_new (device_start 1) = (r, ctx1, w1)"
    by (metis prod_cases3)
  obtain res ctx2 w2 where b: "context_send device_os 1 [1, 2, 3] ctx1 w1 = (res, ctx2, w2)"
    by (metis prod_cases3)
  have run: "context_run device_os (Suc 0) ctx2"
    by (rule context_run.send [OF context_run.add [OF context_run.start a] b])
  from context_run_invariant [OF run] have "ids_ok ctx2 \<and> context_ok ctx2" by simp
  with run show ?thesis by auto
qed

end
