(* ===== verification/Metrics_Seqlock.thy ===== *)
theory Metrics_Seqlock
  imports Metrics_Sampling Context_Runs
begin

text \<open>
  The sequence lock that guards the counters (\<open>MetricsSequence\<close> of \<open>src/metrics.rs\<close>) with any
  number of threads that record sends and take snapshots at the same time. A step is one atomic
  access of one thread; the accesses of all threads interleave in any order, each seeing the effect
  of the earlier ones (sequential consistency: the reorderings that \<open>Relaxed\<close> permits are not
  modelled). The log of the finished updates and the numbers kept by a reader about the log are
  ghosts: no guard of a step reads them.
\<close>

section \<open>Shared state and threads\<close>

text \<open>An update is the sequence of \<open>fetch_add\<close> calls made while the guard is held.\<close>

type_synonym metrics_update = "(nat \<times> u64) list"

definition fetch_add :: "nat \<Rightarrow> u64 \<Rightarrow> u64 list \<Rightarrow> u64 list" where
  "fetch_add i a cs = cs[i := cs ! i + a]"

fun apply_update :: "metrics_update \<Rightarrow> u64 list \<Rightarrow> u64 list" where
  "apply_update [] cs = cs"
| "apply_update ((i, a) # u) cs = apply_update u (fetch_add i a cs)"

text \<open>
  Where a thread stands: outside; before a load of the sequence in \<open>write\<close>; in its loop with
  \<open>current\<close>; holding the guard with the additions left; at the head of the loop of
  \<open>read_consistent\<close>; reading, with \<open>before\<close> and the counters read so far; and returned. A reader
  carries the length of the log at the call and, once returned, at the return.
\<close>

datatype 'e seq_pc =
    Idle
  | WLoad 'e
  | WTry u64 'e
  | WHold 'e metrics_update
  | RLoad nat
  | RRead nat u64 "u64 list"
  | RDone nat nat "u64 list"

record 'e seq_state =
  sq_value :: u64
  sq_counters :: "u64 list"
  sq_threads :: "nat \<Rightarrow> 'e seq_pc"
  sq_log :: "'e list"

definition goto :: "nat \<Rightarrow> 'e seq_pc \<Rightarrow> 'e seq_state \<Rightarrow> 'e seq_state" where
  "goto t pc s = s\<lparr>sq_threads := (sq_threads s)(t := pc)\<rparr>"

definition seq_init :: "nat \<Rightarrow> 'e seq_state" where
  "seq_init k = \<lparr>sq_value = 0, sq_counters = replicate k 0, sq_threads = (\<lambda>_. Idle), sq_log = []\<rparr>"

text \<open>\<open>compare_exchange_weak\<close> may fail although the value is the expected one.\<close>

inductive seq_step :: "('e \<Rightarrow> metrics_update) \<Rightarrow> nat \<Rightarrow> 'e seq_state \<Rightarrow> 'e seq_state \<Rightarrow> bool" for adds t where
  write_call: "sq_threads s t = Idle \<Longrightarrow> seq_step adds t s (goto t (WLoad e) s)"
| write_load: "sq_threads s t = WLoad e \<Longrightarrow> seq_step adds t s (goto t (WTry (sq_value s) e) s)"
| write_spin: "sq_threads s t = WTry current e \<Longrightarrow> current mod 2 = 1 \<Longrightarrow> seq_step adds t s (goto t (WLoad e) s)"
| write_cas_ok: "sq_threads s t = WTry current e \<Longrightarrow> current mod 2 \<noteq> 1 \<Longrightarrow> sq_value s = current \<Longrightarrow>
    seq_step adds t s (goto t (WHold e (adds e)) (s\<lparr>sq_value := current + 1\<rparr>))"
| write_cas_err: "sq_threads s t = WTry current e \<Longrightarrow> current mod 2 \<noteq> 1 \<Longrightarrow>
    seq_step adds t s (goto t (WTry (sq_value s) e) s)"
| write_add: "sq_threads s t = WHold e ((i, a) # rest) \<Longrightarrow>
    seq_step adds t s (goto t (WHold e rest) (s\<lparr>sq_counters := fetch_add i a (sq_counters s)\<rparr>))"
| write_drop: "sq_threads s t = WHold e [] \<Longrightarrow>
    seq_step adds t s (goto t Idle (s\<lparr>sq_value := sq_value s + 1, sq_log := sq_log s @ [e]\<rparr>))"
| read_call: "sq_threads s t = Idle \<Longrightarrow> seq_step adds t s (goto t (RLoad (length (sq_log s))) s)"
| read_spin: "sq_threads s t = RLoad n \<Longrightarrow> sq_value s mod 2 = 1 \<Longrightarrow> seq_step adds t s s"
| read_before: "sq_threads s t = RLoad n \<Longrightarrow> sq_value s mod 2 \<noteq> 1 \<Longrightarrow>
    seq_step adds t s (goto t (RRead n (sq_value s) []) s)"
| read_load: "sq_threads s t = RRead n before got \<Longrightarrow> length got < length (sq_counters s) \<Longrightarrow>
    seq_step adds t s (goto t (RRead n before (got @ [sq_counters s ! length got])) s)"
| read_accept: "sq_threads s t = RRead n before got \<Longrightarrow> length got = length (sq_counters s) \<Longrightarrow> before = sq_value s \<Longrightarrow>
    seq_step adds t s (goto t (RDone n (length (sq_log s)) got) s)"
| read_retry: "sq_threads s t = RRead n before got \<Longrightarrow> length got = length (sq_counters s) \<Longrightarrow> before \<noteq> sq_value s \<Longrightarrow>
    seq_step adds t s (goto t (RLoad n) s)"
| read_return: "sq_threads s t = RDone n m got \<Longrightarrow> seq_step adds t s (goto t Idle s)"

inductive seq_run :: "('e \<Rightarrow> metrics_update) \<Rightarrow> 'e seq_state \<Rightarrow> 'e seq_state \<Rightarrow> bool" for adds s where
  run_here: "seq_run adds s s"
| run_step: "seq_run adds s s1 \<Longrightarrow> seq_step adds t s1 s2 \<Longrightarrow> seq_run adds s s2"

section \<open>The invariant\<close>

definition counters_after :: "('e \<Rightarrow> metrics_update) \<Rightarrow> nat \<Rightarrow> 'e list \<Rightarrow> u64 list" where
  "counters_after adds k log = foldl (\<lambda>cs e. apply_update (adds e) cs) (replicate k 0) log"

text \<open>What is known of a thread, \<open>free\<close> telling that no thread holds the guard.\<close>

fun pc_ok :: "('e \<Rightarrow> metrics_update) \<Rightarrow> nat \<Rightarrow> bool \<Rightarrow> 'e list \<Rightarrow> 'e seq_pc \<Rightarrow> bool" where
  "pc_ok adds k free log (RLoad n) \<longleftrightarrow> n \<le> length log"
| "pc_ok adds k free log (RRead n before got) \<longleftrightarrow>
     (\<exists>m. n \<le> m \<and> m \<le> length log \<and> before = of_nat (2 * m) \<and>
        (m = length log \<and> free \<longrightarrow> got = take (length got) (counters_after adds k log)))"
| "pc_ok adds k free log (RDone n m got) \<longleftrightarrow>
     n \<le> m \<and> m \<le> length log \<and> (m - n < 2 ^ 63 \<longrightarrow> got = counters_after adds k (take m log))"
| "pc_ok adds k free log _ \<longleftrightarrow> True"

fun counters_ok_for :: "('e \<Rightarrow> metrics_update) \<Rightarrow> nat \<Rightarrow> 'e seq_state \<Rightarrow> nat option \<Rightarrow> bool" where
  "counters_ok_for adds k s None \<longleftrightarrow> sq_counters s = counters_after adds k (sq_log s)"
| "counters_ok_for adds k s (Some t) \<longleftrightarrow>
     (\<forall>e rest. sq_threads s t = WHold e rest \<longrightarrow>
        apply_update rest (sq_counters s) = counters_after adds k (sq_log s @ [e]))"

definition holding :: "'e seq_state \<Rightarrow> nat \<Rightarrow> bool" where
  "holding s t \<longleftrightarrow> (case sq_threads s t of WHold _ _ \<Rightarrow> True | _ \<Rightarrow> False)"

definition seq_inv :: "('e \<Rightarrow> metrics_update) \<Rightarrow> nat \<Rightarrow> nat option \<Rightarrow> 'e seq_state \<Rightarrow> bool" where
  "seq_inv adds k h s \<longleftrightarrow>
     length (sq_counters s) = k \<and>
     (\<forall>t. holding s t \<longleftrightarrow> h = Some t) \<and>
     sq_value s = of_nat (2 * length (sq_log s) + (if h = None then 0 else 1)) \<and>
     counters_ok_for adds k s h \<and>
     (\<forall>t. pc_ok adds k (h = None) (sq_log s) (sq_threads s t))"

section \<open>Its preservation\<close>

lemma length_fetch_add [simp]: "length (fetch_add i a cs) = length cs"
  by (simp add: fetch_add_def)

lemma length_apply_update [simp]: "length (apply_update u cs) = length cs"
  by (induction u cs rule: apply_update.induct) simp_all

lemma counters_after_simps [simp]:
  "counters_after adds k [] = replicate k 0"
  "counters_after adds k (log @ [e]) = apply_update (adds e) (counters_after adds k log)"
  by (simp_all add: counters_after_def)

lemma length_counters_after [simp]: "length (counters_after adds k log) = k"
  by (induction log rule: rev_induct) simp_all

lemma goto_simps [simp]:
  "sq_threads (goto t pc s) = (sq_threads s)(t := pc)"
  "sq_value (goto t pc s) = sq_value s"
  "sq_counters (goto t pc s) = sq_counters s"
  "sq_log (goto t pc s) = sq_log s"
  by (simp_all add: goto_def)

lemma holding_goto: "holding (goto t pc s) u = (if u = t then (case pc of WHold _ _ \<Rightarrow> True | _ \<Rightarrow> False) else holding s u)"
  by (simp add: holding_def)

lemma odd_value: "(of_nat n :: u64) mod 2 = 1 \<longleftrightarrow> odd n"
  by (metis even_of_nat odd_iff_mod_2_eq_one)

lemma sequence_no_aba:
  assumes "(of_nat (2 * m) :: u64) = of_nat (2 * l)" "m \<le> l" "l - m < 2 ^ 63"
  shows "m = l"
proof -
  have "unat (of_nat (2 * l) :: u64) = unat (of_nat (2 * m) :: u64)" by (simp only: assms(1))
  then have "(2 * l) mod 2 ^ 64 = (2 * m) mod 2 ^ 64" by (simp add: unat_of_nat del: of_nat_mult)
  then have "2 ^ 64 dvd 2 * l - 2 * m" using assms(2) by (simp add: mod_eq_dvd_iff_nat)
  moreover have "2 * l - 2 * m < 2 ^ 64" using assms(3) by simp
  ultimately have "2 * l - 2 * m = 0" using nat_dvd_not_less by blast
  then show ?thesis using assms(2) by simp
qed

lemma seq_invD:
  assumes "seq_inv adds k h s"
  shows "length (sq_counters s) = k" "holding s t \<longleftrightarrow> h = Some t"
    "sq_value s = of_nat (2 * length (sq_log s) + (if h = None then 0 else 1))" "counters_ok_for adds k s h"
    "pc_ok adds k (h = None) (sq_log s) (sq_threads s t)"
  using assms unfolding seq_inv_def by blast+

lemma seq_inv_odd: "seq_inv adds k h s \<Longrightarrow> sq_value s mod 2 = 1 \<longleftrightarrow> h \<noteq> None"
  using seq_invD(3) [of adds k h s] odd_value by (auto simp del: of_nat_add of_nat_mult)

lemma seq_init_inv: "seq_inv adds k None (seq_init k)"
  by (simp add: seq_inv_def seq_init_def holding_def)

text \<open>Steps that neither take nor hold the guard change only what the thread knows.\<close>

lemma seq_inv_goto:
  assumes "seq_inv adds k h s" "\<not> holding s t" "\<not> holding (goto t pc s) t" "pc_ok adds k (h = None) (sq_log s) pc"
  shows "seq_inv adds k h (goto t pc s)"
proof -
  have "h \<noteq> Some t" using assms(1,2) seq_invD(2) by blast
  then have "counters_ok_for adds k (goto t pc s) h" using seq_invD(4) [OF assms(1)] by (cases h) auto
  then show ?thesis using assms by (auto simp: seq_inv_def holding_goto)
qed

lemma pc_ok_taken: "pc_ok adds k free log pc \<Longrightarrow> pc_ok adds k False log pc"
  by (cases pc) auto

lemma pc_ok_released: "pc_ok adds k False log pc \<Longrightarrow> pc_ok adds k True (log @ [e]) pc"
  by (cases pc) auto

lemma seq_inv_cas_ok:
  assumes inv: "seq_inv adds k h s" and pc: "sq_threads s t = WTry current e" "current mod 2 \<noteq> 1" "sq_value s = current"
  shows "seq_inv adds k (Some t) (goto t (WHold e (adds e)) (s\<lparr>sq_value := current + 1\<rparr>))"
proof -
  have h: "h = None" using seq_inv_odd [OF inv] pc by blast
  note d = seq_invD [OF inv, unfolded h]
  show ?thesis unfolding seq_inv_def
    using d(1,2,3,4) pc(3) pc_ok_taken [OF d(5)] by (auto simp: holding_goto holding_def)
qed

lemma seq_inv_add:
  assumes inv: "seq_inv adds k h s" and pc: "sq_threads s t = WHold e ((i, a) # rest)"
  shows "seq_inv adds k h (goto t (WHold e rest) (s\<lparr>sq_counters := fetch_add i a (sq_counters s)\<rparr>))"
proof -
  have h: "h = Some t" using seq_invD(2) [OF inv, of t] pc by (simp add: holding_def)
  note d = seq_invD [OF inv, unfolded h]
  show ?thesis unfolding seq_inv_def h using d pc by (auto simp: holding_goto holding_def)
qed

lemma seq_inv_drop:
  assumes inv: "seq_inv adds k h s" and pc: "sq_threads s t = WHold e []"
  shows "seq_inv adds k None (goto t Idle (s\<lparr>sq_value := sq_value s + 1, sq_log := sq_log s @ [e]\<rparr>))"
proof -
  have h: "h = Some t" using seq_invD(2) [OF inv, of t] pc by (simp add: holding_def)
  note d = seq_invD [OF inv, unfolded h]
  have "pc_ok adds k True (sq_log s @ [e]) (sq_threads s u)" for u
    using d(5) [of u] by (auto intro: pc_ok_released)
  then show ?thesis unfolding seq_inv_def using d(1-4) pc by (auto simp: holding_goto holding_def)
qed

text \<open>A reader adds the next counter: if the guard has stayed free, it is the counter of the log.\<close>

lemma seq_inv_load:
  assumes inv: "seq_inv adds k h s"
    and pc: "sq_threads s t = RRead n before got" "length got < length (sq_counters s)"
  shows "seq_inv adds k h (goto t (RRead n before (got @ [sq_counters s ! length got])) s)"
proof (rule seq_inv_goto [OF inv])
  have "got @ [sq_counters s ! length got] = take (length (got @ [sq_counters s ! length got])) (counters_after adds k (sq_log s))"
    if "got = take (length got) (counters_after adds k (sq_log s))" "h = None"
    using that seq_invD(4) [OF inv] pc(2) by (simp add: take_Suc_conv_app_nth)
  then show "pc_ok adds k (h = None) (sq_log s) (RRead n before (got @ [sq_counters s ! length got]))"
    using seq_invD(5) [OF inv, of t] pc(1) by auto
qed (simp_all add: holding_def pc)

lemma seq_inv_accept:
  assumes inv: "seq_inv adds k h s"
    and pc: "sq_threads s t = RRead n before got" "length got = length (sq_counters s)" "before = sq_value s"
  shows "seq_inv adds k h (goto t (RDone n (length (sq_log s)) got) s)"
proof (rule seq_inv_goto [OF inv])
  from seq_invD(5) [OF inv, of t] pc(1) obtain m where m: "n \<le> m" "m \<le> length (sq_log s)" "before = of_nat (2 * m)"
      "m = length (sq_log s) \<and> h = None \<longrightarrow> got = take (length got) (counters_after adds k (sq_log s))"
    by auto
  have h: "h = None" using seq_inv_odd [OF inv] m(3) pc(3) odd_value [of "2 * m"] by simp
  have "got = counters_after adds k (sq_log s)" if "length (sq_log s) - n < 2 ^ 63"
  proof -
    have "(of_nat (2 * m) :: u64) = of_nat (2 * length (sq_log s))"
      using m(3) pc(3) seq_invD(3) [OF inv] h by (simp del: of_nat_mult)
    then have "m = length (sq_log s)" using sequence_no_aba m(1,2) that by force
    then show ?thesis using m(4) h pc(2) seq_invD(1) [OF inv] by simp
  qed
  then show "pc_ok adds k (h = None) (sq_log s) (RDone n (length (sq_log s)) got)" using m(1,2) by simp
qed (simp_all add: holding_def pc)

lemma seq_inv_before:
  assumes inv: "seq_inv adds k h s" and pc: "sq_threads s t = RLoad n" "sq_value s mod 2 \<noteq> 1"
  shows "seq_inv adds k h (goto t (RRead n (sq_value s) []) s)"
proof (rule seq_inv_goto [OF inv])
  have "h = None" using seq_inv_odd [OF inv] pc(2) by blast
  then have "sq_value s = of_nat (2 * length (sq_log s))" using seq_invD(3) [OF inv] by simp
  moreover have "n \<le> length (sq_log s)" using seq_invD(5) [OF inv, of t] pc(1) by simp
  ultimately show "pc_ok adds k (h = None) (sq_log s) (RRead n (sq_value s) [])" by auto
qed (simp_all add: holding_def pc)

lemma seq_inv_retry:
  assumes inv: "seq_inv adds k h s" and pc: "sq_threads s t = RRead n before got"
  shows "seq_inv adds k h (goto t (RLoad n) s)"
  using seq_invD(5) [OF inv, of t] pc by (intro seq_inv_goto [OF inv]) (auto simp: holding_def)

lemmas seq_inv_moves = seq_inv_cas_ok seq_inv_add seq_inv_drop seq_inv_load seq_inv_accept seq_inv_before seq_inv_retry

lemma seq_step_inv: "seq_step adds t s s' \<Longrightarrow> seq_inv adds k h s \<Longrightarrow> \<exists>h'. seq_inv adds k h' s'"
  by (induction rule: seq_step.induct)
    ((rule exI, erule seq_inv_moves; assumption; fail)
     | (rule exI, rule seq_inv_goto, assumption; simp add: holding_def; fail) | (rule exI, assumption))+

lemma seq_run_inv: "seq_run adds (seq_init k) s \<Longrightarrow> \<exists>h. seq_inv adds k h s"
  by (induction rule: seq_run.induct) (use seq_init_inv seq_step_inv in blast)+

section \<open>The lock and the sequential counters\<close>

text \<open>
  What a user of the lock promises: recording an event sequentially adds, counter by counter, what
  the update of the event adds, and takes the sequence two further. What it gets: concurrent
  snapshots are snapshots of the sequential counters.
\<close>

abbreviation alone :: "('e \<Rightarrow> metrics_update) \<Rightarrow> nat \<Rightarrow> 'e seq_state \<Rightarrow> 'e seq_state \<Rightarrow> bool" where
  "alone adds t \<equiv> (seq_step adds t)\<^sup>*\<^sup>*"

locale guarded_counters =
  fixes adds :: "'e \<Rightarrow> metrics_update"
    and k :: nat
    and counters_of :: "'m \<Rightarrow> u64 list"
    and sequence_of :: "'m \<Rightarrow> u64"
    and record_event :: "'e \<Rightarrow> 'm \<Rightarrow> 'm"
    and fresh :: 'm
  assumes counters_fresh: "counters_of fresh = replicate k 0"
    and sequence_fresh: "sequence_of fresh = 0"
    and counters_record: "counters_of (record_event e m) = apply_update (adds e) (counters_of m)"
    and sequence_record: "sequence_of (record_event e m) = sequence_of m + 2"
begin

lemma counters_of_log: "counters_after adds k log = counters_of (fold record_event log fresh)"
  by (induction log rule: rev_induct) (simp_all add: counters_fresh counters_record)

lemma sequence_of_log: "sequence_of (fold record_event log fresh) = of_nat (2 * length log)"
  by (induction log rule: rev_induct) (simp_all add: sequence_fresh sequence_record)

lemma snapshot_linear:
  assumes "seq_run adds (seq_init k) s" "sq_threads s t = RDone n m got" "m - n < 2 ^ 63"
  shows "n \<le> m \<and> m \<le> length (sq_log s) \<and> got = counters_of (fold record_event (take m (sq_log s)) fresh)"
proof -
  from seq_run_inv [OF assms(1)] obtain h where "seq_inv adds k h s" by blast
  from seq_invD(5) [OF this, of t] show ?thesis using assms(2,3) by (simp add: counters_of_log)
qed

lemma free_counters:
  assumes "seq_run adds (seq_init k) s" "\<And>t. \<not> holding s t"
  shows "sq_value s = sequence_of (fold record_event (sq_log s) fresh) \<and>
    sq_counters s = counters_of (fold record_event (sq_log s) fresh)"
proof -
  from seq_run_inv [OF assms(1)] obtain h where inv: "seq_inv adds k h s" by blast
  have "h = None" using seq_invD(2) [OF inv] assms(2) by (cases h) auto
  then show ?thesis using seq_invD(3,4) [OF inv] by (simp add: counters_of_log sequence_of_log)
qed

lemma guard_exclusive: "seq_run adds (seq_init k) s \<Longrightarrow> holding s t \<Longrightarrow> holding s u \<Longrightarrow> t = u"
  using seq_run_inv seq_invD(2) by (metis option.inject)

end

lemma goto_goto [simp]: "goto t pc (goto t pc' s) = goto t pc s"
  by (simp add: goto_def)

text \<open>A reader that is not disturbed reads every counter and returns.\<close>

lemma reader_loads:
  assumes "sq_threads s t = RRead n before (take i (sq_counters s))" "i \<le> length (sq_counters s)"
  shows "alone adds t s (goto t (RRead n before (sq_counters s)) s)"
  using assms
proof (induction "length (sq_counters s) - i" arbitrary: i s)
  case 0
  then have "goto t (RRead n before (sq_counters s)) s = s" by (simp add: goto_def fun_upd_idem)
  then show ?case by simp
next
  case (Suc j)
  then have i: "i < length (sq_counters s)" by simp
  define s1 where "s1 = goto t (RRead n before (take (Suc i) (sq_counters s))) s"
  have "seq_step adds t s s1"
    using read_load [OF Suc.prems(1)] i by (simp add: s1_def take_Suc_conv_app_nth)
  moreover have "alone adds t s1 (goto t (RRead n before (sq_counters s1)) s1)"
    using Suc.hyps i by (intro Suc.hyps(1) [of s1 "Suc i"]) (simp_all add: s1_def)
  ultimately show ?case by (simp add: s1_def converse_rtranclp_into_rtranclp)
qed

lemma reader_returns_alone:
  assumes "sq_threads s t = RLoad n" "sq_value s mod 2 \<noteq> 1"
  shows "alone adds t s (goto t (RDone n (length (sq_log s)) (sq_counters s)) s)"
proof -
  let ?s1 = "goto t (RRead n (sq_value s) []) s" and ?s2 = "goto t (RRead n (sq_value s) (sq_counters s)) s"
  have "seq_step adds t s ?s1" by (rule read_before [OF assms])
  moreover have "alone adds t ?s1 ?s2"
    using reader_loads [of ?s1 t n "sq_value s" 0] by simp
  moreover have "seq_step adds t ?s2 (goto t (RDone n (length (sq_log s)) (sq_counters s)) s)"
    using read_accept [of ?s2 t n "sq_value s" "sq_counters s"] by simp
  ultimately show ?thesis by (meson converse_rtranclp_into_rtranclp rtranclp.rtrancl_into_rtrancl)
qed

text \<open>A writer that is not disturbed takes the guard, makes its additions and releases it.\<close>

lemma writer_adds:
  assumes "sq_threads s t = WHold e rest"
  shows "alone adds t s (goto t (WHold e []) (s\<lparr>sq_counters := apply_update rest (sq_counters s)\<rparr>))"
  using assms
proof (induction rest arbitrary: s)
  case Nil
  then have "goto t (WHold e []) (s\<lparr>sq_counters := apply_update [] (sq_counters s)\<rparr>) = s"
    by (simp add: goto_def fun_upd_idem)
  then show ?case by simp
next
  case (Cons a rest)
  obtain i x where a: "a = (i, x)" by force
  define s1 where "s1 = goto t (WHold e rest) (s\<lparr>sq_counters := fetch_add i x (sq_counters s)\<rparr>)"
  have "seq_step adds t s s1" using write_add Cons.prems by (simp add: s1_def a)
  moreover have "alone adds t s1 (goto t (WHold e []) (s1\<lparr>sq_counters := apply_update rest (sq_counters s1)\<rparr>))"
    by (rule Cons.IH) (simp add: s1_def)
  moreover have "goto t (WHold e []) (s1\<lparr>sq_counters := apply_update rest (sq_counters s1)\<rparr>) =
      goto t (WHold e []) (s\<lparr>sq_counters := apply_update (a # rest) (sq_counters s)\<rparr>)"
    by (simp add: s1_def a goto_def)
  ultimately show ?case by (simp add: converse_rtranclp_into_rtranclp)
qed

lemma writer_finishes_alone:
  assumes "sq_threads s t = WLoad e" "sq_value s mod 2 \<noteq> 1"
  shows "\<exists>s'. alone adds t s s' \<and> sq_threads s' t = Idle \<and> sq_log s' = sq_log s @ [e]"
proof -
  define s1 where "s1 = goto t (WTry (sq_value s) e) s"
  define s2 where "s2 = goto t (WHold e (adds e)) (s1\<lparr>sq_value := sq_value s + 1\<rparr>)"
  define s3 where "s3 = goto t (WHold e []) (s2\<lparr>sq_counters := apply_update (adds e) (sq_counters s2)\<rparr>)"
  have "seq_step adds t s s1" unfolding s1_def by (rule write_load [OF assms(1)])
  moreover have "seq_step adds t s1 s2"
    unfolding s2_def using assms(2) by (intro write_cas_ok) (simp_all add: s1_def)
  moreover have "alone adds t s2 s3" unfolding s3_def by (rule writer_adds) (simp add: s2_def)
  moreover have "seq_step adds t s3 (goto t Idle (s3\<lparr>sq_value := sq_value s3 + 1, sq_log := sq_log s3 @ [e]\<rparr>))"
    by (rule write_drop) (simp add: s3_def)
  ultimately have "alone adds t s (goto t Idle (s3\<lparr>sq_value := sq_value s3 + 1, sq_log := sq_log s3 @ [e]\<rparr>))"
    by (meson converse_rtranclp_into_rtranclp rtranclp.rtrancl_into_rtrancl)
  moreover have "sq_log s3 = sq_log s" by (simp add: s1_def s2_def s3_def)
  ultimately show ?thesis by (metis fun_upd_same goto_simps(1,4) seq_state.select_convs(4) seq_state.surjective seq_state.update_convs(4))
qed

section \<open>Schedules\<close>

text \<open>
  The successor of a state when a thread is scheduled: an idle one records the given event or takes
  a snapshot, and the exchange fails only when the value differs.
\<close>

definition move :: "('e \<Rightarrow> metrics_update) \<Rightarrow> nat \<times> 'e option \<Rightarrow> 'e seq_state \<Rightarrow> 'e seq_state" where
  "move adds = (\<lambda>(t, call) s.
     case sq_threads s t of
       Idle \<Rightarrow> (case call of Some e \<Rightarrow> goto t (WLoad e) s | None \<Rightarrow> goto t (RLoad (length (sq_log s))) s)
     | WLoad e \<Rightarrow> goto t (WTry (sq_value s) e) s
     | WTry current e \<Rightarrow>
         if current mod 2 = 1 then goto t (WLoad e) s
         else if sq_value s = current then goto t (WHold e (adds e)) (s\<lparr>sq_value := current + 1\<rparr>)
         else goto t (WTry (sq_value s) e) s
     | WHold e rest \<Rightarrow>
         (case rest of
            [] \<Rightarrow> goto t Idle (s\<lparr>sq_value := sq_value s + 1, sq_log := sq_log s @ [e]\<rparr>)
          | (i, a) # rest' \<Rightarrow> goto t (WHold e rest') (s\<lparr>sq_counters := fetch_add i a (sq_counters s)\<rparr>))
     | RLoad n \<Rightarrow> if sq_value s mod 2 = 1 then s else goto t (RRead n (sq_value s) []) s
     | RRead n before got \<Rightarrow>
         if length got < length (sq_counters s) then goto t (RRead n before (got @ [sq_counters s ! length got])) s
         else if length got = length (sq_counters s) then
           (if before = sq_value s then goto t (RDone n (length (sq_log s)) got) s else goto t (RLoad n) s)
         else s
     | RDone n m got \<Rightarrow> goto t Idle s)"

lemma even_not_one: "even (x :: u64) \<Longrightarrow> x mod 2 \<noteq> 1"
  by (metis odd_iff_mod_2_eq_one)

lemma move_step: "move adds (t, call) s = s \<or> seq_step adds t s (move adds (t, call) s)"
  by (cases "sq_threads s t")
    (auto simp: move_def intro: seq_step.intros write_cas_ok [OF _ even_not_one] write_cas_err [OF _ even_not_one]
      read_before [OF _ even_not_one]
      split: option.splits list.splits)

lemma schedule_run: "seq_run adds s (fold (move adds) sched s)"
proof (induction sched rule: rev_induct)
  case (snoc x sched)
  obtain t call where x: "x = (t, call)" by force
  show ?case using move_step [of adds t call] run_step [OF snoc.IH, of t] by (simp add: x) (metis snoc.IH)
qed (simp add: run_here)

section \<open>The counters of a publication and of a context\<close>

text \<open>The updates of \<open>record_success\<close> and \<open>record_error\<close>, in the order of the fields.\<close>

datatype send_event = Sent nat | Failed

fun publication_adds :: "send_event \<Rightarrow> metrics_update" where
  "publication_adds (Sent bytes_sent) = [(0, 1), (1, 1), (2, of_nat bytes_sent)]"
| "publication_adds Failed = [(0, 1), (3, 1)]"

fun record_publication_event :: "send_event \<Rightarrow> publication_metrics \<Rightarrow> publication_metrics" where
  "record_publication_event (Sent bytes_sent) m = record_success bytes_sent m"
| "record_publication_event Failed m = record_error m"

definition publication_metrics_counters :: "publication_metrics \<Rightarrow> u64 list" where
  "publication_metrics_counters m = [pm_send_calls m, pm_packets_sent m, pm_bytes_sent m, pm_send_errors m]"

interpretation publication_lock: guarded_counters publication_adds 4 publication_metrics_counters pm_sequence
  record_publication_event metrics_default
proof unfold_locales
  show "publication_metrics_counters (record_publication_event e m) = apply_update (publication_adds e) (publication_metrics_counters m)"
    for e m by (cases e) (simp_all add: publication_metrics_counters_def fetch_add_def)
  show "pm_sequence (record_publication_event e m) = pm_sequence m + 2" for e m
    by (cases e) (simp_all add: record_success_def record_error_def)
qed (simp_all add: publication_metrics_counters_def metrics_default_def eval_nat_numeral)

datatype context_event = ContextSent nat | ContextFailed | ContextAdded | ContextRemoved

fun context_adds :: "context_event \<Rightarrow> metrics_update" where
  "context_adds (ContextSent bytes_sent) = [(2, 1), (3, 1), (4, of_nat bytes_sent)]"
| "context_adds ContextFailed = [(2, 1), (5, 1)]"
| "context_adds ContextAdded = [(0, 1)]"
| "context_adds ContextRemoved = [(1, 1)]"

fun record_context_event :: "context_event \<Rightarrow> context_metrics \<Rightarrow> context_metrics" where
  "record_context_event (ContextSent bytes_sent) m = record_send_success bytes_sent m"
| "record_context_event ContextFailed m = record_send_error m"
| "record_context_event ContextAdded m = guarded (\<lambda>m. m\<lparr>cm_publications_added := cm_publications_added m + 1\<rparr>) m"
| "record_context_event ContextRemoved m = guarded (\<lambda>m. m\<lparr>cm_publications_removed := cm_publications_removed m + 1\<rparr>) m"

definition context_metrics_counters :: "context_metrics \<Rightarrow> u64 list" where
  "context_metrics_counters m =
     [cm_publications_added m, cm_publications_removed m, cm_total_send_calls m, cm_total_packets_sent m,
      cm_total_bytes_sent m, cm_total_send_errors m]"

interpretation context_lock: guarded_counters context_adds 6 context_metrics_counters cm_sequence
  record_context_event context_metrics_default
proof unfold_locales
  show "context_metrics_counters (record_context_event e m) = apply_update (context_adds e) (context_metrics_counters m)"
    for e m by (cases e) (simp_all add: context_metrics_counters_def fetch_add_def guarded_def record_send_success_def
      record_send_error_def)
  show "cm_sequence (record_context_event e m) = cm_sequence m + 2" for e m
    by (cases e) (simp_all add: record_send_success_def record_send_error_def guarded_def)
qed (simp_all add: context_metrics_counters_def context_metrics_default_def eval_nat_numeral)

lemma metrics_ok_log: "metrics_ok (fold record_publication_event log metrics_default)"
proof (induction log rule: rev_induct)
  case (snoc e log)
  then show ?case by (cases e) simp_all
qed simp


text \<open>
  Thread 0 takes a snapshot and has read two counters when thread 1 records a send of 7 bytes and
  thread 2 a failed one: the first attempt is given up and the second returns.
\<close>

definition sample_schedule :: "(nat \<times> send_event option) list" where
  "sample_schedule = replicate 4 (0, None) @ replicate 7 (1, Some (Sent 7)) @ replicate 6 (2, Some Failed) @
     replicate 9 (0, None)"


text \<open>
  At most one thread holds the write guard of a context's metrics, and whenever none does, the
  sequence and the counters are those of the sequential model after the finished updates.
\<close>

theorem context_lock_refines_sequential:
  assumes "seq_run context_adds (seq_init 6) s"
  shows "(\<forall>t u. holding s t \<longrightarrow> holding s u \<longrightarrow> t = u) \<and>
    ((\<forall>t. \<not> holding s t) \<longrightarrow>
       (let x = fold record_context_event (sq_log s) context_metrics_default in
        sq_value s = cm_sequence x \<and> sq_counters s = context_metrics_counters x))"
  using context_lock.guard_exclusive [OF assms] context_lock.free_counters [OF assms]
  unfolding Let_def by blast

theorem context_lock_refines_sequential_witness:
  "let s = fold (move context_adds) (replicate 7 (3, Some (ContextSent 9)) @ replicate 5 (1, Some ContextAdded)) (seq_init 6) in
     sq_value s = 4 \<and> sq_counters s = [1, 0, 1, 1, 9, 0] \<and>
     cm_sequence (fold record_context_event (sq_log s) context_metrics_default) = 4"
proof -
  define s where "s = fold (move context_adds) (replicate 7 (3, Some (ContextSent 9)) @ replicate 5 (1, Some ContextAdded)) (seq_init 6)"
  have run: "seq_run context_adds (seq_init 6) s" unfolding s_def by (rule schedule_run)
  have at: "sq_value s = 4" "sq_counters s = [1, 0, 1, 1, 9, 0]"
    unfolding s_def by code_simp+
  have "\<not> holding s t" for t
    unfolding s_def by (simp add: holding_def seq_init_def move_def goto_def fetch_add_def eval_nat_numeral)
  with context_lock_refines_sequential [OF run] at show ?thesis
    unfolding Let_def s_def [symmetric] by metis
qed



end
