(* ===== verification/Metrics_Jsonl.thy ===== *)
theory Metrics_Jsonl
  imports Mctx_Error
begin

text \<open>
  Metrics files with one JSON object per line (\<open>src/jsonl.rs\<close>): the header, the validation of
  headers, samples and existing files, and the writers. Texts are UTF-8 byte strings. The JSON
  library is a parameter: its reader, its compact writer, and what \<open>as_f64\<close> tells of a
  number. Files are the part of the standard library the source uses: contents by path, opened
  for appending, and exclusive advisory locks that live as long as the handle. Any call may
  fail; a failing write may have written a part.
\<close>

section \<open>JSON values\<close>

text \<open>The members of an object are in the order of their keys, so equal objects are equal lists.\<close>

datatype 'n json =
    JNull
  | JBool bool
  | JNumber 'n
  | JString string
  | JArray "'n json list"
  | JObject "(string \<times> 'n json) list"

record 'n json_api =
  js_from_str :: "string \<Rightarrow> string + 'n json"
  js_to_vec :: "'n json \<Rightarrow> string + string"
  js_finite :: "'n \<Rightarrow> bool"
  js_negative :: "'n \<Rightarrow> bool"
  js_secs :: "nat \<Rightarrow> 'n"

fun json_get :: "'n json \<Rightarrow> string \<Rightarrow> 'n json option" where
  "json_get (JObject members) key = map_of members key"
| "json_get _ key = None"

fun json_is_object :: "'n json \<Rightarrow> bool" where
  "json_is_object (JObject _) \<longleftrightarrow> True"
| "json_is_object _ \<longleftrightarrow> False"

fun as_str :: "'n json \<Rightarrow> string option" where
  "as_str (JString s) = Some s"
| "as_str _ = None"

text \<open>\<open>as_f64\<close> followed by \<open>is_finite\<close>\<close>

fun finite_number :: "'n json_api \<Rightarrow> 'n json option \<Rightarrow> bool" where
  "finite_number js (Some (JNumber n)) \<longleftrightarrow> js_finite js n"
| "finite_number js _ \<longleftrightarrow> False"

section \<open>Blank lines\<close>

text \<open>
  \<open>s.trim().is_empty()\<close>: every character is Unicode white space, one, two or three bytes long.
\<close>

definition white1 :: "char \<Rightarrow> bool" where
  "white1 a \<longleftrightarrow> of_char a \<in> {9, 10, 11, 12, 13, 32 :: nat}"

definition white2 :: "char \<Rightarrow> char \<Rightarrow> bool" where
  "white2 a b \<longleftrightarrow> of_char a = (194 :: nat) \<and> of_char b \<in> {133, 160 :: nat}"

definition white3 :: "char \<Rightarrow> char \<Rightarrow> char \<Rightarrow> bool" where
  "white3 a b c \<longleftrightarrow> (let x = of_char a :: nat; y = of_char b :: nat; z = of_char c :: nat in
     x = 225 \<and> y = 154 \<and> z = 128 \<or>
     x = 226 \<and> y = 128 \<and> (128 \<le> z \<and> z \<le> 138 \<or> z = 168 \<or> z = 169 \<or> z = 175) \<or>
     x = 226 \<and> y = 129 \<and> z = 159 \<or>
     x = 227 \<and> y = 128 \<and> z = 128)"

fun blank :: "string \<Rightarrow> bool" where
  "blank [] \<longleftrightarrow> True"
| "blank [a] \<longleftrightarrow> white1 a"
| "blank [a, b] \<longleftrightarrow> (if white1 a then blank [b] else white2 a b)"
| "blank (a # b # c # s) \<longleftrightarrow>
     (if white1 a then blank (b # c # s) else if white2 a b then blank (c # s) else white3 a b c \<and> blank s)"

section \<open>Paths\<close>

datatype path_component = RootDir | CurDir | ParentDir | Normal string

type_synonym path = "path_component list"

definition path_parent :: "path \<Rightarrow> path option" where
  "path_parent p = (if p = [] \<or> last p = RootDir then None else Some (butlast p))"

definition file_name :: "path \<Rightarrow> string option" where
  "file_name p = (if p = [] then None else case last p of Normal s \<Rightarrow> Some s | _ \<Rightarrow> None)"

text \<open>The name up to its last dot, the whole name if it has none or only a leading one.\<close>

definition file_stem :: "path \<Rightarrow> string option" where
  "file_stem p = map_option (\<lambda>s.
     let before = rev (tl (dropWhile (\<lambda>c. c \<noteq> CHR ''.'') (rev s)))
     in if CHR ''.'' \<notin> set s \<or> before = [] then s else before) (file_name p)"

definition infer_node_id_from_path :: "path \<Rightarrow> string" where
  "infer_node_id_from_path p =
     (case or_else
        (case Option.bind (path_parent p) file_name of Some name \<Rightarrow> if name \<noteq> [] then Some name else None | None \<Rightarrow> None)
        (case file_stem p of Some stem \<Rightarrow> if stem \<noteq> [] then Some stem else None | None \<Rightarrow> None) of
        Some s \<Rightarrow> s | None \<Rightarrow> ''unknown'')"

section \<open>Headers and samples\<close>

definition HEIMDALL_JSONL_SCHEMA :: string where
  "HEIMDALL_JSONL_SCHEMA = ''heimdall-jsonl-v1''"

text \<open>Times are nanoseconds relative to the Unix epoch.\<close>

definition unix_timestamp_secs :: "'n json_api \<Rightarrow> int \<Rightarrow> 'n" where
  "unix_timestamp_secs js t = js_secs js (if t < 0 then 0 else nat t)"

definition header_json :: "'n json_api \<Rightarrow> string \<Rightarrow> string \<Rightarrow> string \<Rightarrow> int \<Rightarrow> (string \<times> 'n json) list \<Rightarrow> 'n json" where
  "header_json js artifact_type producer node_id created_at flags =
     JObject
      [(''artifact_type'', JString artifact_type),
       (''created_at'', JNumber (unix_timestamp_secs js created_at)),
       (''flags'', JObject flags),
       (''node_id'', JString node_id),
       (''producer'', JString producer),
       (''schema'', JString HEIMDALL_JSONL_SCHEMA)]"

definition text_field_missing :: "'n json \<Rightarrow> string \<Rightarrow> bool" where
  "text_field_missing v field =
     (case Option.bind (json_get v field) as_str of None \<Rightarrow> True | Some s \<Rightarrow> blank s)"

definition validate_header_object :: "'n json_api \<Rightarrow> 'n json \<Rightarrow> message + unit" where
  "validate_header_object js v =
     (if \<not> json_is_object v then Err (''header must be a JSON object'', [])
      else if Option.bind (json_get v ''schema'') as_str \<noteq> Some HEIMDALL_JSONL_SCHEMA
      then Err (''schema must be `{HEIMDALL_JSONL_SCHEMA}`'', [])
      else case find (text_field_missing v) [''artifact_type'', ''node_id'', ''producer''] of
        Some field \<Rightarrow> Err (''{field} must be a non-empty string'', [FStr field])
      | None \<Rightarrow>
          if \<not> finite_number js (json_get v ''created_at'') then Err (''created_at must be a finite JSON number'', [])
          else if \<not> (case json_get v ''flags'' of Some (JObject _) \<Rightarrow> True | _ \<Rightarrow> False)
          then Err (''flags must be a JSON object'', [])
          else Ok ())"

definition is_header_object :: "'n json_api \<Rightarrow> 'n json \<Rightarrow> bool" where
  "is_header_object js v = is_ok (validate_header_object js v)"

definition comparable_keys :: "string list" where
  "comparable_keys = [''schema'', ''artifact_type'', ''node_id'', ''producer'', ''flags'']"

definition headers_are_compatible :: "'n json \<Rightarrow> 'n json \<Rightarrow> bool" where
  "headers_are_compatible existing expected \<longleftrightarrow>
     list_all (\<lambda>key. json_get existing key = json_get expected key) comparable_keys"

text \<open>The access \<open>sample_object["interval_secs"]\<close> panics when the key is absent.\<close>

definition validate_sample_row :: "'n json_api \<Rightarrow> 'n json \<Rightarrow> io_error failure + unit" where
  "validate_sample_row js v =
     (if \<not> json_is_object v
      then Err (Raised (io_error_new InvalidInput (''JSONL sample rows must be JSON objects'', [])))
      else case find (\<lambda>key. json_get v key \<noteq> None) comparable_keys of
        Some key \<Rightarrow> Err (Raised (io_error_new InvalidInput
          (''JSONL sample rows must not contain reserved header field `{reserved_key}`'', [FStr key])))
      | None \<Rightarrow>
          (case find (\<lambda>key. \<not> finite_number js (json_get v key)) [''ts'', ''interval_secs''] of
             Some key \<Rightarrow> Err (Raised (io_error_new InvalidInput
               (''JSONL sample field `{required_number}` must be a finite number'', [FStr key])))
           | None \<Rightarrow>
               (case json_get v ''interval_secs'' of
                  None \<Rightarrow> Err Panicked
                | Some n \<Rightarrow>
                    if (case n of JNumber x \<Rightarrow> js_negative js x | _ \<Rightarrow> True)
                    then Err (Raised (io_error_new InvalidInput
                      (''JSONL sample field `interval_secs` must not be negative'', [])))
                    else Ok ())))"

section \<open>Existing files\<close>

text \<open>\<open>BufRead::lines\<close>\<close>

definition strip_cr :: "string \<Rightarrow> string" where
  "strip_cr s = (if s \<noteq> [] \<and> last s = CHR 0x0D then butlast s else s)"

fun split_lines_acc :: "string \<Rightarrow> string \<Rightarrow> string list" where
  "split_lines_acc line [] = (if line = [] then [] else [line])"
| "split_lines_acc line (c # s) =
     (if c = CHR 0x0A then strip_cr line # split_lines_acc [] s else split_lines_acc (line @ [c]) s)"

definition split_lines :: "string \<Rightarrow> string list" where
  "split_lines s = split_lines_acc [] s"

record 'n validated_header =
  vh_value :: "'n json"
  vh_line :: string

definition invalid_data :: "message \<Rightarrow> io_error failure" where
  "invalid_data m = Raised (io_error_new InvalidData m)"

text \<open>One line that is not blank, \<open>index\<close> being the number of such lines before it.\<close>

definition validate_line ::
  "'n json_api \<Rightarrow> string \<Rightarrow> nat \<times> 'n validated_header option \<Rightarrow> io_error failure + nat \<times> 'n validated_header option" where
  "validate_line js line = (\<lambda>(index, header).
     case js_from_str js line of
       Inl err \<Rightarrow> Err (invalid_data (if index = 0
         then (''existing JSONL header is invalid JSON: {err}'', [FStr err])
         else (''existing JSONL sample line {} is invalid JSON: {err}'', [FNum (int (Suc index)), FStr err])))
     | Inr parsed \<Rightarrow>
         if index = 0 then
           (case validate_header_object js parsed of
              Inl m \<Rightarrow> Err (invalid_data (''existing JSONL header is invalid: {message}'', FStr (fst m) # snd m))
            | Inr _ \<Rightarrow> Ok (Suc index, Some \<lparr>vh_value = parsed, vh_line = line\<rparr>))
         else if is_header_object js parsed
         then Err (invalid_data (''existing JSONL file contains more than one Heimdall header object'', []))
         else (case validate_sample_row js parsed of
              Inl (Raised e) \<Rightarrow> Err (invalid_data (''existing JSONL sample line {} is invalid: {}'',
                FNum (int (Suc index)) # FStr (fst (io_message e)) # snd (io_message e)))
            | Inl Panicked \<Rightarrow> Err Panicked
            | Inr _ \<Rightarrow> Ok (Suc index, header)))"

fun validate_lines ::
  "'n json_api \<Rightarrow> (io_error + string) list \<Rightarrow> nat \<times> 'n validated_header option \<Rightarrow>
   io_error failure + nat \<times> 'n validated_header option" where
  "validate_lines js [] st = Ok st"
| "validate_lines js (Inl e # _) st = Err (Raised e)"
| "validate_lines js (Inr line # rest) st =
     (if blank line then validate_lines js rest st
      else and_then (validate_line js line st) (validate_lines js rest))"

definition validate_existing_header_reader ::
  "'n json_api \<Rightarrow> (io_error + string) list \<Rightarrow> io_error failure + 'n validated_header option" where
  "validate_existing_header_reader js rows =
     and_then (validate_lines js rows (0, None)) (\<lambda>(_, parsed_header). Ok parsed_header)"

section \<open>Files\<close>

text \<open>
  \<open>dk_fault\<close> tells for the n-th call from now on whether it fails, and how far it got: the number
  of bytes a write wrote, or of lines a read returned.
\<close>

record disk =
  dk_files :: "path \<Rightarrow> string option"
  dk_locked :: "path list"
  dk_fault :: "nat \<Rightarrow> (io_error \<times> nat) option"
  dk_calls :: nat

definition disk_call :: "(disk \<Rightarrow> (io_error + 'a) \<times> disk) \<Rightarrow> (io_error \<times> nat \<Rightarrow> disk \<Rightarrow> disk) \<Rightarrow> (disk, io_error, 'a) io" where
  "disk_call done failed = (\<lambda>d.
     let d1 = d\<lparr>dk_calls := Suc (dk_calls d)\<rparr> in
     case dk_fault d (dk_calls d) of
       Some f \<Rightarrow> (Err (Raised (fst f)), failed f d1)
     | None \<Rightarrow> (case done d1 of (Inl e, d2) \<Rightarrow> (Err (Raised e), d2) | (Inr x, d2) \<Rightarrow> (Ok x, d2)))"

definition fs_create_dir_all :: "path \<Rightarrow> (disk, io_error, unit) io" where
  "fs_create_dir_all p = disk_call (\<lambda>d. (Ok (), d)) (\<lambda>_ d. d)"

definition fs_open_append :: "path \<Rightarrow> (disk, io_error, unit) io" where
  "fs_open_append p = disk_call
     (\<lambda>d. (Ok (), case dk_files d p of Some _ \<Rightarrow> d | None \<Rightarrow> d\<lparr>dk_files := (dk_files d)(p \<mapsto> [])\<rparr>)) (\<lambda>_ d. d)"

definition lock_held :: io_error where
  "lock_held = io_error_os WouldBlock 11"

definition fs_try_lock :: "path \<Rightarrow> disk \<Rightarrow> (io_error + unit) \<times> disk" where
  "fs_try_lock p d =
     (let d1 = d\<lparr>dk_calls := Suc (dk_calls d)\<rparr> in
      case dk_fault d (dk_calls d) of
        Some f \<Rightarrow> (Err (fst f), d1)
      | None \<Rightarrow> if p \<in> set (dk_locked d) then (Err lock_held, d1) else (Ok (), d1\<lparr>dk_locked := p # dk_locked d\<rparr>))"

text \<open>Closing a handle gives up its lock.\<close>

definition fs_unlock :: "path \<Rightarrow> disk \<Rightarrow> disk" where
  "fs_unlock p d = d\<lparr>dk_locked := removeAll p (dk_locked d)\<rparr>"

definition fs_seek_start :: "(disk, io_error, unit) io" where
  "fs_seek_start = disk_call (\<lambda>d. (Ok (), d)) (\<lambda>_ d. d)"

text \<open>Reading is one call; the lines before the failing one are delivered.\<close>

definition fs_read_lines :: "path \<Rightarrow> (disk, io_error, (io_error + string) list) io" where
  "fs_read_lines p d =
     (let rows = map Inr (split_lines (case dk_files d p of Some s \<Rightarrow> s | None \<Rightarrow> []));
          d1 = d\<lparr>dk_calls := Suc (dk_calls d)\<rparr>
      in case dk_fault d (dk_calls d) of
           Some (e, k) \<Rightarrow> (Ok (take k rows @ [Inl e]), d1)
         | None \<Rightarrow> (Ok rows, d1))"

definition fs_append :: "path \<Rightarrow> string \<Rightarrow> disk \<Rightarrow> disk" where
  "fs_append p s d = d\<lparr>dk_files := (dk_files d)(p \<mapsto> (case dk_files d p of Some c \<Rightarrow> c | None \<Rightarrow> []) @ s)\<rparr>"

definition fs_write_all :: "path \<Rightarrow> string \<Rightarrow> (disk, io_error, unit) io" where
  "fs_write_all p s = disk_call (\<lambda>d. (Ok (), fs_append p s d)) (\<lambda>(_, k) d. fs_append p (take k s) d)"

section \<open>Reading an existing header\<close>

definition fs_open_read :: "path \<Rightarrow> disk \<Rightarrow> (io_error + unit) \<times> disk" where
  "fs_open_read p d =
     (let d1 = d\<lparr>dk_calls := Suc (dk_calls d)\<rparr> in
      case dk_fault d (dk_calls d) of
        Some f \<Rightarrow> (Err (fst f), d1)
      | None \<Rightarrow> (case dk_files d p of None \<Rightarrow> (Err (io_error_os NotFound 2), d1) | Some _ \<Rightarrow> (Ok (), d1)))"

definition existing_header :: "'n json_api \<Rightarrow> path \<Rightarrow> (disk, io_error, 'n validated_header option) io" where
  "existing_header js p =
     io_then (io_try (fs_open_read p)) (\<lambda>r.
       case r of
         Inl e \<Rightarrow> if io_kind e = NotFound then io_return None else io_raise e
       | Inr _ \<Rightarrow> io_then (fs_read_lines p) (\<lambda>rows. io_res (validate_existing_header_reader js rows)))"

definition first_non_empty_line :: "'n json_api \<Rightarrow> path \<Rightarrow> (disk, io_error, string option) io" where
  "first_non_empty_line js p = io_then (existing_header js p) (\<lambda>h. io_return (map_option vh_line h))"

definition validate_existing_header :: "'n json_api \<Rightarrow> path \<Rightarrow> (disk, io_error, 'n json option) io" where
  "validate_existing_header js p = io_then (existing_header js p) (\<lambda>h. io_return (map_option vh_value h))"

section \<open>Writers\<close>

definition write_json_line :: "'n json_api \<Rightarrow> path \<Rightarrow> 'n json \<Rightarrow> (disk, io_error, unit) io" where
  "write_json_line js p v =
     (case js_to_vec js v of
        Inl err \<Rightarrow> io_raise (io_error_new OtherKind (''{err}'', [FStr err]))
      | Inr line \<Rightarrow> fs_write_all p (line @ [CHR 0x0A]))"

text \<open>From the lock on a failure drops the handle, and with it the lock.\<close>

definition closing :: "path \<Rightarrow> (disk, io_error, 'a) io \<Rightarrow> (disk, io_error, 'a) io" where
  "closing p m = (\<lambda>d. case m d of (Inl e, d1) \<Rightarrow> (Inl e, fs_unlock p d1) | (Inr x, d1) \<Rightarrow> (Inr x, d1))"

definition settle_header :: "'n json_api \<Rightarrow> path \<Rightarrow> 'n json \<Rightarrow> 'n validated_header option \<Rightarrow> (disk, io_error, unit) io" where
  "settle_header js p header existing =
     (case existing of
        Some h \<Rightarrow>
          if \<not> headers_are_compatible (vh_value h) header
          then io_raise (io_error_new InvalidData
            (''existing JSONL header does not match the requested schema metadata'', []))
          else io_return ()
      | None \<Rightarrow> write_json_line js p header)"

definition check_or_write_header :: "'n json_api \<Rightarrow> path \<Rightarrow> 'n json \<Rightarrow> (disk, io_error, unit) io" where
  "check_or_write_header js p header =
     io_then fs_seek_start (\<lambda>_.
     io_then (fs_read_lines p) (\<lambda>rows.
     io_then (io_res (validate_existing_header_reader js rows)) (settle_header js p header)))"

definition open_jsonl_append_file :: "'n json_api \<Rightarrow> path \<Rightarrow> 'n json \<Rightarrow> (disk, io_error, unit) io" where
  "open_jsonl_append_file js p header =
     (case validate_header_object js header of
        Inl m \<Rightarrow> io_raise (io_error_new InvalidInput (''requested JSONL header is invalid: {message}'', FStr (fst m) # snd m))
      | Inr _ \<Rightarrow>
          io_then (case path_parent p of
                     Some parent \<Rightarrow> io_when (parent \<noteq> []) (fs_create_dir_all parent)
                   | None \<Rightarrow> io_return ()) (\<lambda>_.
          io_then (fs_open_append p) (\<lambda>_.
          io_then (io_sys (\<lambda>error. io_error_new (io_kind error)
              (''failed to acquire exclusive JSONL writer lock for {}: {error}'', FStr (fst (io_message error)) # snd (io_message error)))
            (fs_try_lock p)) (\<lambda>_.
          closing p (check_or_write_header js p header)))))"

definition dropping :: "path \<Rightarrow> (disk, io_error, 'a) io \<Rightarrow> (disk, io_error, 'a) io" where
  "dropping p m = (\<lambda>d. case m d of (r, d1) \<Rightarrow> (r, fs_unlock p d1))"

definition ensure_single_header :: "'n json_api \<Rightarrow> path \<Rightarrow> 'n json \<Rightarrow> (disk, io_error, unit) io" where
  "ensure_single_header js p header =
     io_then (open_jsonl_append_file js p header) (\<lambda>_. dropping p (io_return ()))"

definition append_jsonl_sample_row :: "'n json_api \<Rightarrow> path \<Rightarrow> 'n json \<Rightarrow> 'n json \<Rightarrow> (disk, io_error, unit) io" where
  "append_jsonl_sample_row js p header sample =
     io_then (io_res (validate_sample_row js sample)) (\<lambda>_.
     io_then (open_jsonl_append_file js p header) (\<lambda>_.
     dropping p (write_json_line js p sample)))"

text \<open>A writer is the handle it holds, named by its path.\<close>

definition writer_open :: "'n json_api \<Rightarrow> path \<Rightarrow> 'n json \<Rightarrow> (disk, io_error, path) io" where
  "writer_open js p header = io_then (open_jsonl_append_file js p header) (\<lambda>_. io_return p)"

definition append_sample_row :: "'n json_api \<Rightarrow> path \<Rightarrow> 'n json \<Rightarrow> (disk, io_error, unit) io" where
  "append_sample_row js writer sample =
     io_then (io_res (validate_sample_row js sample)) (\<lambda>_. write_json_line js writer sample)"

end
