(* ===== verification/Metrics_Jsonl_Facts.thy ===== *)
theory Metrics_Jsonl_Facts
  imports Metrics_Jsonl
begin

text \<open>
  Metrics files stay well formed: what a sequence of writers does to the files, failures
  included, and what happens to a file whose last line was not terminated.
\<close>

section \<open>Lines\<close>

definition terminated :: "string \<Rightarrow> bool" where
  "terminated s \<longleftrightarrow> s = [] \<or> last s = CHR 0x0A"

lemma split_lines_acc_newline:
  "split_lines_acc line (s @ CHR 0x0A # t) = split_lines_acc line (s @ [CHR 0x0A]) @ split_lines_acc [] t"
  by (induction s arbitrary: line) auto

lemma split_lines_append: "terminated s \<Longrightarrow> split_lines (s @ t) = split_lines s @ split_lines t"
proof (cases s rule: rev_cases)
  case (snoc s' c)
  assume "terminated s"
  then have "s = s' @ [CHR 0x0A]" using snoc by (simp add: terminated_def)
  then show ?thesis using split_lines_acc_newline [of "[]" s' t] by (simp add: split_lines_def)
qed (simp add: split_lines_def)

lemma split_lines_acc_one:
  "CHR 0x0A \<notin> set s \<Longrightarrow> split_lines_acc line (s @ [CHR 0x0A]) = [strip_cr (line @ s)]"
  by (induction s arbitrary: line) auto

lemma split_lines_one:
  "CHR 0x0A \<notin> set s \<Longrightarrow> s = [] \<or> last s \<noteq> CHR 0x0D \<Longrightarrow> split_lines (s @ [CHR 0x0A]) = [s]"
  by (auto simp: split_lines_def split_lines_acc_one strip_cr_def)

section \<open>The state of a file\<close>

definition file_state :: "'n json_api \<Rightarrow> string \<Rightarrow> io_error failure + nat \<times> 'n validated_header option" where
  "file_state js s = validate_lines js (map Inr (split_lines s)) (0, None)"

definition canonical :: "'n json_api \<Rightarrow> string \<Rightarrow> bool" where
  "canonical js s \<longleftrightarrow> terminated s \<and> is_ok (file_state js s)"

definition has_header :: "'n json_api \<Rightarrow> string \<Rightarrow> bool" where
  "has_header js s \<longleftrightarrow> (\<exists>n h. file_state js s = Ok (Suc n, Some h))"

text \<open>What the JSON library does with a value: the text it writes fits one line and is read back.\<close>

definition prints_back :: "'n json_api \<Rightarrow> 'n json \<Rightarrow> bool" where
  "prints_back js v \<longleftrightarrow>
     (case js_to_vec js v of
        Inl _ \<Rightarrow> False
      | Inr line \<Rightarrow> js_from_str js line = Ok v \<and> CHR 0x0A \<notin> set line \<and> line \<noteq> [] \<and> last line \<noteq> CHR 0x0D \<and> \<not> blank line)"

lemma prints_backE:
  assumes "prints_back js v"
  obtains line where "js_to_vec js v = Ok line" "js_from_str js line = Ok v" "split_lines (line @ [CHR 0x0A]) = [line]"
    "\<not> blank line"
  using assms by (auto simp: prints_back_def split_lines_one split: sum.splits)

lemma validate_lines_append:
  "validate_lines js (xs @ ys) st = and_then (validate_lines js xs st) (validate_lines js ys)"
proof (induction xs arbitrary: st)
  case (Cons x xs)
  then show ?case by (cases x) (simp_all add: and_then_def split: sum.splits)
qed simp

lemma file_state_append:
  "terminated s \<Longrightarrow> file_state js (s @ t) = and_then (file_state js s) (validate_lines js (map Inr (split_lines t)))"
  by (simp add: file_state_def split_lines_append validate_lines_append)

text \<open>No line has been seen exactly as long as there is no header.\<close>

lemma validate_line_Ok:
  "validate_line js line (n, h) = Ok (n', h') \<Longrightarrow> n' = Suc n \<and> (if n = 0 then h' \<noteq> None else h' = h)"
  by (auto simp: validate_line_def split: sum.splits if_splits failure.splits)

lemma validate_lines_header:
  "validate_lines js rows (n, h) = Ok (n', h') \<Longrightarrow> (n = 0 \<longleftrightarrow> h = None) \<Longrightarrow>
   (n' = 0 \<longleftrightarrow> h' = None) \<and> (h \<noteq> None \<longrightarrow> h' = h)"
proof (induction rows arbitrary: n h)
  case (Cons r rows)
  show ?case
  proof (cases r)
    case (Inr line)
    show ?thesis
    proof (cases "blank line")
      case True
      then show ?thesis using Cons Inr by simp
    next
      case False
      with Cons.prems(1) Inr obtain n1 h1 where one: "validate_line js line (n, h) = Ok (n1, h1)"
          and rest: "validate_lines js rows (n1, h1) = Ok (n', h')"
        by (auto simp: and_then_eq_Ok)
      from validate_line_Ok [OF one] Cons.prems(2) have "n1 = 0 \<longleftrightarrow> h1 = None" "h \<noteq> None \<longrightarrow> h1 = h"
        by (auto split: if_splits)
      with Cons.IH [OF rest] show ?thesis by auto
    qed
  qed (use Cons.prems in simp)
qed simp

lemma file_state_header: "file_state js s = Ok (n, h) \<Longrightarrow> n = 0 \<longleftrightarrow> h = None"
  using validate_lines_header unfolding file_state_def by blast

lemma has_header_append:
  assumes "has_header js s" "terminated s" "canonical js (s @ t)"
  shows "has_header js (s @ t)"
proof -
  from assms(1) obtain n h where s: "file_state js s = Ok (Suc n, Some h)" by (auto simp: has_header_def)
  from assms(3) obtain n' h' where t: "file_state js (s @ t) = Ok (n', h')"
    by (auto simp: canonical_def is_ok_def split: sum.splits)
  with s file_state_append [OF assms(2), of js t] have "validate_lines js (map Inr (split_lines t)) (Suc n, Some h) = Ok (n', h')"
    by simp
  from validate_lines_header [OF this] have "h' = Some h" "n' \<noteq> 0" by auto
  then show ?thesis using t by (cases n') (auto simp: has_header_def)
qed

text \<open>A header written to a file without one, and a sample written to a file with one.\<close>

lemma canonical_write_header:
  assumes "terminated s" "file_state js s = Ok (n, None)" "prints_back js header" "validate_header_object js header = Ok ()"
    "js_to_vec js header = Ok line"
  shows "canonical js (s @ line @ [CHR 0x0A]) \<and>
    file_state js (s @ line @ [CHR 0x0A]) = Ok (1, Some \<lparr>vh_value = header, vh_line = line\<rparr>)"
proof -
  obtain "js_from_str js line = Ok header" "split_lines (line @ [CHR 0x0A]) = [line]" "\<not> blank line"
    using prints_backE [OF assms(3)] assms(5) by (metis sum.inject(2))
  moreover have "n = 0" using file_state_header [OF assms(2)] by simp
  ultimately have "file_state js (s @ line @ [CHR 0x0A]) = Ok (1, Some \<lparr>vh_value = header, vh_line = line\<rparr>)"
    using file_state_append [OF assms(1), of js "line @ [CHR 0x0A]"] assms(2,4) by (simp add: validate_line_def)
  then show ?thesis by (simp add: canonical_def terminated_def)
qed

lemma sample_not_header: "validate_sample_row js v = Ok () \<Longrightarrow> \<not> is_header_object js v"
proof -
  assume "validate_sample_row js v = Ok ()"
  then have "json_get v ''schema'' = None"
    by (auto simp: validate_sample_row_def comparable_keys_def split: if_splits option.splits)
  then show ?thesis by (simp add: is_header_object_def validate_header_object_def)
qed

lemma canonical_write_sample:
  assumes "terminated s" "has_header js s" "prints_back js sample" "validate_sample_row js sample = Ok ()"
    "js_to_vec js sample = Ok line"
  shows "canonical js (s @ line @ [CHR 0x0A])"
proof -
  obtain "js_from_str js line = Ok sample" "split_lines (line @ [CHR 0x0A]) = [line]" "\<not> blank line"
    using prints_backE [OF assms(3)] assms(5) by (metis sum.inject(2))
  moreover obtain n h where "file_state js s = Ok (Suc n, Some h)" using assms(2) by (auto simp: has_header_def)
  ultimately have "is_ok (file_state js (s @ line @ [CHR 0x0A]))"
    using file_state_append [OF assms(1), of js "line @ [CHR 0x0A]"] assms(4) sample_not_header [OF assms(4)]
    by (simp add: validate_line_def)
  then show ?thesis by (simp add: canonical_def terminated_def)
qed

lemma validate_sample_row_safe: "validate_sample_row js v \<noteq> Inl Panicked"
  by (auto simp: validate_sample_row_def split: option.splits if_splits)

lemma validate_line_safe: "validate_line js line st \<noteq> Inl Panicked"
  using validate_sample_row_safe by (auto simp: validate_line_def invalid_data_def split: prod.splits sum.splits failure.splits)

lemma validate_lines_safe: "validate_lines js rows st \<noteq> Inl Panicked"
  by (induction js rows st rule: validate_lines.induct) (auto simp: and_then_eq_Err validate_line_safe)

section \<open>What the operations do to a disk\<close>

text \<open>Failing calls leave no trace: a failing write has written nothing.\<close>

definition atomic_faults :: "disk \<Rightarrow> bool" where
  "atomic_faults d \<longleftrightarrow> (\<forall>n e k. dk_fault d n = Some (e, k) \<longrightarrow> k = 0)"

definition files_ok :: "'n json_api \<Rightarrow> disk \<Rightarrow> bool" where
  "files_ok js d \<longleftrightarrow> atomic_faults d \<and> (\<forall>p s. dk_files d p = Some s \<longrightarrow> canonical js s)"

text \<open>Files are only appended to, and stay canonical.\<close>

definition grown :: "'n json_api \<Rightarrow> disk \<Rightarrow> disk \<Rightarrow> bool" where
  "grown js d d' \<longleftrightarrow> (files_ok js d \<longrightarrow> files_ok js d') \<and>
     (\<forall>p s. dk_files d p = Some s \<longrightarrow> (\<exists>t. dk_files d' p = Some (s @ t)))"

lemma grown_refl: "grown js d d"
  by (simp add: grown_def)

lemma grown_trans [trans]: "grown js d d1 \<Longrightarrow> grown js d1 d2 \<Longrightarrow> grown js d d2"
  unfolding grown_def by (metis append.assoc)

lemma grown_same: "dk_files d' = dk_files d \<Longrightarrow> dk_fault d' = dk_fault d \<Longrightarrow> grown js d d'"
  by (simp add: grown_def files_ok_def atomic_faults_def)

lemma grown_header:
  assumes "grown js d d'" "files_ok js d" "dk_files d p = Some s" "has_header js s"
  shows "\<exists>s'. dk_files d' p = Some s' \<and> has_header js s'"
proof -
  from assms(1,3) obtain t where t: "dk_files d' p = Some (s @ t)" unfolding grown_def by blast
  moreover have "terminated s" using assms(2,3) by (auto simp: files_ok_def canonical_def)
  moreover have "canonical js (s @ t)" using assms(1,2) t unfolding grown_def files_ok_def by blast
  ultimately show ?thesis using has_header_append assms(4) by blast
qed

lemma grown_append:
  assumes "dk_files d p = Some s" "dk_files d' = (dk_files d)(p \<mapsto> s @ t)" "dk_fault d' = dk_fault d"
    "files_ok js d \<Longrightarrow> canonical js (s @ t)"
  shows "grown js d d'"
  using assms by (auto simp: grown_def files_ok_def atomic_faults_def)

text \<open>
  A triple for operations on a disk of canonical files: from a state with \<open>P\<close> the files only grow, no
  lock changes hands, nothing panics, and \<open>Q\<close> holds of a normal result.
\<close>

definition keeps ::
  "'n json_api \<Rightarrow> (disk \<Rightarrow> bool) \<Rightarrow> (disk, io_error, 'a) io \<Rightarrow> ('a \<Rightarrow> disk \<Rightarrow> bool) \<Rightarrow> bool" where
  "keeps js P m Q \<longleftrightarrow> (\<forall>d r d'. files_ok js d \<longrightarrow> P d \<longrightarrow> m d = (r, d') \<longrightarrow>
     grown js d d' \<and> dk_locked d' = dk_locked d \<and> r \<noteq> Inl Panicked \<and> (\<forall>x. r = Inr x \<longrightarrow> Q x d'))"

lemma keepsD:
  "keeps js P m Q \<Longrightarrow> files_ok js d \<Longrightarrow> P d \<Longrightarrow> m d = (r, d') \<Longrightarrow>
   grown js d d' \<and> dk_locked d' = dk_locked d \<and> r \<noteq> Inl Panicked \<and> (\<forall>x. r = Inr x \<longrightarrow> Q x d')"
  unfolding keeps_def by blast

lemma keeps_then:
  assumes "keeps js P m Q" "\<And>x. keeps js (Q x) (f x) R"
  shows "keeps js P (io_then m f) R"
  unfolding keeps_def
proof (intro allI impI)
  fix d r d' assume d: "files_ok js d" "P d" and run: "io_then m f d = (r, d')"
  obtain r1 d1 where m: "m d = (r1, d1)" by (rule prod.exhaust)
  note one = keepsD [OF assms(1) d m]
  show "grown js d d' \<and> dk_locked d' = dk_locked d \<and> r \<noteq> Inl Panicked \<and> (\<forall>x. r = Inr x \<longrightarrow> R x d')"
  proof (cases r1)
    case (Inl e)
    then show ?thesis using one run m by (auto simp: io_then_def)
  next
    case (Inr x)
    have "files_ok js d1" using one d(1) by (simp add: grown_def)
    moreover have "Q x d1" "f x d1 = (r, d')" using one run m Inr by (auto simp: io_then_def)
    ultimately show ?thesis using keepsD [OF assms(2)] one grown_trans by fastforce
  qed
qed

lemma keeps_return: "(\<And>d. P d \<Longrightarrow> Q x d) \<Longrightarrow> keeps js P (io_return x) Q"
  by (auto simp: keeps_def grown_refl)

lemma keeps_raise: "keeps js P (io_raise e) Q"
  by (auto simp: keeps_def grown_refl)

lemma keeps_res: "no_panic m \<Longrightarrow> (\<And>d x. P d \<Longrightarrow> m = Inr x \<Longrightarrow> Q x d) \<Longrightarrow> keeps js P (io_res m) Q"
  by (auto simp: keeps_def grown_refl)

lemma keeps_sys:
  "(\<And>d r d'. files_ok js d \<Longrightarrow> P d \<Longrightarrow> call d = (r, d') \<Longrightarrow>
      grown js d d' \<and> dk_locked d' = dk_locked d \<and> (\<forall>x. r = Inr x \<longrightarrow> Q x d')) \<Longrightarrow>
   keeps js P (io_sys conv call) Q"
  by (auto simp: keeps_def io_sys_def split: prod.splits sum.splits)

section \<open>The calls\<close>

lemmas fs_defs = disk_call_def fs_create_dir_all_def fs_open_append_def fs_try_lock_def fs_seek_start_def
  fs_read_lines_def fs_append_def fs_write_all_def fs_unlock_def

lemma canonical_empty: "canonical js []"
  by (simp add: canonical_def terminated_def file_state_def split_lines_def)

lemma keeps_create_dir: "keeps js (\<lambda>_. True) (fs_create_dir_all q) (\<lambda>_ _. True)"
  by (auto simp: keeps_def fs_defs Let_def intro!: grown_same split: option.splits)

lemma keeps_open_append: "keeps js (\<lambda>_. True) (fs_open_append p) (\<lambda>_ d. dk_files d p \<noteq> None)"
  using canonical_empty [of js]
  by (auto simp: keeps_def fs_defs Let_def grown_def files_ok_def atomic_faults_def split: option.splits if_splits)

lemma keeps_seek: "keeps js (\<lambda>d. dk_files d p = Some s) fs_seek_start (\<lambda>_ d. dk_files d p = Some s)"
  by (auto simp: keeps_def fs_defs Let_def intro!: grown_same split: option.splits)

text \<open>Validating the lines read is validating the file, unless the read failed.\<close>

lemma keeps_read:
  "keeps js (\<lambda>d. dk_files d p = Some s) (fs_read_lines p)
     (\<lambda>rows d. dk_files d p = Some s \<and> (\<forall>st. validate_lines js rows (0, None) = Ok st \<longrightarrow> file_state js s = Ok st))"
proof -
  have "k = 0" if "files_ok js d" "dk_fault d n = Some (e, k)" for d n e k
    using that by (auto simp: files_ok_def atomic_faults_def)
  then show ?thesis
    by (fastforce simp: keeps_def fs_read_lines_def Let_def file_state_def intro!: grown_same split: option.splits)
qed

lemma keeps_write:
  assumes "js_to_vec js v = Ok line" "canonical js (s @ line @ [CHR 0x0A])"
  shows "keeps js (\<lambda>d. dk_files d p = Some s) (write_json_line js p v) (\<lambda>_ d. dk_files d p = Some (s @ line @ [CHR 0x0A]))"
  unfolding keeps_def
proof (intro allI impI)
  fix d r d' assume ok: "files_ok js d" and old: "dk_files d p = Some s" and w: "write_json_line js p v d = (r, d')"
  show "grown js d d' \<and> dk_locked d' = dk_locked d \<and> r \<noteq> Inl Panicked \<and>
      (\<forall>x. r = Inr x \<longrightarrow> dk_files d' p = Some (s @ line @ [CHR 0x0A]))"
  proof (cases "dk_fault d (dk_calls d)")
    case None
    then have "r = Ok ()" "dk_files d' = (dk_files d)(p \<mapsto> s @ line @ [CHR 0x0A])" "dk_fault d' = dk_fault d" "dk_locked d' = dk_locked d"
      using w assms(1) old by (auto simp: write_json_line_def fs_defs Let_def)
    then show ?thesis using grown_append [OF old] assms(2) by simp
  next
    case (Some f)
    obtain e k where f: "f = (e, k)" by force
    with ok Some have "k = 0" by (simp add: files_ok_def atomic_faults_def)
    then have "r = Inl (Raised e)" "dk_files d' = dk_files d" "dk_fault d' = dk_fault d" "dk_locked d' = dk_locked d"
      using w assms(1) old Some f by (auto simp: write_json_line_def fs_defs Let_def fun_upd_idem)
    then show ?thesis using grown_same by simp
  qed
qed

definition header_at :: "'n json_api \<Rightarrow> path \<Rightarrow> disk \<Rightarrow> bool" where
  "header_at js p d \<longleftrightarrow> (\<exists>s. dk_files d p = Some s \<and> has_header js s)"

lemma keeps_file:
  assumes "\<And>s. canonical js s \<Longrightarrow> keeps js (\<lambda>d. dk_files d p = Some s) m Q"
  shows "keeps js (\<lambda>d. dk_files d p \<noteq> None) m Q"
  using assms unfolding keeps_def files_ok_def by (metis not_None_eq)

lemma keeps_weaken: "keeps js P m Q \<Longrightarrow> (\<And>d. P' d \<Longrightarrow> P d) \<Longrightarrow> (\<And>x d. Q x d \<Longrightarrow> Q' x d) \<Longrightarrow> keeps js P' m Q'"
  unfolding keeps_def by blast

text \<open>Whatever happens, a header that is there stays there.\<close>

lemma keeps_header:
  assumes "keeps js P m Q"
  shows "keeps js (\<lambda>d. P d \<and> header_at js p d) m (\<lambda>x d. Q x d \<and> header_at js p d)"
  unfolding keeps_def
proof (intro allI impI)
  fix d r d' assume d: "files_ok js d" "P d \<and> header_at js p d" and run: "m d = (r, d')"
  note one = keepsD [OF assms d(1) _ run]
  have "header_at js p d'" using d one grown_header unfolding header_at_def by metis
  then show "grown js d d' \<and> dk_locked d' = dk_locked d \<and> r \<noteq> Inl Panicked \<and> (\<forall>x. r = Inr x \<longrightarrow> Q x d' \<and> header_at js p d')"
    using one d by blast
qed

section \<open>Opening and writing\<close>

lemma keeps_settle:
  assumes s: "canonical js s" "file_state js s = Ok (n, h)"
    and header: "prints_back js header" "validate_header_object js header = Ok ()"
  shows "keeps js (\<lambda>d. dk_files d p = Some s) (settle_header js p header h) (\<lambda>_. header_at js p)"
proof (cases h)
  case (Some x)
  then have "has_header js s" using s file_state_header [OF s(2)] by (cases n) (auto simp: has_header_def)
  then show ?thesis by (auto simp: settle_header_def Some header_at_def intro!: keeps_raise keeps_return)
next
  case None
  from prints_backE [OF header(1)] obtain line where line: "js_to_vec js header = Ok line" by blast
  have "terminated s" using s(1) by (simp add: canonical_def)
  from canonical_write_header [OF this s(2) [unfolded None] header line] have w:
    "canonical js (s @ line @ [CHR 0x0A])" "has_header js (s @ line @ [CHR 0x0A])" by (auto simp: has_header_def)
  show ?thesis
    unfolding settle_header_def None
    by (simp, rule keeps_weaken [OF keeps_write [OF line w(1)]]) (auto simp: header_at_def w(2))
qed

lemma keeps_check_or_write:
  assumes header: "prints_back js header" "validate_header_object js header = Ok ()"
  shows "keeps js (\<lambda>d. dk_files d p \<noteq> None) (check_or_write_header js p header) (\<lambda>_. header_at js p)"
  unfolding check_or_write_header_def
proof (rule keeps_file, rule keeps_then [OF keeps_seek], rule keeps_then [OF keeps_read])
  fix s rows assume s: "canonical js s"
  show "keeps js (\<lambda>d. dk_files d p = Some s \<and> (\<forall>st. validate_lines js rows (0, None) = Ok st \<longrightarrow> file_state js s = Ok st))
     (io_then (io_res (validate_existing_header_reader js rows)) (settle_header js p header)) (\<lambda>_. header_at js p)"
  proof (rule keeps_then)
    show "keeps js (\<lambda>d. dk_files d p = Some s \<and> (\<forall>st. validate_lines js rows (0, None) = Ok st \<longrightarrow> file_state js s = Ok st))
       (io_res (validate_existing_header_reader js rows)) (\<lambda>h d. dk_files d p = Some s \<and> (\<exists>n. file_state js s = Ok (n, h)))"
      using validate_lines_safe [of js rows]
      by (intro keeps_res) (auto simp: validate_existing_header_reader_def no_panic_def and_then_eq_Ok and_then_eq_Err)
    show "keeps js (\<lambda>d. dk_files d p = Some s \<and> (\<exists>n. file_state js s = Ok (n, h))) (settle_header js p header h) (\<lambda>_. header_at js p)" for h
      using keeps_settle [OF s _ header, of _ h p] unfolding keeps_def by blast
  qed
qed

text \<open>Opening takes the lock exactly when it succeeds, and only a free one.\<close>

definition opened :: "path \<Rightarrow> disk \<Rightarrow> io_error failure + 'a \<Rightarrow> disk \<Rightarrow> bool" where
  "opened p d r d' \<longleftrightarrow>
     (case r of
        Inl _ \<Rightarrow> dk_locked d' = dk_locked d
      | Inr _ \<Rightarrow> p \<notin> set (dk_locked d) \<and> dk_locked d' = p # dk_locked d)"

lemma try_lock_effect:
  assumes "fs_try_lock p d = (r, d')"
  shows "grown js d d' \<and> dk_files d' = dk_files d \<and>
    (case r of Inl _ \<Rightarrow> dk_locked d' = dk_locked d | Inr _ \<Rightarrow> p \<notin> set (dk_locked d) \<and> dk_locked d' = p # dk_locked d)"
  using assms by (auto simp: fs_defs Let_def intro!: grown_same split: option.splits if_splits)

lemma lock_and_settle_effect:
  assumes run: "io_then (io_sys conv (fs_try_lock p)) (\<lambda>_. closing p (check_or_write_header js p header)) d = (r, d')"
    and ok: "files_ok js d" "dk_files d p \<noteq> None"
    and header: "prints_back js header" "validate_header_object js header = Ok ()"
  shows "grown js d d' \<and> r \<noteq> Inl Panicked \<and> opened p d r d' \<and> (is_ok r \<longrightarrow> header_at js p d')"
proof -
  obtain l d1 where lock: "fs_try_lock p d = (l, d1)" by (rule prod.exhaust)
  note le = try_lock_effect [OF lock, of js]
  show ?thesis
  proof (cases l)
    case (Inl e)
    then show ?thesis using run lock le by (auto simp: io_then_def io_sys_def opened_def)
  next
    case (Inr u)
    obtain q d2 where c: "check_or_write_header js p header d1 = (q, d2)" by (rule prod.exhaust)
    have ok1: "files_ok js d1" "dk_files d1 p \<noteq> None" using le ok by (auto simp: grown_def)
    note two = keepsD [OF keeps_check_or_write [OF header] ok1 c]
    have res: "r = q" "d' = (case q of Inl _ \<Rightarrow> fs_unlock p d2 | Inr _ \<Rightarrow> d2)"
      using run lock c Inr by (auto simp: io_then_def io_sys_def closing_def split: sum.splits)
    have d2: "grown js d d2" by (rule grown_trans [of js d d1]) (use le two in simp_all)
    have "grown js d2 (fs_unlock p d2)" by (rule grown_same) (simp_all add: fs_unlock_def)
    from grown_trans [OF d2 this] have "grown js d d'" using d2 res by (cases q) simp_all
    moreover have "opened p d r d'" using le two res Inr by (auto simp: opened_def fs_unlock_def removeAll_id split: sum.splits)
    ultimately show ?thesis using two res by (cases q) auto
  qed
qed

lemma io_then_assoc: "io_then (io_then m f) g = io_then m (\<lambda>x. io_then (f x) g)"
  by (rule ext) (simp add: io_then_def split: prod.splits sum.splits)

lemma open_jsonl_effect:
  assumes run: "open_jsonl_append_file js p header d = (r, d')" and ok: "files_ok js d" and header: "prints_back js header"
  shows "grown js d d' \<and> r \<noteq> Inl Panicked \<and> opened p d r d' \<and> (is_ok r \<longrightarrow> header_at js p d')"
proof (cases "validate_header_object js header")
  case (Inl m)
  then show ?thesis using run by (auto simp: open_jsonl_append_file_def opened_def grown_refl)
next
  case (Inr u)
  let ?dirs = "case path_parent p of Some parent \<Rightarrow> io_when (parent \<noteq> []) (fs_create_dir_all parent) | None \<Rightarrow> io_return ()"
  define pre where "pre = io_then ?dirs (\<lambda>_. fs_open_append p)"
  obtain conv where run': "io_then pre (\<lambda>_.
      io_then (io_sys conv (fs_try_lock p)) (\<lambda>_. closing p (check_or_write_header js p header))) d = (r, d')"
    using run Inr unfolding open_jsonl_append_file_def pre_def io_then_assoc by auto
  have "keeps js (\<lambda>_. True) ?dirs (\<lambda>_ _. True)"
    using keeps_create_dir keeps_return by (auto simp: io_when_def split: option.splits)
  from keeps_then [OF this keeps_open_append]
  have open': "keeps js (\<lambda>_. True) pre (\<lambda>_ d. dk_files d p \<noteq> None)" unfolding pre_def .
  obtain q d1 where q: "pre d = (q, d1)" by (rule prod.exhaust)
  note one = keepsD [OF open' ok _ q]
  show ?thesis
  proof (cases q)
    case (Inl e)
    then have "r = Inl e" "d' = d1" using run' q Inl by simp_all
    then show ?thesis using one Inl by (simp add: opened_def)
  next
    case q': (Inr u')
    then have rest: "io_then (io_sys conv (fs_try_lock p)) (\<lambda>_. closing p (check_or_write_header js p header)) d1 = (r, d')"
      using run' q q' by simp
    have "files_ok js d1" "dk_files d1 p \<noteq> None" using one q' ok by (auto simp: grown_def)
    from lock_and_settle_effect [OF rest this header] Inr
    have two: "grown js d1 d'" "r \<noteq> Inl Panicked" "opened p d1 r d'" "is_ok r \<longrightarrow> header_at js p d'" by auto
    have "grown js d d'" by (rule grown_trans [of js d d1]) (use one two in simp_all)
    then show ?thesis using one two by (cases r) (simp_all add: opened_def)
  qed
qed

text \<open>A sample written where a header is.\<close>

lemma keeps_write_sample:
  assumes "prints_back js sample" "validate_sample_row js sample = Ok ()"
  shows "keeps js (header_at js p) (write_json_line js p sample) (\<lambda>_. header_at js p)"
  unfolding keeps_def
proof (intro allI impI)
  fix d r d' assume ok: "files_ok js d" and h: "header_at js p d" and run: "write_json_line js p sample d = (r, d')"
  from h obtain s where s: "dk_files d p = Some s" "has_header js s" by (auto simp: header_at_def)
  have "terminated s" using ok s(1) by (auto simp: files_ok_def canonical_def)
  moreover from prints_backE [OF assms(1)] obtain line where line: "js_to_vec js sample = Ok line" by blast
  ultimately have w: "canonical js (s @ line @ [CHR 0x0A])" using canonical_write_sample s(2) assms by blast
  from keepsD [OF keeps_header [OF keeps_write [OF line w], of p p] ok _ run] s(1) h
  show "grown js d d' \<and> dk_locked d' = dk_locked d \<and> r \<noteq> Inl Panicked \<and> (\<forall>x. r = Inr x \<longrightarrow> header_at js p d')"
    by blast
qed

lemma keeps_append_sample:
  assumes "prints_back js sample"
  shows "keeps js (header_at js p) (append_sample_row js p sample) (\<lambda>_. header_at js p)"
proof (cases "validate_sample_row js sample")
  case (Inl e)
  then have "append_sample_row js p sample = io_res (Inl e)" by (simp add: append_sample_row_def io_then_def io_res_def fun_eq_iff)
  moreover have "no_panic (Inl e :: io_error failure + unit)" using validate_sample_row_safe [of js sample] Inl by auto
  ultimately show ?thesis using keeps_res by (metis Inl_Inr_False)
next
  case (Inr u)
  then have "append_sample_row js p sample = write_json_line js p sample"
    by (simp add: append_sample_row_def io_then_def io_res_def fun_eq_iff)
  then show ?thesis using keeps_write_sample [OF assms] Inr by simp
qed

section \<open>Runs\<close>

text \<open>
  Any number of writers on any number of files, one-shot appends and header checks between them. A
  writer is named by its path; closing it gives up its lock. \<open>V\<close> are the values handed in.
\<close>

inductive jsonl_run :: "'n json_api \<Rightarrow> 'n json set \<Rightarrow> disk \<Rightarrow> disk \<Rightarrow> path list \<Rightarrow> bool" for js V d0 where
  run_start: "jsonl_run js V d0 d0 []"
| run_open: "jsonl_run js V d0 d ws \<Longrightarrow> header \<in> V \<Longrightarrow> writer_open js p header d = (r, d') \<Longrightarrow>
    jsonl_run js V d0 d' (case r of Inr w \<Rightarrow> w # ws | Inl _ \<Rightarrow> ws)"
| run_append: "jsonl_run js V d0 d ws \<Longrightarrow> w \<in> set ws \<Longrightarrow> sample \<in> V \<Longrightarrow> append_sample_row js w sample d = (r, d') \<Longrightarrow>
    jsonl_run js V d0 d' ws"
| run_close: "jsonl_run js V d0 d ws \<Longrightarrow> w \<in> set ws \<Longrightarrow> jsonl_run js V d0 (fs_unlock w d) (removeAll w ws)"
| run_once: "jsonl_run js V d0 d ws \<Longrightarrow> header \<in> V \<Longrightarrow> sample \<in> V \<Longrightarrow> append_jsonl_sample_row js p header sample d = (r, d') \<Longrightarrow>
    jsonl_run js V d0 d' ws"
| run_ensure: "jsonl_run js V d0 d ws \<Longrightarrow> header \<in> V \<Longrightarrow> ensure_single_header js p header d = (r, d') \<Longrightarrow>
    jsonl_run js V d0 d' ws"

text \<open>The writers are the holders of the locks, and each has a header in its file.\<close>

definition writers_ok :: "'n json_api \<Rightarrow> disk \<Rightarrow> path list \<Rightarrow> bool" where
  "writers_ok js d ws \<longleftrightarrow> ws = dk_locked d \<and> distinct ws \<and> (\<forall>w \<in> set ws. header_at js w d)"

lemma header_at_grown: "grown js d d' \<Longrightarrow> files_ok js d \<Longrightarrow> header_at js p d \<Longrightarrow> header_at js p d'"
  using grown_header unfolding header_at_def by metis

lemma writers_ok_grown:
  "writers_ok js d ws \<Longrightarrow> grown js d d' \<Longrightarrow> files_ok js d \<Longrightarrow> dk_locked d' = dk_locked d \<Longrightarrow> writers_ok js d' ws"
  using header_at_grown by (fastforce simp: writers_ok_def)

lemma grown_unlock: "grown js d (fs_unlock p d)"
  by (rule grown_same) (simp_all add: fs_unlock_def)

lemma unlock_opened: "opened p d (Inr x) d' \<Longrightarrow> dk_locked d2 = dk_locked d' \<Longrightarrow> dk_locked (fs_unlock p d2) = dk_locked d"
  by (simp add: opened_def fs_unlock_def removeAll_id)

text \<open>An operation that opens, does its work and drops the handle keeps the locks as they were.\<close>

lemma once_effect:
  assumes run: "io_then (open_jsonl_append_file js p header) (\<lambda>_. dropping p m) d = (r, d')"
    and ok: "files_ok js d" and header: "prints_back js header"
    and m: "keeps js (header_at js p) m (\<lambda>_. header_at js p)"
  shows "grown js d d' \<and> dk_locked d' = dk_locked d \<and> r \<noteq> Inl Panicked"
proof -
  obtain q d1 where q: "open_jsonl_append_file js p header d = (q, d1)" by (rule prod.exhaust)
  note one = open_jsonl_effect [OF q ok header]
  show ?thesis
  proof (cases q)
    case (Inl e)
    then show ?thesis using one run q by (auto simp: opened_def)
  next
    case (Inr u)
    obtain r2 d2 where m2: "m d1 = (r2, d2)" by (rule prod.exhaust)
    have "files_ok js d1" "header_at js p d1" using one ok Inr by (auto simp: grown_def)
    from keepsD [OF m this m2] have two: "grown js d1 d2" "dk_locked d2 = dk_locked d1" "r2 \<noteq> Inl Panicked" by auto
    have res: "r = r2" "d' = fs_unlock p d2" using run q Inr m2 by (simp_all add: dropping_def)
    have "grown js d d2" by (rule grown_trans [of js d d1]) (use one two in simp_all)
    from grown_trans [OF this grown_unlock] have "grown js d d'" unfolding res .
    moreover have "dk_locked d' = dk_locked d"
      unfolding res by (rule unlock_opened [of p d u d1]) (use one two Inr in simp_all)
    ultimately show ?thesis using two res by simp
  qed
qed

lemma run_once_effect:
  assumes "append_jsonl_sample_row js p header sample d = (r, d')" "files_ok js d" "prints_back js header" "prints_back js sample"
  shows "grown js d d' \<and> dk_locked d' = dk_locked d \<and> r \<noteq> Inl Panicked"
proof (cases "validate_sample_row js sample")
  case (Inl e)
  then show ?thesis using assms(1) validate_sample_row_safe [of js sample]
    by (auto simp: append_jsonl_sample_row_def io_then_def io_res_def grown_refl)
next
  case (Inr u)
  then have "io_then (open_jsonl_append_file js p header) (\<lambda>_. dropping p (write_json_line js p sample)) d = (r, d')"
    using assms(1) by (simp add: append_jsonl_sample_row_def io_then_def io_res_def)
  from once_effect [OF this assms(2,3) keeps_write_sample [OF assms(4)]] Inr show ?thesis by simp
qed

lemma run_on:
  assumes "files_ok js d" "grown js d0 d" "writers_ok js d ws" "grown js d d'" "dk_locked d' = dk_locked d"
  shows "grown js d0 d' \<and> files_ok js d' \<and> writers_ok js d' ws"
  using grown_trans [OF assms(2,4)] writers_ok_grown [OF assms(3,4,1,5)] assms(1,4) by (simp add: grown_def [of js d d'])

lemma jsonl_run_ok:
  assumes "jsonl_run js V d0 d ws" "files_ok js d0" "dk_locked d0 = []" "\<And>v. v \<in> V \<Longrightarrow> prints_back js v"
  shows "grown js d0 d \<and> files_ok js d \<and> writers_ok js d ws"
  using assms(1)
proof induction
  case run_start
  then show ?case using assms(2,3) by (simp add: grown_refl writers_ok_def)
next
  case (run_open d ws header p r d')
  note printed = assms(4) [OF run_open.hyps(2)]
  obtain q d1 where q: "open_jsonl_append_file js p header d = (q, d1)" by (rule prod.exhaust)
  have res: "d' = d1" "r = (case q of Inl e \<Rightarrow> Inl e | Inr _ \<Rightarrow> Inr p)"
    using run_open.hyps(3) q by (cases q; simp add: writer_open_def)+
  have ok: "files_ok js d" "grown js d0 d" "writers_ok js d ws" using run_open.IH by auto
  from open_jsonl_effect [OF q ok(1) printed] have one:
    "grown js d d1" "opened p d q d1" "is_ok q \<longrightarrow> header_at js p d1" by auto
  have "writers_ok js d1 (case r of Inr w \<Rightarrow> w # ws | Inl _ \<Rightarrow> ws)"
    using ok(3) one header_at_grown [OF one(1) ok(1)] res by (cases q) (auto simp: writers_ok_def opened_def)
  moreover have "files_ok js d1" using ok(1) one(1) by (simp add: grown_def)
  moreover have "grown js d0 d1" by (rule grown_trans [OF ok(2) one(1)])
  ultimately show ?case using res by simp
next
  case (run_append d ws w sample r d')
  have ok: "files_ok js d" "grown js d0 d" "writers_ok js d ws" using run_append.IH by auto
  have "header_at js w d" using ok(3) run_append.hyps(2) by (simp add: writers_ok_def)
  from keepsD [OF keeps_append_sample [OF assms(4) [OF run_append.hyps(3)]] ok(1) this run_append.hyps(4)]
  have "grown js d d'" "dk_locked d' = dk_locked d" by auto
  then show ?case by (intro run_on [OF ok]) simp_all
next
  case (run_close d ws w)
  have "writers_ok js (fs_unlock w d) (removeAll w ws)"
    using run_close.IH by (auto simp: writers_ok_def fs_unlock_def header_at_def distinct_removeAll)
  moreover have "files_ok js (fs_unlock w d)" using run_close.IH grown_unlock [of js d w] by (simp add: grown_def)
  ultimately show ?case using run_close.IH grown_trans [OF _ grown_unlock] by blast
next
  case (run_once d ws header sample p r d')
  have ok: "files_ok js d" "grown js d0 d" "writers_ok js d ws" using run_once.IH by auto
  from run_once_effect [OF run_once.hyps(4) ok(1) assms(4) [OF run_once.hyps(2)] assms(4) [OF run_once.hyps(3)]]
  show ?case by (intro run_on [OF ok]) simp_all
next
  case (run_ensure d ws header p r d')
  have ok: "files_ok js d" "grown js d0 d" "writers_ok js d ws" using run_ensure.IH by auto
  from once_effect [OF run_ensure.hyps(3) [unfolded ensure_single_header_def] ok(1) assms(4) [OF run_ensure.hyps(2)]]
  have "grown js d d' \<and> dk_locked d' = dk_locked d" using keeps_return [of "header_at js p" "\<lambda>_. header_at js p" "()" js] by blast
  then show ?case by (intro run_on [OF ok]) simp_all
qed


text \<open>A JSON library that knows one header and one sample, and a disk with no file.\<close>

definition sample_header :: "int json" where
  "sample_header =
     JObject [(''artifact_type'', JString ''mctx-network''), (''created_at'', JNumber 10), (''flags'', JObject []),
       (''node_id'', JString ''a''), (''producer'', JString ''mctx''), (''schema'', JString HEIMDALL_JSONL_SCHEMA)]"

definition sample_row :: "int json" where
  "sample_row = JObject [(''interval_secs'', JNumber 1), (''ts'', JNumber 11)]"

definition sample_json :: "int json_api" where
  "sample_json =
     \<lparr>js_from_str = (\<lambda>s. if s = ''{h}'' then Ok sample_header else if s = ''{s}'' then Ok sample_row else Err ''syntax''),
      js_to_vec = (\<lambda>v. if v = sample_header then Ok ''{h}'' else if v = sample_row then Ok ''{s}'' else Err ''unknown''),
      js_finite = (\<lambda>_. True), js_negative = (\<lambda>n. n < 0), js_secs = int\<rparr>"

definition sample_disk :: "(string \<times> string) list \<Rightarrow> disk" where
  "sample_disk files =
     \<lparr>dk_files = (\<lambda>p. case p of [Normal f] \<Rightarrow> map_of files f | _ \<Rightarrow> None), dk_locked = [], dk_fault = (\<lambda>_. None), dk_calls = 0\<rparr>"

lemma sample_prints_back: "prints_back sample_json sample_header" "prints_back sample_json sample_row"
  by code_simp+




end
