(* ===== verification/Std_Text.thy ===== *)
theory Std_Text
  imports Net_Addr
begin

text \<open>
  The part of the standard library that reads numbers and addresses from the command line and the
  environment: \<open>FromStr\<close> of the unsigned integers, of \<open>IpAddr\<close> and of \<open>SocketAddr\<close>. A string is its
  UTF-8 bytes. The reader of addresses is the recursive descent reader of
  \<open>core::net\<close>: each reader returns the value with the rest of the input, or nothing, and then
  the input is where it was. The lemmas give the texts that are read back as the value they
  were written from.
\<close>

section \<open>Unsigned integers\<close>

datatype int_error_kind = Empty | InvalidDigit | PosOverflow

fun int_error_text :: "int_error_kind \<Rightarrow> string" where
  "int_error_text Empty = ''cannot parse integer from empty string''"
| "int_error_text InvalidDigit = ''invalid digit found in string''"
| "int_error_text PosOverflow = ''number too large to fit in target type''"

definition to_digit :: "int \<Rightarrow> char \<Rightarrow> int option" where
  "to_digit radix c =
     (let n = of_char c :: int;
          d = (if 48 \<le> n \<and> n \<le> 57 then n - 48
               else if 97 \<le> n \<and> n \<le> 122 then n - 87
               else if 65 \<le> n \<and> n \<le> 90 then n - 55
               else 36)
      in if d < radix then Some d else None)"

text \<open>
  The loop over the digits, with checked arithmetic below \<open>limit\<close>: a bad digit is reported
  before an overflow at the same position.
\<close>

fun uint_digits :: "int \<Rightarrow> string \<Rightarrow> int \<Rightarrow> int_error_kind + int" where
  "uint_digits limit [] acc = Inr acc"
| "uint_digits limit (c # cs) acc =
     (case to_digit 10 c of
        None \<Rightarrow> Inl InvalidDigit
      | Some d \<Rightarrow>
          if acc * 10 < limit \<and> acc * 10 + d < limit then uint_digits limit cs (acc * 10 + d)
          else Inl PosOverflow)"

definition parse_uint :: "int \<Rightarrow> string \<Rightarrow> int_error_kind + int" where
  "parse_uint limit s =
     (case s of
        [] \<Rightarrow> Inl Empty
      | [c] \<Rightarrow> if c = CHR ''+'' \<or> c = CHR ''-'' then Inl InvalidDigit else uint_digits limit s 0
      | c # cs \<Rightarrow> if c = CHR ''+'' then uint_digits limit cs 0 else uint_digits limit s 0)"

definition parse_word :: "string \<Rightarrow> int_error_kind + 'a :: len word" where
  "parse_word s = (case parse_uint (2 ^ LENGTH('a)) s of Inl e \<Rightarrow> Inl e | Inr n \<Rightarrow> Inr (of_int n))"

section \<open>Addresses\<close>

type_synonym 'a reader = "string \<Rightarrow> ('a \<times> string) option"

definition read_given_char :: "char \<Rightarrow> unit reader" where
  "read_given_char c s = (case s of x # r \<Rightarrow> if x = c then Some ((), r) else None | [] \<Rightarrow> None)"

definition read_separator :: "char \<Rightarrow> nat \<Rightarrow> 'a reader \<Rightarrow> 'a reader" where
  "read_separator sep i inner s =
     (if i > 0 then Option.bind (read_given_char sep s) (\<lambda>(_, r). inner r) else inner s)"

text \<open>At most \<open>max_digits\<close> digits: the value, the number of digits and the rest.\<close>

fun read_digits :: "int \<Rightarrow> nat \<Rightarrow> string \<Rightarrow> int \<Rightarrow> nat \<Rightarrow> (int \<times> nat \<times> string) option" where
  "read_digits radix max_digits [] acc count = Some (acc, count, [])"
| "read_digits radix max_digits (c # cs) acc count =
     (case to_digit radix c of
        None \<Rightarrow> Some (acc, count, c # cs)
      | Some d \<Rightarrow>
          if count + 1 > max_digits then None
          else read_digits radix max_digits cs (acc * radix + d) (count + 1))"

definition read_number :: "int \<Rightarrow> nat \<Rightarrow> bool \<Rightarrow> int \<Rightarrow> int reader" where
  "read_number radix max_digits allow_zero_prefix limit s =
     (case read_digits radix max_digits s 0 0 of
        None \<Rightarrow> None
      | Some (n, count, r) \<Rightarrow>
          if count = 0 then None
          else if \<not> allow_zero_prefix \<and> take 1 s = ''0'' \<and> count > 1 then None
          else if n < limit then Some (n, r) else None)"

text \<open>Any number of digits, with checked arithmetic (ports and scope identifiers).\<close>

fun read_checked :: "int \<Rightarrow> string \<Rightarrow> int \<Rightarrow> nat \<Rightarrow> (int \<times> nat \<times> string) option" where
  "read_checked limit [] acc count = Some (acc, count, [])"
| "read_checked limit (c # cs) acc count =
     (case to_digit 10 c of
        None \<Rightarrow> Some (acc, count, c # cs)
      | Some d \<Rightarrow>
          if acc * 10 < limit \<and> acc * 10 + d < limit then read_checked limit cs (acc * 10 + d) (count + 1)
          else None)"

definition read_decimal :: "int \<Rightarrow> int reader" where
  "read_decimal limit s =
     (case read_checked limit s 0 0 of
        Some (n, count, r) \<Rightarrow> if count = 0 then None else Some (n, r)
      | None \<Rightarrow> None)"

definition read_octet :: "nat \<Rightarrow> u8 reader" where
  "read_octet i s = map_option (\<lambda>(n, r). (of_int n, r))
     (read_separator (CHR ''.'') i (read_number 10 3 False 256) s)"

definition read_ipv4_addr :: "ipv4_addr reader" where
  "read_ipv4_addr s =
     Option.bind (read_octet 0 s) (\<lambda>(a, s). Option.bind (read_octet 1 s) (\<lambda>(b, s).
     Option.bind (read_octet 2 s) (\<lambda>(c, s). Option.bind (read_octet 3 s) (\<lambda>(d, s).
     Some (Ipv4Addr a b c d, s)))))"

definition read_group :: "nat \<Rightarrow> u16 reader" where
  "read_group i s = map_option (\<lambda>(n, r). (of_int n, r))
     (read_separator (CHR '':'') i (read_number 16 4 True 65536) s)"

text \<open>
  Up to \<open>n\<close> more groups, the next one being group \<open>i\<close>: the groups, whether they end with an embedded
  IPv4 address, and the rest.
\<close>

fun read_groups :: "nat \<Rightarrow> nat \<Rightarrow> string \<Rightarrow> u16 list \<times> bool \<times> string" where
  "read_groups 0 i s = ([], False, s)"
| "read_groups (Suc n) i s =
     (case (if n > 0 then read_separator (CHR '':'') i read_ipv4_addr s else None) of
        Some (Ipv4Addr a b c d, r) \<Rightarrow> ([u16_from_be a b, u16_from_be c d], True, r)
      | None \<Rightarrow>
          (case read_group i s of
             None \<Rightarrow> ([], False, s)
           | Some (g, r) \<Rightarrow>
               (case read_groups n (Suc i) r of (gs, v4, r') \<Rightarrow> (g # gs, v4, r'))))"

definition ipv6_from_groups :: "u16 list \<Rightarrow> ipv6_addr" where
  "ipv6_from_groups gs = foldl (\<lambda>a g. push_bit 16 a OR ucast g) 0 gs"

definition read_ipv6_addr :: "ipv6_addr reader" where
  "read_ipv6_addr s =
     (case read_groups 8 0 s of (front, front_ipv4, s1) \<Rightarrow>
        if length front = 8 then Some (ipv6_from_groups front, s1)
        else if front_ipv4 then None
        else Option.bind (read_given_char (CHR '':'') s1) (\<lambda>(_, s2).
             Option.bind (read_given_char (CHR '':'') s2) (\<lambda>(_, s3).
             (case read_groups (8 - (length front + 1)) 0 s3 of (rear, _, s4) \<Rightarrow>
                Some (ipv6_from_groups (front @ replicate (8 - length front - length rear) 0 @ rear), s4)))))"

definition read_ip_addr :: "ip_addr reader" where
  "read_ip_addr s =
     (case read_ipv4_addr s of
        Some (a, r) \<Rightarrow> Some (V4 a, r)
      | None \<Rightarrow> map_option (\<lambda>(a, r). (V6 a, r)) (read_ipv6_addr s))"

definition read_port :: "u16 reader" where
  "read_port s = Option.bind (read_given_char (CHR '':'') s) (\<lambda>(_, r).
     map_option (\<lambda>(n, r). (of_int n, r)) (read_decimal 65536 r))"

definition read_scope_id :: "u32 reader" where
  "read_scope_id s = Option.bind (read_given_char (CHR ''%'') s) (\<lambda>(_, r).
     map_option (\<lambda>(n, r). (of_int n, r)) (read_decimal 4294967296 r))"

definition read_socket_addr_v4 :: "socket_addr_v4 reader" where
  "read_socket_addr_v4 s = Option.bind (read_ipv4_addr s) (\<lambda>(ip, s).
     Option.bind (read_port s) (\<lambda>(port, s). Some (socket_addr_v4_new ip port, s)))"

definition read_socket_addr_v6 :: "socket_addr_v6 reader" where
  "read_socket_addr_v6 s =
     Option.bind (read_given_char (CHR ''['') s) (\<lambda>(_, s).
     Option.bind (read_ipv6_addr s) (\<lambda>(ip, s).
     (case (case read_scope_id s of Some x \<Rightarrow> x | None \<Rightarrow> (0, s)) of (scope_id, s) \<Rightarrow>
     Option.bind (read_given_char (CHR '']'') s) (\<lambda>(_, s).
     Option.bind (read_port s) (\<lambda>(port, s). Some (socket_addr_v6_new ip port 0 scope_id, s))))))"

definition read_socket_addr :: "socket_addr reader" where
  "read_socket_addr s =
     (case read_socket_addr_v4 s of
        Some (a, r) \<Rightarrow> Some (SockV4 a, r)
      | None \<Rightarrow> map_option (\<lambda>(a, r). (SockV6 a, r)) (read_socket_addr_v6 s))"

text \<open>The whole input must be read.\<close>

definition parse_with :: "'a reader \<Rightarrow> string \<Rightarrow> 'a option" where
  "parse_with rd s = (case rd s of Some (x, r) \<Rightarrow> if r = [] then Some x else None | None \<Rightarrow> None)"

definition parse_ip_addr :: "string \<Rightarrow> string + ip_addr" where
  "parse_ip_addr s = (case parse_with read_ip_addr s of
     None \<Rightarrow> Inl ''invalid IP address syntax'' | Some a \<Rightarrow> Inr a)"

definition parse_socket_addr :: "string \<Rightarrow> string + socket_addr" where
  "parse_socket_addr s = (case parse_with read_socket_addr s of
     None \<Rightarrow> Inl ''invalid socket address syntax'' | Some a \<Rightarrow> Inr a)"

definition map_err :: "('e \<Rightarrow> 'f) \<Rightarrow> 'e + 'a \<Rightarrow> 'f + 'a" where
  "map_err f r = (case r of Inl e \<Rightarrow> Inl (f e) | Inr x \<Rightarrow> Inr x)"

text \<open>Parsing an integer, with the text of its error.\<close>

definition parse_int_text :: "string \<Rightarrow> string + 'a :: len word" where
  "parse_int_text s = map_err int_error_text (parse_word s)"

lemma map_err_simps [simp]: "map_err f (Inl e) = Inl (f e)" "map_err f (Inr x) = Inr x"
  by (simp_all add: map_err_def)

lemma map_err_eq [mctx_result]:
  "map_err f r = Inr x \<longleftrightarrow> r = Inr x"
  "map_err f r = Inl e \<longleftrightarrow> (\<exists>e'. r = Inl e' \<and> e = f e')"
  by (cases r; auto)+

section \<open>Texts that are read back\<close>

definition digit_char :: "nat \<Rightarrow> char" where
  "digit_char d = ''0123456789abcdef'' ! d"

text \<open>The decimal digits of a number, without leading zeros.\<close>

fun dec_digits :: "nat \<Rightarrow> nat list" where
  "dec_digits n = (if n < 10 then [n] else dec_digits (n div 10) @ [n mod 10])"

declare dec_digits.simps [simp del]

definition show_dec :: "nat \<Rightarrow> string" where
  "show_dec n = map digit_char (dec_digits n)"

lemma digits_less_16: "(\<forall>d < 16. P d) \<longleftrightarrow> P 0 \<and> P 1 \<and> P 2 \<and> P 3 \<and> P 4 \<and> P 5 \<and> P 6 \<and> P 7 \<and> P 8 \<and> P 9 \<and>
    P 10 \<and> P 11 \<and> P 12 \<and> P 13 \<and> P 14 \<and> P (15 :: nat)"
  by (simp add: eval_nat_numeral All_less_Suc conj_ac)

lemma to_digit_char: "d < 16 \<Longrightarrow> int d < radix \<Longrightarrow> to_digit radix (digit_char d) = Some (int d)"
proof -
  have "\<forall>d < 16. int d < radix \<longrightarrow> to_digit radix (digit_char d) = Some (int d)"
    unfolding digits_less_16 by (simp add: to_digit_def digit_char_def)
  then show "d < 16 \<Longrightarrow> int d < radix \<Longrightarrow> to_digit radix (digit_char d) = Some (int d)" by blast
qed

abbreviation (input) digits_value :: "int \<Rightarrow> int \<Rightarrow> nat list \<Rightarrow> int" where
  "digits_value radix acc ds \<equiv> foldl (\<lambda>a d. a * radix + int d) acc ds"

lemma digits_value_ge: "0 \<le> acc \<Longrightarrow> 1 \<le> radix \<Longrightarrow> acc \<le> digits_value radix acc ds"
proof (induction ds arbitrary: acc)
  case (Cons d ds)
  have "acc \<le> acc * radix" using Cons.prems mult_left_mono [of 1 radix acc] by simp
  moreover have "acc * radix + int d \<le> digits_value radix (acc * radix + int d) ds"
    using Cons.prems by (intro Cons.IH) auto
  ultimately show ?case by simp
qed simp

lemma dec_digits_value: "digits_value 10 0 (dec_digits n) = int n"
proof (induction n rule: dec_digits.induct)
  case (1 n)
  have "int n = int (n div 10) * 10 + int (n mod 10)"
    by (metis div_mult_mod_eq of_nat_add of_nat_mult of_nat_numeral)
  then have "\<not> n < 10 \<Longrightarrow> digits_value 10 0 (dec_digits (n div 10)) * 10 + int (n mod 10) = int n" using 1 by simp
  then show ?case by (cases "n < 10") (simp_all add: dec_digits.simps [of n])
qed

lemma dec_digits_range: "d \<in> set (dec_digits n) \<Longrightarrow> d < 10"
proof (induction n rule: dec_digits.induct)
  case (1 n)
  then show ?case by (subst (asm) (2) dec_digits.simps) (auto split: if_splits)
qed

lemma dec_digits_nonempty [simp]: "dec_digits n \<noteq> []"
  by (subst dec_digits.simps) simp

text \<open>Integers\<close>

lemma uint_digits_show:
  assumes "\<And>d. d \<in> set ds \<Longrightarrow> d < 10" and "0 \<le> acc" and "digits_value 10 acc ds < limit"
  shows "uint_digits limit (map digit_char ds) acc = Inr (digits_value 10 acc ds)"
  using assms
proof (induction ds arbitrary: acc)
  case (Cons d ds)
  have d: "d < 10" using Cons.prems(1) by simp
  have "acc * 10 + int d \<le> digits_value 10 (acc * 10 + int d) ds"
    using Cons.prems(2) by (intro digits_value_ge) auto
  then have "acc * 10 + int d < limit" "acc * 10 < limit" using Cons.prems(3) by auto
  moreover have "to_digit 10 (digit_char d) = Some (int d)" using d by (intro to_digit_char) auto
  ultimately show ?case using Cons by simp
qed simp

lemma digit_char_not_sign: "d < 16 \<Longrightarrow> digit_char d \<noteq> CHR ''+'' \<and> digit_char d \<noteq> CHR ''-''"
proof -
  have "\<forall>d < 16. digit_char d \<noteq> CHR ''+'' \<and> digit_char d \<noteq> CHR ''-''"
    unfolding digits_less_16 by (simp add: digit_char_def)
  then show "d < 16 \<Longrightarrow> digit_char d \<noteq> CHR ''+'' \<and> digit_char d \<noteq> CHR ''-''" by blast
qed

lemma parse_uint_show: "int n < limit \<Longrightarrow> parse_uint limit (show_dec n) = Inr (int n)"
proof -
  assume "int n < limit"
  then have u: "uint_digits limit (show_dec n) 0 = Inr (int n)"
    unfolding show_dec_def by (subst uint_digits_show) (auto simp: dec_digits_value dest: dec_digits_range)
  obtain d ds where ds: "dec_digits n = d # ds" by (cases "dec_digits n") auto
  then have "d < 16" using dec_digits_range [of d n] by simp
  with digit_char_not_sign [of d] u show ?thesis
    by (cases ds) (simp_all add: parse_uint_def show_dec_def ds)
qed

lemma parse_word_show [simp]: "parse_word (show_dec (unat w)) = Inr w" for w :: "'a :: len word"
proof -
  have "int (unat w) < 2 ^ LENGTH('a)" using unsigned_less [of w] by (metis of_nat_less_iff of_nat_power of_nat_numeral)
  then show ?thesis by (simp add: parse_word_def parse_uint_show)
qed

lemma parse_int_text_show [simp]: "parse_int_text (show_dec (unat w)) = Inr w"
  by (simp add: parse_int_text_def)

text \<open>A number does not start with a dash, so it is not taken for a flag.\<close>

lemma show_dec_hd: "hd (show_dec n) \<noteq> CHR ''-'' \<and> show_dec n \<noteq> []"
proof -
  have "hd (dec_digits n) < 16" using dec_digits_range [OF hd_in_set [OF dec_digits_nonempty], of n] by simp
  with digit_char_not_sign show ?thesis by (simp add: show_dec_def hd_map)
qed

text \<open>Readers that stop at the end of the input or at a character that is no digit.\<close>

definition stops :: "int \<Rightarrow> string \<Rightarrow> bool" where
  "stops radix s \<longleftrightarrow> (case s of [] \<Rightarrow> True | c # _ \<Rightarrow> to_digit radix c = None)"

lemma read_digits_show:
  assumes "\<And>d. d \<in> set ds \<Longrightarrow> d < 16 \<and> int d < radix" and "k + length ds \<le> m" and "stops radix s"
  shows "read_digits radix m (map digit_char ds @ s) acc k = Some (digits_value radix acc ds, k + length ds, s)"
  using assms
proof (induction ds arbitrary: acc k)
  case Nil
  then show ?case by (cases s) (simp_all add: stops_def)
next
  case (Cons d ds)
  have "to_digit radix (digit_char d) = Some (int d)" using Cons.prems(1) [of d] by (intro to_digit_char) auto
  with Cons show ?case by simp
qed

lemma dec_digits_small:
  "n < 10 \<Longrightarrow> dec_digits n = [n]"
  "10 \<le> n \<Longrightarrow> n < 100 \<Longrightarrow> dec_digits n = [n div 10, n mod 10]"
  "100 \<le> n \<Longrightarrow> n < 1000 \<Longrightarrow> dec_digits n = [n div 100, n div 10 mod 10, n mod 10]"
proof -
  show one: "n < 10 \<Longrightarrow> dec_digits n = [n]" for n by (simp add: dec_digits.simps)
  show two: "10 \<le> n \<Longrightarrow> n < 100 \<Longrightarrow> dec_digits n = [n div 10, n mod 10]" for n
    using one [of "n div 10"] by (simp add: dec_digits.simps [of n] div_less_iff_less_mult)
  show "100 \<le> n \<Longrightarrow> n < 1000 \<Longrightarrow> dec_digits n = [n div 100, n div 10 mod 10, n mod 10]"
    using two [of "n div 10"]
    by (simp add: dec_digits.simps [of n] div_less_iff_less_mult less_eq_div_iff_mult_less_eq div_mult2_eq [symmetric])
qed

lemma octet_digits:
  assumes "n < 256"
  shows "length (dec_digits n) \<le> 3 \<and> (length (dec_digits n) > 1 \<longrightarrow> hd (dec_digits n) \<noteq> 0)"
proof -
  consider "n < 10" | "10 \<le> n" "n < 100" | "100 \<le> n" "n < 1000" using assms by linarith
  then show ?thesis by cases (simp_all add: dec_digits_small div_eq_0_iff)
qed

lemma digit_char_zero: "d < 16 \<Longrightarrow> digit_char d = CHR ''0'' \<longleftrightarrow> d = 0"
proof -
  have "\<forall>d < 16. digit_char d = CHR ''0'' \<longleftrightarrow> d = 0" unfolding digits_less_16 by (simp add: digit_char_def)
  then show "d < 16 \<Longrightarrow> digit_char d = CHR ''0'' \<longleftrightarrow> d = 0" by blast
qed

lemma read_number_octet:
  assumes "n < 256" and "stops 10 s"
  shows "read_number 10 3 False 256 (show_dec n @ s) = Some (int n, s)"
proof -
  obtain d ds where ds: "dec_digits n = d # ds" by (cases "dec_digits n") auto
  note od = octet_digits [OF assms(1)]
  have "read_digits 10 3 (show_dec n @ s) 0 0 = Some (int n, length (dec_digits n), s)"
    unfolding show_dec_def
    by (subst read_digits_show) (use assms od dec_digits_range [of _ n] in \<open>force simp: dec_digits_value\<close>)+
  moreover have "take 1 (show_dec n @ s) = ''0'' \<longleftrightarrow> d = 0"
    using digit_char_zero [of d] dec_digits_range [of d n] by (simp add: show_dec_def ds)
  ultimately show ?thesis using od assms(1) by (auto simp: read_number_def ds)
qed

text \<open>IPv4 addresses\<close>

fun show_ipv4 :: "ipv4_addr \<Rightarrow> string" where
  "show_ipv4 (Ipv4Addr a b c d) =
     show_dec (unat a) @ ''.'' @ show_dec (unat b) @ ''.'' @ show_dec (unat c) @ ''.'' @ show_dec (unat d)"

lemma read_octet_show:
  assumes "stops 10 s"
  shows "read_octet 0 (show_dec (unat a) @ s) = Some (a, s)"
    and "0 < i \<Longrightarrow> read_octet i (CHR ''.'' # show_dec (unat a) @ s) = Some (a, s)"
  using read_number_octet [OF unat_u8_less assms, of a]
  by (simp_all add: read_octet_def read_separator_def read_given_char_def)

lemma stops_dot: "stops 10 (CHR ''.'' # s)"
  by (simp add: stops_def to_digit_def)

lemma read_ipv4_show: "stops 10 s \<Longrightarrow> read_ipv4_addr (show_ipv4 a @ s) = Some (a, s)"
  by (cases a) (simp add: read_ipv4_addr_def read_octet_show stops_dot)

text \<open>IPv6 addresses, written as eight groups of four hexadecimal digits\<close>

definition ipv6_group :: "ipv6_addr \<Rightarrow> nat \<Rightarrow> u16" where
  "ipv6_group a i = ucast (drop_bit (16 * (7 - i)) a)"

definition hex_digits :: "u16 \<Rightarrow> nat list" where
  "hex_digits g = (let n = unat g in [n div 4096, n div 256 mod 16, n div 16 mod 16, n mod 16])"

definition show_group :: "u16 \<Rightarrow> string" where
  "show_group g = map digit_char (hex_digits g)"

fun show_groups :: "u16 list \<Rightarrow> string" where
  "show_groups [] = []"
| "show_groups (g # gs) = CHR '':'' # show_group g @ show_groups gs"

definition show_ipv6 :: "ipv6_addr \<Rightarrow> string" where
  "show_ipv6 a = tl (show_groups (map (ipv6_group a) [0..<8]))"

lemma hex_digits_value: "digits_value 16 0 (hex_digits g) = int (unat g)"
proof -
  have step: "int n = int (n div 16) * 16 + int (n mod 16)" for n
    by (metis div_mult_mod_eq of_nat_add of_nat_mult of_nat_numeral)
  have "unat g div 16 div 16 = unat g div 256" "unat g div 256 div 16 = unat g div 4096"
    by (simp_all add: div_mult2_eq [symmetric])
  then show ?thesis
    using step [of "unat g"] step [of "unat g div 16"] step [of "unat g div 256"]
    unfolding hex_digits_def Let_def by simp
qed

lemma hex_digits_range: "d \<in> set (hex_digits g) \<Longrightarrow> d < 16"
  using unat_u16_less [of g] by (auto simp: hex_digits_def Let_def)

lemma length_hex_digits: "length (hex_digits g) = 4"
  by (simp add: hex_digits_def Let_def)

lemma read_number_group:
  assumes "stops 16 s"
  shows "read_number 16 4 True 65536 (show_group g @ s) = Some (int (unat g), s)"
proof -
  have "read_digits 16 4 (show_group g @ s) 0 0 = Some (int (unat g), 4, s)"
    unfolding show_group_def
    using read_digits_show [of "hex_digits g" 16 0 4 s 0] hex_digits_range [of _ g] assms
    by (force simp: hex_digits_value length_hex_digits)
  moreover have "int (unat g) < 65536" using unat_u16_less [of g] by linarith
  ultimately show ?thesis by (simp add: read_number_def)
qed

text \<open>A text without a dot is no IPv4 address.\<close>

lemma read_digits_rest: "read_digits radix m s acc k = Some (n, j, r) \<Longrightarrow> set r \<subseteq> set s"
  by (induction radix m s acc k rule: read_digits.induct) (auto split: option.splits if_splits)

lemma read_octet_rest: "read_octet 0 s = Some (a, r) \<Longrightarrow> set r \<subseteq> set s"
  by (auto simp: read_octet_def read_separator_def read_number_def dest!: read_digits_rest
      split: option.splits prod.splits if_splits)

lemma read_octet_no_dot: "CHR ''.'' \<notin> set s \<Longrightarrow> 0 < i \<Longrightarrow> read_octet i s = None"
  by (cases s) (auto simp: read_octet_def read_separator_def read_given_char_def)

lemma read_ipv4_no_dot:
  assumes "CHR ''.'' \<notin> set s"
  shows "read_ipv4_addr s = None"
proof (cases "read_octet 0 s")
  case (Some x)
  then have "CHR ''.'' \<notin> set (snd x)" using read_octet_rest [of s "fst x" "snd x"] assms by auto
  then have "read_octet 1 (snd x) = None" by (rule read_octet_no_dot) simp
  then show ?thesis by (cases x) (simp add: read_ipv4_addr_def Some)
qed (simp add: read_ipv4_addr_def)

lemma digit_char_no_dot: "d < 16 \<Longrightarrow> digit_char d \<noteq> CHR ''.''"
proof -
  have "\<forall>d < 16. digit_char d \<noteq> CHR ''.''" unfolding digits_less_16 by (simp add: digit_char_def)
  then show "d < 16 \<Longrightarrow> digit_char d \<noteq> CHR ''.''" by blast
qed

lemma show_groups_no_dot: "CHR ''.'' \<notin> set (show_groups gs)"
proof (induction gs)
  case (Cons g gs)
  have "CHR ''.'' \<notin> set (show_group g)"
    using hex_digits_range [of _ g] digit_char_no_dot by (fastforce simp: show_group_def)
  with Cons show ?case by simp
qed simp

lemma stops_groups: "stops 16 s \<Longrightarrow> stops 16 (show_groups gs @ s)"
  by (cases gs) (simp_all add: stops_def to_digit_def)

lemma read_group_show:
  assumes "stops 16 s"
  shows "read_group 0 (show_group g @ s) = Some (g, s)"
    and "0 < i \<Longrightarrow> read_group i (CHR '':'' # show_group g @ s) = Some (g, s)"
  using read_number_group [OF assms, of g] by (simp_all add: read_group_def read_separator_def read_given_char_def)

lemma no_embedded_ipv4:
  "CHR ''.'' \<notin> set s \<Longrightarrow> read_separator (CHR '':'') i read_ipv4_addr s = None"
  using read_ipv4_no_dot [of s] read_ipv4_no_dot [of "tl s"]
  by (cases s) (auto simp: read_separator_def read_given_char_def)

lemma read_groups_show:
  assumes "stops 16 s" and "CHR ''.'' \<notin> set s" and "0 < i"
  shows "read_groups (length gs) i (show_groups gs @ s) = (gs, False, s)"
  using assms(3)
proof (induction gs arbitrary: i)
  case (Cons g gs)
  have "read_separator (CHR '':'') i read_ipv4_addr (show_groups (g # gs) @ s) = None"
    using show_groups_no_dot [of "g # gs"] assms(2) by (intro no_embedded_ipv4) auto
  with Cons read_group_show(2) [OF stops_groups [OF assms(1)], of i g gs] show ?case
    by (cases gs) simp_all
qed simp

lemma read_groups_first:
  assumes "stops 16 s" and "CHR ''.'' \<notin> set s"
  shows "read_groups (Suc (length gs)) 0 (show_group g @ show_groups gs @ s) = (g # gs, False, s)"
proof -
  have "read_separator (CHR '':'') 0 read_ipv4_addr (show_group g @ show_groups gs @ s) = None"
    using show_groups_no_dot [of "g # gs"] assms(2) by (intro no_embedded_ipv4) auto
  with read_group_show(1) [OF stops_groups [OF assms(1)], of g gs] read_groups_show [OF assms, of 1 gs]
  show ?thesis by (cases gs) simp_all
qed

lemma ipv6_group_step:
  "push_bit 16 (drop_bit (16 * Suc k) a) OR ucast (ucast (drop_bit (16 * k) a) :: u16) = drop_bit (16 * k) a"
  for a :: ipv6_addr
proof (rule bit_word_eqI)
  fix n assume "n < LENGTH(128)"
  then show "bit (push_bit 16 (drop_bit (16 * Suc k) a) OR ucast (ucast (drop_bit (16 * k) a) :: u16)) n =
      bit (drop_bit (16 * k) a) n"
    by (cases "n < 16") (auto simp: bit_simps)
qed

lemma ipv6_from_groups_groups: "ipv6_from_groups (map (ipv6_group a) [0..<8]) = a"
proof -
  have eight: "[0..<8] = [0, 1, 2, 3, 4, 5, 6, 7 :: nat]" by (simp add: upt_rec)
  have "(0 :: ipv6_addr) = drop_bit (16 * Suc 7) a" by (rule bit_word_eqI) (auto simp: bit_simps dest: bit_imp_le_length)
  then show ?thesis
    using ipv6_group_step [of 7 a] ipv6_group_step [of 6 a] ipv6_group_step [of 5 a] ipv6_group_step [of 4 a]
      ipv6_group_step [of 3 a] ipv6_group_step [of 2 a] ipv6_group_step [of 1 a] ipv6_group_step [of 0 a]
    by (simp add: ipv6_from_groups_def ipv6_group_def eight)
qed

lemma eight_groups: "map f [0..<8] = f 0 # map f [1..<8]"
  by (simp add: upt_rec)

lemma read_ipv6_show:
  assumes "stops 16 s" and "CHR ''.'' \<notin> set s"
  shows "read_ipv6_addr (show_ipv6 a @ s) = Some (a, s)"
proof -
  have "read_groups (Suc (length (map (ipv6_group a) [1..<8]))) 0 (show_ipv6 a @ s) =
      (map (ipv6_group a) [0..<8], False, s)"
    using read_groups_first [OF assms, of "map (ipv6_group a) [1..<8]" "ipv6_group a 0"]
    by (simp only: show_ipv6_def eight_groups show_groups.simps list.sel append_assoc)
  then have "read_groups 8 0 (show_ipv6 a @ s) = (map (ipv6_group a) [0..<8], False, s)"
    by (simp del: upt_Suc read_groups.simps)
  then show ?thesis by (simp add: read_ipv6_addr_def ipv6_from_groups_groups)
qed

lemma show_ipv6_no_dot: "CHR ''.'' \<notin> set (show_ipv6 a)"
  using show_groups_no_dot [of "map (ipv6_group a) [0..<8]"]
  by (simp add: show_ipv6_def eight_groups)

fun show_ip :: "ip_addr \<Rightarrow> string" where
  "show_ip (V4 a) = show_ipv4 a"
| "show_ip (V6 a) = show_ipv6 a"

lemma parse_show_ip [simp]: "parse_ip_addr (show_ip a) = Inr a"
proof (cases a)
  case (V4 x)
  then show ?thesis
    using read_ipv4_show [of "[]" x] by (simp add: parse_ip_addr_def parse_with_def read_ip_addr_def stops_def)
next
  case (V6 x)
  then show ?thesis
    using read_ipv6_show [of "[]" x] read_ipv4_no_dot [OF show_ipv6_no_dot, of x]
    by (simp add: parse_ip_addr_def parse_with_def read_ip_addr_def stops_def)
qed

text \<open>Socket addresses\<close>

lemma read_checked_show:
  assumes "\<And>d. d \<in> set ds \<Longrightarrow> d < 10" and "0 \<le> acc" and "digits_value 10 acc ds < limit" and "stops 10 s"
  shows "read_checked limit (map digit_char ds @ s) acc k = Some (digits_value 10 acc ds, k + length ds, s)"
  using assms
proof (induction ds arbitrary: acc k)
  case Nil
  then show ?case by (cases s) (simp_all add: stops_def)
next
  case (Cons d ds)
  have d: "d < 10" using Cons.prems(1) by simp
  have "acc * 10 + int d \<le> digits_value 10 (acc * 10 + int d) ds"
    using Cons.prems(2) by (intro digits_value_ge) auto
  then have "acc * 10 + int d < limit" "acc * 10 < limit" using Cons.prems(3) by auto
  moreover have "to_digit 10 (digit_char d) = Some (int d)" using d by (intro to_digit_char) auto
  ultimately show ?case using Cons by simp
qed

lemma read_decimal_show:
  "int n < limit \<Longrightarrow> stops 10 s \<Longrightarrow> read_decimal limit (show_dec n @ s) = Some (int n, s)"
  unfolding read_decimal_def show_dec_def
  by (subst read_checked_show) (auto simp: dec_digits_value dest: dec_digits_range)

fun show_socket_addr :: "socket_addr \<Rightarrow> string" where
  "show_socket_addr (SockV4 a) = show_ipv4 (sa4_ip a) @ CHR '':'' # show_dec (unat (sa4_port a))"
| "show_socket_addr (SockV6 a) = CHR ''['' # show_ipv6 (sa6_ip a) @ CHR ''%'' # show_dec (unat (sa6_scope_id a)) @
     CHR '']'' # CHR '':'' # show_dec (unat (sa6_port a))"

text \<open>The text of an address has no flow information, so an address with some is not read back.\<close>

fun no_flowinfo :: "socket_addr \<Rightarrow> bool" where
  "no_flowinfo (SockV4 _) = True"
| "no_flowinfo (SockV6 a) = (sa6_flowinfo a = 0)"

lemma read_port_show: "read_port (CHR '':'' # show_dec (unat p)) = Some (p, [])"
proof -
  have "int (unat p) < 65536" using unat_u16_less [of p] by linarith
  then show ?thesis
    using read_decimal_show [of "unat p" 65536 "[]"] by (simp add: read_port_def read_given_char_def stops_def)
qed

lemma read_scope_show: "stops 10 s \<Longrightarrow> read_scope_id (CHR ''%'' # show_dec (unat i) @ s) = Some (i, s)"
proof -
  have "int (unat i) < 4294967296" using unsigned_less [of i] by simp
  then show "stops 10 s \<Longrightarrow> ?thesis"
    using read_decimal_show [of "unat i" 4294967296 s] by (simp add: read_scope_id_def read_given_char_def)
qed

lemma parse_show_socket_addr [simp]:
  assumes "no_flowinfo a"
  shows "parse_socket_addr (show_socket_addr a) = Inr a"
proof (cases a)
  case (SockV4 x)
  have "stops 10 (CHR '':'' # s)" for s by (simp add: stops_def to_digit_def)
  then show ?thesis
    using SockV4 by (simp add: parse_socket_addr_def parse_with_def read_socket_addr_def read_socket_addr_v4_def
        read_ipv4_show read_port_show socket_addr_v4_new_def)
next
  case (SockV6 x)
  let ?t = "CHR ''%'' # show_dec (unat (sa6_scope_id x)) @ CHR '']'' # CHR '':'' # show_dec (unat (sa6_port x))"
  have "digit_char d \<noteq> CHR ''.''" if "d \<in> set (dec_digits n)" for d n
    using dec_digits_range [OF that] by (intro digit_char_no_dot) simp
  then have "CHR ''.'' \<notin> set (show_dec n)" for n by (fastforce simp: show_dec_def)
  then have "read_ipv6_addr (show_ipv6 (sa6_ip x) @ ?t) = Some (sa6_ip x, ?t)"
    by (intro read_ipv6_show) (auto simp: stops_def to_digit_def)
  moreover have "stops 10 (CHR '']'' # s)" for s by (simp add: stops_def to_digit_def)
  moreover have "read_ipv4_addr (CHR ''['' # s) = None" for s
    by (simp add: read_ipv4_addr_def read_octet_def read_separator_def read_number_def to_digit_def)
  ultimately show ?thesis
    using SockV6 assms
    by (simp add: parse_socket_addr_def parse_with_def read_socket_addr_def read_socket_addr_v4_def
        read_socket_addr_v6_def read_given_char_def read_scope_show read_port_show socket_addr_v6_new_def)
qed

section \<open>Display\<close>

text \<open>\<open>Display\<close> of addresses: the first longest run of at least two zero groups is written \<open>::\<close>.\<close>

fun hex_nat :: "nat \<Rightarrow> string" where
  "hex_nat n = (if n < 16 then [digit_char n] else hex_nat (n div 16) @ [digit_char (n mod 16)])"

declare hex_nat.simps [simp del]

fun longest_zeros :: "u16 list \<Rightarrow> nat \<Rightarrow> nat \<times> nat \<Rightarrow> nat \<times> nat \<Rightarrow> nat \<times> nat" where
  "longest_zeros [] i current longest = longest"
| "longest_zeros (g # gs) i current longest =
     (if g = 0 then
        let current = (if snd current = 0 then i else fst current, snd current + 1)
        in longest_zeros gs (i + 1) current (if snd current > snd longest then current else longest)
      else longest_zeros gs (i + 1) (0, 0) longest)"

fun fmt_subslice :: "u16 list \<Rightarrow> string" where
  "fmt_subslice [] = []"
| "fmt_subslice [g] = hex_nat (unat g)"
| "fmt_subslice (g # gs) = hex_nat (unat g) @ '':'' @ fmt_subslice gs"

definition display_ipv6 :: "ipv6_addr \<Rightarrow> string" where
  "display_ipv6 a =
     (let gs = map (ipv6_group a) [0..<8] in
      if take 6 gs = [0, 0, 0, 0, 0, 0xffff]
      then ''::ffff:'' @ show_ipv4 (Ipv4Addr (ipv6_octet a 12) (ipv6_octet a 13) (ipv6_octet a 14) (ipv6_octet a 15))
      else case longest_zeros gs 0 (0, 0) (0, 0) of (start, len) \<Rightarrow>
        if len > 1 then fmt_subslice (take start gs) @ ''::'' @ fmt_subslice (drop (start + len) gs)
        else fmt_subslice gs)"

fun display_ip :: "ip_addr \<Rightarrow> string" where
  "display_ip (V4 a) = show_ipv4 a"
| "display_ip (V6 a) = display_ipv6 a"

end
