(* ===== verification/Send_Args.thy ===== *)
theory Send_Args
  imports Std_Text Publication_Config
begin

text \<open>
  The arguments of the sender tools (\<open>src/bin/common/send_args.rs\<close>): parsing them and building
  the configuration of a publication. A command line is the list of its words, the program
  first; the loop over the flags is a recursion on the words that are left. Accepted arguments
  are shown to be consistent, their configuration to be the one the flags ask for, and
  every consistent set of arguments to have a command line.
\<close>

section \<open>The code\<close>

lemma and_then_cong [fundef_cong]:
  "r = r' \<Longrightarrow> (\<And>x. r' = Inr x \<Longrightarrow> f x = g x) \<Longrightarrow> and_then r f = and_then r' g"
  by (cases r') simp_all

record send_cli_args =
  sc_group :: ip_addr
  sc_dst_port :: u16
  sc_payload :: string
  sc_count :: u64
  sc_interval_ms :: u64
  sc_source :: "ip_addr option"
  sc_bind_addr :: "socket_addr option"
  sc_source_port :: "u16 option"
  sc_interface :: "ip_addr option"
  sc_interface_index :: "u32 option"
  sc_ttl :: "u32 option"
  sc_loopback :: bool
  sc_quiet :: bool

text \<open>The configuration before its validation.\<close>

definition configured :: "send_cli_args \<Rightarrow> publication_config" where
  "configured a =
     (let config = config_new (sc_group a) (sc_dst_port a);
          config = (case sc_bind_addr a of
              Some bind_addr \<Rightarrow> with_bind_addr config bind_addr
            | None \<Rightarrow>
                let config = (case sc_source a of Some source \<Rightarrow> with_source_addr config source | None \<Rightarrow> config)
                in (case sc_source_port a of Some port \<Rightarrow> with_source_port config port | None \<Rightarrow> config));
          config = (case sc_interface a of
              Some interface \<Rightarrow>
                (case interface of
                   V4 interface \<Rightarrow> with_outgoing_interface config (OutIpv4Addr interface)
                 | V6 interface \<Rightarrow> with_outgoing_interface config (OutIpv6Addr interface))
            | None \<Rightarrow> config);
          config = (case sc_interface_index a of
              Some index \<Rightarrow> with_ipv6_interface_index config index | None \<Rightarrow> config);
          config = (case sc_ttl a of Some ttl \<Rightarrow> with_ttl config ttl | None \<Rightarrow> config)
      in (if \<not> sc_loopback a then with_loopback config False else config))"

text \<open>The error is rendered to text by the source; here it is the error itself.\<close>

definition build_config :: "send_cli_args \<Rightarrow> mctx_error + publication_config" where
  "build_config a = and_then (config_validate (configured a)) (\<lambda>_. Ok (configured a))"

text \<open>\<open>args.get(index)\<close> is the first of the words that are left.\<close>

definition parse_value :: "(string \<Rightarrow> string + 'a) \<Rightarrow> string list \<Rightarrow> string \<Rightarrow> message + 'a" where
  "parse_value from_str args flag =
     (case args of
        [] \<Rightarrow> Err (''missing value for {flag}'', [FStr flag])
      | value # _ \<Rightarrow>
          map_err (\<lambda>err. (''invalid value for {flag}: {err}'', [FStr flag, FStr err])) (from_str value))"

text \<open>One round of the loop: the arguments with the flag taken in, and the words after it.\<close>

definition send_flag :: "string \<Rightarrow> string list \<Rightarrow> send_cli_args \<Rightarrow> message + send_cli_args \<times> string list" where
  "send_flag arg args parsed =
     (if arg = ''--source'' then
        and_then (parse_value parse_ip_addr args ''--source'') (\<lambda>v. Ok (parsed\<lparr>sc_source := Some v\<rparr>, tl args))
      else if arg = ''--bind'' then
        and_then (parse_value parse_socket_addr args ''--bind'') (\<lambda>v. Ok (parsed\<lparr>sc_bind_addr := Some v\<rparr>, tl args))
      else if arg = ''--source-port'' then
        and_then (parse_value parse_int_text args ''--source-port'') (\<lambda>v. Ok (parsed\<lparr>sc_source_port := Some v\<rparr>, tl args))
      else if arg = ''--interface'' then
        and_then (parse_value parse_ip_addr args ''--interface'') (\<lambda>v. Ok (parsed\<lparr>sc_interface := Some v\<rparr>, tl args))
      else if arg = ''--interface-index'' then
        and_then (parse_value parse_int_text args ''--interface-index'') (\<lambda>v. Ok (parsed\<lparr>sc_interface_index := Some v\<rparr>, tl args))
      else if arg = ''--ttl'' then
        and_then (parse_value parse_int_text args ''--ttl'') (\<lambda>v. Ok (parsed\<lparr>sc_ttl := Some v\<rparr>, tl args))
      else if arg = ''--no-loopback'' then Ok (parsed\<lparr>sc_loopback := False\<rparr>, args)
      else if arg = ''--quiet'' then Ok (parsed\<lparr>sc_quiet := True\<rparr>, args)
      else Err (''unknown argument: {unknown}'', [FStr arg]))"

lemma send_flag_shrinks: "send_flag arg args p = Inr (p', rest) \<Longrightarrow> length rest \<le> length args"
  by (auto simp: send_flag_def mctx_result split: if_splits)

function send_flags :: "string list \<Rightarrow> send_cli_args \<Rightarrow> message + send_cli_args" where
  "send_flags [] parsed = Ok parsed"
| "send_flags (arg # args) parsed =
     and_then (send_flag arg args parsed) (\<lambda>(parsed, rest). send_flags rest parsed)"
  by pat_completeness auto
termination send_flags
  by (relation "measure (\<lambda>(args, _). length args)") (auto dest: send_flag_shrinks)

definition starts_with_dash :: "string \<Rightarrow> bool" where
  "starts_with_dash s \<longleftrightarrow> take 1 s = ''-''"

text \<open>
  \<open>if let Some(value) = args.get(index) && !value.starts_with('-')\<close>: the number and the words after it,
  or the default and the words as they are.
\<close>

definition optional_number :: "string \<Rightarrow> u64 \<Rightarrow> string list \<Rightarrow> message + u64 \<times> string list" where
  "optional_number what dflt args =
     (case args of
        [] \<Rightarrow> Ok (dflt, [])
      | value # rest \<Rightarrow>
          if \<not> starts_with_dash value
          then map_err (\<lambda>err. (what, [FStr err])) (and_then (parse_int_text value) (\<lambda>n. Ok (n, rest)))
          else Ok (dflt, args))"

definition send_args_checks :: "send_cli_args \<Rightarrow> message + send_cli_args" where
  "send_args_checks parsed =
     (if sc_bind_addr parsed \<noteq> None \<and> (sc_source parsed \<noteq> None \<or> sc_source_port parsed \<noteq> None)
      then Err (''--bind cannot be combined with --source or --source-port'', [])
      else if sc_interface parsed \<noteq> None \<and> sc_interface_index parsed \<noteq> None
      then Err (''--interface and --interface-index are mutually exclusive'', [])
      else if (case sc_group parsed of V4 _ \<Rightarrow> True | V6 _ \<Rightarrow> False) \<and> sc_interface_index parsed \<noteq> None
      then Err (''--interface-index is only valid for IPv6 multicast'', [])
      else if (case sc_source parsed of Some source \<Rightarrow> \<not> same_family_ip (sc_group parsed) source | None \<Rightarrow> False)
      then Err (''--source must match the multicast group address family'', [])
      else if (case sc_bind_addr parsed of Some b \<Rightarrow> \<not> same_family_ip (sc_group parsed) (sock_ip b) | None \<Rightarrow> False)
      then Err (''--bind must match the multicast group address family'', [])
      else if (case sc_interface parsed of Some i \<Rightarrow> \<not> same_family_ip (sc_group parsed) i | None \<Rightarrow> False)
      then Err (''--interface must match the multicast group address family'', [])
      else Ok parsed)"

definition parse_send_cli_args :: "string list \<Rightarrow> message + send_cli_args" where
  "parse_send_cli_args args =
     (case args of
        program # grp # port # payload # rest \<Rightarrow>
          and_then (map_err (\<lambda>err. (''invalid multicast group: {err}'', [FStr err])) (parse_ip_addr grp)) (\<lambda>grp.
          and_then (map_err (\<lambda>err. (''invalid destination port: {err}'', [FStr err])) (parse_int_text port)) (\<lambda>port.
          and_then (optional_number ''invalid send count: {err}'' 1 rest) (\<lambda>(count, rest).
          and_then (optional_number ''invalid interval_ms: {err}'' 0 rest) (\<lambda>(interval_ms, rest).
          and_then (send_flags rest
            \<lparr>sc_group = grp, sc_dst_port = port, sc_payload = payload, sc_count = count,
             sc_interval_ms = interval_ms, sc_source = None, sc_bind_addr = None, sc_source_port = None,
             sc_interface = None, sc_interface_index = None, sc_ttl = None, sc_loopback = True, sc_quiet = False\<rparr>)
          send_args_checks))))
      | _ \<Rightarrow> Err (''missing required arguments'', []))"

text \<open>\<open>payload.as_bytes()\<close>\<close>

definition as_bytes :: "string \<Rightarrow> bytes" where
  "as_bytes s = map of_char s"

text \<open>The error of a call as the error of the tool.\<close>

fun failure_map :: "('e \<Rightarrow> 'f) \<Rightarrow> 'e failure \<Rightarrow> 'f failure" where
  "failure_map f (Raised e) = Raised (f e)"
| "failure_map f Panicked = Panicked"

lemma no_panic_failure_map: "no_panic (Inl f) \<Longrightarrow> no_panic (Inl (failure_map g f))"
  by (cases f) (simp_all add: no_panic_def)

section \<open>Consistent arguments\<close>

text \<open>
  What the checks after the flags ask for, and that an address read from text has no flow information.
\<close>

definition args_consistent :: "send_cli_args \<Rightarrow> bool" where
  "args_consistent a \<longleftrightarrow>
     (sc_bind_addr a = None \<or> sc_source a = None \<and> sc_source_port a = None) \<and>
     (sc_interface a = None \<or> sc_interface_index a = None) \<and>
     (sc_interface_index a = None \<or> (\<exists>g. sc_group a = V6 g)) \<and>
     pred_option (same_family_ip (sc_group a)) (sc_source a) \<and>
     pred_option (\<lambda>b. same_family_ip (sc_group a) (sock_ip b) \<and> no_flowinfo b) (sc_bind_addr a) \<and>
     pred_option (same_family_ip (sc_group a)) (sc_interface a)"

lemma send_args_checks_Ok:
  "pred_option no_flowinfo (sc_bind_addr p) \<Longrightarrow> send_args_checks p = Ok a \<longleftrightarrow> a = p \<and> args_consistent p"
  by (cases "sc_group p"; cases "sc_source p"; cases "sc_bind_addr p"; cases "sc_interface p")
    (auto simp: send_args_checks_def args_consistent_def)

lemma read_socket_addr_flowinfo: "parse_socket_addr s = Inr b \<Longrightarrow> no_flowinfo b"
  by (cases b) (auto simp: parse_socket_addr_def parse_with_def read_socket_addr_def read_socket_addr_v6_def
      socket_addr_v6_new_def Option.bind_eq_Some_conv split: option.splits prod.splits if_splits)

lemma send_flag_flowinfo:
  assumes "send_flag arg args p = Ok (p', rest)" and "pred_option no_flowinfo (sc_bind_addr p)"
  shows "pred_option no_flowinfo (sc_bind_addr p')"
proof -
  have "parse_value parse_socket_addr args f = Inr b \<Longrightarrow> no_flowinfo b" for f b
    by (auto simp: parse_value_def mctx_result split: list.splits dest: read_socket_addr_flowinfo)
  with assms show ?thesis by (auto simp: send_flag_def mctx_result split: if_splits)
qed

lemma send_flags_flowinfo:
  "send_flags args p = Ok a \<Longrightarrow> pred_option no_flowinfo (sc_bind_addr p) \<Longrightarrow> pred_option no_flowinfo (sc_bind_addr a)"
proof (induction args p rule: send_flags.induct)
  case (2 arg args p)
  from "2.prems"(1) obtain p' rest where "send_flag arg args p = Ok (p', rest)" "send_flags rest p' = Ok a"
    by (auto simp: mctx_result)
  with "2.IH" [of "(p', rest)"] "2.prems"(2) show ?case by (auto dest: send_flag_flowinfo)
qed simp

text \<open>A command line for given arguments.\<close>

definition opt_flag :: "string \<Rightarrow> ('a \<Rightarrow> string) \<Rightarrow> 'a option \<Rightarrow> string list" where
  "opt_flag flag shw v = (case v of None \<Rightarrow> [] | Some x \<Rightarrow> [flag, shw x])"

definition command_line :: "send_cli_args \<Rightarrow> string list" where
  "command_line a =
     [show_ip (sc_group a), show_dec (unat (sc_dst_port a)), sc_payload a,
      show_dec (unat (sc_count a)), show_dec (unat (sc_interval_ms a))] @
     opt_flag ''--source'' show_ip (sc_source a) @
     opt_flag ''--bind'' show_socket_addr (sc_bind_addr a) @
     opt_flag ''--source-port'' (show_dec \<circ> unat) (sc_source_port a) @
     opt_flag ''--interface'' show_ip (sc_interface a) @
     opt_flag ''--interface-index'' (show_dec \<circ> unat) (sc_interface_index a) @
     opt_flag ''--ttl'' (show_dec \<circ> unat) (sc_ttl a) @
     (if sc_loopback a then [] else [''--no-loopback'']) @
     (if sc_quiet a then [''--quiet''] else [])"

lemma or_else_None: "or_else v None = v"
  by (cases v) simp_all

lemma parse_value_shown: "from_str v = Inr x \<Longrightarrow> parse_value from_str (v # args) f = Inr x"
  by (simp add: parse_value_def)

lemma send_flags_opts:
  "send_flags (opt_flag ''--source'' show_ip v @ args) p =
     send_flags args (p\<lparr>sc_source := or_else v (sc_source p)\<rparr>)"
  "send_flags (opt_flag ''--interface'' show_ip v @ args) p =
     send_flags args (p\<lparr>sc_interface := or_else v (sc_interface p)\<rparr>)"
  "pred_option no_flowinfo b \<Longrightarrow> send_flags (opt_flag ''--bind'' show_socket_addr b @ args) p =
     send_flags args (p\<lparr>sc_bind_addr := or_else b (sc_bind_addr p)\<rparr>)"
  "send_flags (opt_flag ''--source-port'' (show_dec \<circ> unat) w @ args) p =
     send_flags args (p\<lparr>sc_source_port := or_else w (sc_source_port p)\<rparr>)"
  "send_flags (opt_flag ''--interface-index'' (show_dec \<circ> unat) i @ args) p =
     send_flags args (p\<lparr>sc_interface_index := or_else i (sc_interface_index p)\<rparr>)"
  "send_flags (opt_flag ''--ttl'' (show_dec \<circ> unat) i @ args) p =
     send_flags args (p\<lparr>sc_ttl := or_else i (sc_ttl p)\<rparr>)"
  subgoal by (cases v) (simp_all add: opt_flag_def send_flag_def parse_value_shown)
  subgoal by (cases v) (simp_all add: opt_flag_def send_flag_def parse_value_shown)
  subgoal by (cases b) (simp_all add: opt_flag_def send_flag_def parse_value_shown)
  subgoal by (cases w) (simp_all add: opt_flag_def send_flag_def parse_value_shown)
  subgoal by (cases i) (simp_all add: opt_flag_def send_flag_def parse_value_shown)
  subgoal by (cases i) (simp_all add: opt_flag_def send_flag_def parse_value_shown)
  done

lemma optional_number_shown: "optional_number what d (show_dec (unat w) # args) = Ok (w, args)"
proof -
  have "\<not> starts_with_dash (show_dec (unat w))"
    using show_dec_hd [of "unat w"] by (cases "show_dec (unat w)") (simp_all add: starts_with_dash_def)
  then show ?thesis by (simp add: optional_number_def)
qed

lemma command_line_parsed:
  assumes "args_consistent a"
  shows "parse_send_cli_args (program # command_line a) = Ok a"
proof -
  have fl: "pred_option no_flowinfo (sc_bind_addr a)"
    using assms by (cases "sc_bind_addr a") (auto simp: args_consistent_def)
  have "send_args_checks a = Ok a" using assms by (simp add: send_args_checks_Ok fl)
  then show ?thesis
    unfolding parse_send_cli_args_def command_line_def
    using fl by (cases a; cases "sc_loopback a"; cases "sc_quiet a") (simp_all add: optional_number_shown send_flags_opts
        send_flags_opts(6) [where args = "[]", unfolded append_Nil2] or_else_None send_flag_def)
qed

lemma parsed_args_consistent:
  assumes "parse_send_cli_args args = Ok a"
  shows "args_consistent a"
proof -
  from assms obtain rest p0 p where p: "send_flags rest p0 = Ok p" "sc_bind_addr p0 = None" "send_args_checks p = Ok a"
    by (fastforce simp: parse_send_cli_args_def mctx_result split: list.splits)
  then have "pred_option no_flowinfo (sc_bind_addr p)" by (simp add: send_flags_flowinfo [OF p(1)])
  with p(3) show ?thesis by (simp add: send_args_checks_Ok)
qed

text \<open>
  C27. The arguments the sender tools accept are exactly the consistent ones: whatever a command
  line is parsed to, \<open>--bind\<close> excludes \<open>--source\<close> and \<open>--source-port\<close>, an interface is selected at most
  one way and by index for IPv6 only, and every address has the family of the group; and
  every consistent set of arguments is what its own command line is parsed to.
\<close>

theorem parse_send_cli_args_exact:
  "((\<exists>args. parse_send_cli_args args = Ok a) \<longleftrightarrow> args_consistent a) \<and>
   (parse_send_cli_args (program # command_line a) = Ok a \<longleftrightarrow> args_consistent a)"
  using parsed_args_consistent [of _ a] command_line_parsed [of a] by blast

section \<open>The configuration of accepted arguments\<close>

text \<open>What the arguments ask for, field by field.\<close>

definition requested_config :: "send_cli_args \<Rightarrow> publication_config" where
  "requested_config a =
     \<lparr>pc_group = sc_group a, pc_dst_port = sc_dst_port a,
      pc_outgoing_interface =
        (case (sc_interface_index a, sc_interface a, sc_bind_addr a) of
           (Some i, _, _) \<Rightarrow> Some (OutIpv6Index i)
         | (None, Some (V4 i), _) \<Rightarrow> Some (OutIpv4Addr i)
         | (None, Some (V6 i), _) \<Rightarrow> Some (OutIpv6Addr i)
         | (None, None, Some (SockV6 b)) \<Rightarrow> if sa6_scope_id b \<noteq> 0 then Some (OutIpv6Index (sa6_scope_id b)) else None
         | _ \<Rightarrow> None),
      pc_source_port = or_else (map_option sock_port (sc_bind_addr a)) (sc_source_port a),
      pc_source_addr = or_else (map_option sock_ip (sc_bind_addr a)) (sc_source a),
      pc_ttl = (case sc_ttl a of Some t \<Rightarrow> t | None \<Rightarrow> 1),
      pc_loopback = sc_loopback a\<rparr>"

lemmas config_builders = config_new_def with_bind_addr_def with_source_addr_def with_source_port_def
  with_outgoing_interface_def with_ipv6_interface_index_def with_ttl_def with_loopback_def

lemma configured_requested:
  assumes "args_consistent a"
  shows "configured a = requested_config a"
proof -
  have "sc_bind_addr a = None \<or> sc_source a = None \<and> sc_source_port a = None"
    using assms by (simp add: args_consistent_def)
  then show ?thesis
    by (cases "sc_interface a"; cases "sc_interface_index a"; cases "sc_ttl a"; cases "sc_bind_addr a")
      (auto simp: configured_def requested_config_def config_builders Let_def
         split: option.splits ip_addr.splits socket_addr.splits)
qed

lemma requested_families:
  assumes "args_consistent a"
  shows "\<not> config_defect (requested_config a) SourceAddressFamilyMismatch"
    and "\<not> config_defect (requested_config a) OutgoingInterfaceFamilyMismatch"
  subgoal
    using assms by (cases "sc_bind_addr a"; cases "sc_source a") (auto simp: args_consistent_def requested_config_def)
  subgoal
    using assms
    by (cases "sc_group a"; cases "sc_interface a"; cases "sc_interface_index a"; cases "sc_bind_addr a")
      (auto simp: args_consistent_def requested_config_def config_family_def
         split: ip_addr.splits socket_addr.splits if_splits)
  done

text \<open>
  Arguments that were accepted give the configuration their flags ask for, with the defaults
  of the library for absent flags, and it is valid; or they are refused with an error that
  names a defect of that configuration, which is never one of the two family mismatches.
\<close>

theorem build_config_of_accepted_args:
  assumes "parse_send_cli_args args = Ok a"
  shows "case build_config a of
      Inr c \<Rightarrow> c = requested_config a \<and> (\<forall>e. \<not> config_defect c e)
    | Inl e \<Rightarrow> config_defect (requested_config a) e \<and>
        e \<noteq> SourceAddressFamilyMismatch \<and> e \<noteq> OutgoingInterfaceFamilyMismatch"
proof -
  note ok = parsed_args_consistent [OF assms]
  show ?thesis
    using config_validate_Err_defect [of "requested_config a"] config_validate_Ok_iff [of "requested_config a"]
      requested_families [OF ok]
    by (auto simp: build_config_def configured_requested [OF ok] mctx_result split: sum.splits)
qed

definition sample_send_args :: "string list" where
  "sample_send_args = [''mctx_send'', ''ff31::8000:1234'', ''5000'', ''hello'', ''3'', ''--source'', ''::1'',
     ''--interface-index'', ''7'', ''--no-loopback'']"

theorem build_config_of_accepted_args_witness:
  "\<exists>a c. parse_send_cli_args sample_send_args = Ok a \<and> build_config a = Ok c \<and>
     pc_source_addr c = Some (V6 1) \<and> pc_outgoing_interface c = Some (OutIpv6Index 7) \<and> \<not> pc_loopback c \<and> pc_ttl c = 1"
proof -
  obtain a where a: "parse_send_cli_args sample_send_args = Ok a" "is_ok (build_config a)"
      "sc_source a = Some (V6 1)" "sc_interface_index a = Some 7" "\<not> sc_loopback a" "sc_bind_addr a = None" "sc_ttl a = None"
  proof -
    let ?r = "parse_send_cli_args sample_send_args"
    have "case ?r of Inl _ \<Rightarrow> False | Inr a \<Rightarrow> is_ok (build_config a) \<and>
        sc_source a = Some (V6 1) \<and> sc_interface_index a = Some 7 \<and> \<not> sc_loopback a \<and> sc_bind_addr a = None \<and> sc_ttl a = None"
      by code_simp
    then show thesis using that by (auto split: sum.splits)
  qed
  with build_config_of_accepted_args [OF a(1)] show ?thesis
    by (auto simp: requested_config_def is_ok_def split: sum.splits)
qed

end
