(* ===== verification/Udp_Datagram.thy ===== *)
theory Udp_Datagram
  imports Raw_Datagram_Facts
begin

text \<open>
  The UDP datagrams the raw sender tool builds (\<open>src/bin/mctx_raw_send.rs\<close>): a zeroed buffer
  filled field by field, the UDP checksum over the pseudo header and the packet, and the IPv4 header
  checksum. Every write into the buffer is a checked one. The datagrams are shown to be what
  the two parsers of the library read back, with checksums that verify.
\<close>

section \<open>The code\<close>

text \<open>\<open>xs[a..b].copy_from_slice(src)\<close>, which panics unless the lengths agree.\<close>

definition copy_from_slice ::
  "'a list \<Rightarrow> nat \<Rightarrow> nat \<Rightarrow> 'a list \<Rightarrow> ('a list \<Rightarrow> 'e failure + 'b) \<Rightarrow> 'e failure + 'b" where
  "copy_from_slice xs a b src k =
     (if a \<le> b \<and> b \<le> length xs \<and> length src = b - a then k (take a xs @ src @ drop b xs) else Inl Panicked)"

text \<open>\<open>usize::checked_add\<close> and \<open>u16::try_from\<close>\<close>

definition usize_checked_add :: "nat \<Rightarrow> nat \<Rightarrow> nat option" where
  "usize_checked_add a b = (if int a + int b < 18446744073709551616 then Some (a + b) else None)"

definition u16_try_from :: "nat \<Rightarrow> u16 option" where
  "u16_try_from n = (if int n < 65536 then Some (of_nat n) else None)"

definition be16 :: "u16 \<Rightarrow> bytes" where
  "be16 w = [fst (u16_to_be w), snd (u16_to_be w)]"

definition be32 :: "u32 \<Rightarrow> bytes" where
  "be32 w = [ucast (drop_bit 24 w), ucast (drop_bit 16 w), ucast (drop_bit 8 w), ucast w]"

fun ipv4_octets :: "ipv4_addr \<Rightarrow> bytes" where
  "ipv4_octets (Ipv4Addr a b c d) = [a, b, c, d]"

definition ones_complement_checksum :: "bytes \<Rightarrow> u16" where
  "ones_complement_checksum bs =
     (let acc = chunk_sum bs 0;
          acc = (if odd (length bs) then acc + push_bit 8 (ucast (last bs)) else acc)
      in NOT (ucast (fold_carry acc)))"

definition udp_ipv4_header_checksum :: "bytes \<Rightarrow> u16" where
  "udp_ipv4_header_checksum header = ones_complement_checksum header"

definition normalize_udp_checksum :: "u16 \<Rightarrow> u16" where
  "normalize_udp_checksum checksum = (if checksum = 0 then 0xffff else checksum)"

definition pseudo_v4 :: "ipv4_addr \<Rightarrow> ipv4_addr \<Rightarrow> bytes \<Rightarrow> bytes" where
  "pseudo_v4 source destination udp_packet =
     ipv4_octets source @ ipv4_octets destination @ [0, 17] @ be16 (of_nat (length udp_packet)) @ udp_packet"

definition udp_checksum_v4 :: "ipv4_addr \<Rightarrow> ipv4_addr \<Rightarrow> bytes \<Rightarrow> u16" where
  "udp_checksum_v4 source destination udp_packet =
     normalize_udp_checksum (ones_complement_checksum (pseudo_v4 source destination udp_packet))"

definition pseudo_v6 :: "ipv6_addr \<Rightarrow> ipv6_addr \<Rightarrow> bytes \<Rightarrow> bytes" where
  "pseudo_v6 source destination udp_packet =
     ipv6_octets source @ ipv6_octets destination @ be32 (of_nat (length udp_packet)) @ [0, 0, 0, 17] @ udp_packet"

definition udp_checksum_v6 :: "ipv6_addr \<Rightarrow> ipv6_addr \<Rightarrow> bytes \<Rightarrow> u16" where
  "udp_checksum_v6 source destination udp_packet =
     normalize_udp_checksum (ones_complement_checksum (pseudo_v6 source destination udp_packet))"

definition raise_text :: "string \<Rightarrow> string failure + 'a" where
  "raise_text s = Err (Raised s)"

definition build_ipv4_udp_datagram ::
  "ipv4_addr \<Rightarrow> ipv4_addr \<Rightarrow> u16 \<Rightarrow> u16 \<Rightarrow> bytes \<Rightarrow> u8 \<Rightarrow> string failure + bytes" where
  "build_ipv4_udp_datagram source destination source_port destination_port payload ttl =
     (case Option.bind (usize_checked_add 20 8) (\<lambda>len. usize_checked_add len (length payload)) of
        None \<Rightarrow> raise_text ''IPv4 datagram length overflow''
      | Some total_len \<Rightarrow>
     (case u16_try_from total_len of
        None \<Rightarrow> raise_text ''IPv4 datagram is too large''
      | Some total_len_u16 \<Rightarrow>
     let datagram = replicate total_len (0 :: u8) in
     upd datagram 0 0x45 (\<lambda>datagram.
     copy_from_slice datagram 2 4 (be16 total_len_u16) (\<lambda>datagram.
     upd datagram 8 ttl (\<lambda>datagram.
     upd datagram 9 17 (\<lambda>datagram.
     copy_from_slice datagram 12 16 (ipv4_octets source) (\<lambda>datagram.
     copy_from_slice datagram 16 20 (ipv4_octets destination) (\<lambda>datagram.
     (case u16_try_from (8 + length payload) of
        None \<Rightarrow> raise_text ''UDP payload is too large for IPv4''
      | Some udp_len \<Rightarrow>
     copy_from_slice datagram 20 22 (be16 source_port) (\<lambda>datagram.
     copy_from_slice datagram 22 24 (be16 destination_port) (\<lambda>datagram.
     copy_from_slice datagram 24 26 (be16 udp_len) (\<lambda>datagram.
     copy_from_slice datagram 26 28 (be16 0) (\<lambda>datagram.
     copy_from_slice datagram 28 (length datagram) payload (\<lambda>datagram.
     slice datagram 20 (length datagram) (\<lambda>udp_packet.
     copy_from_slice datagram 26 28 (be16 (udp_checksum_v4 source destination udp_packet)) (\<lambda>datagram.
     slice datagram 0 20 (\<lambda>header.
     copy_from_slice datagram 10 12 (be16 (udp_ipv4_header_checksum header)) (\<lambda>datagram.
     Ok datagram))))))))))))))))))"

definition build_ipv6_udp_datagram ::
  "ipv6_addr \<Rightarrow> ipv6_addr \<Rightarrow> u16 \<Rightarrow> u16 \<Rightarrow> bytes \<Rightarrow> u8 \<Rightarrow> string failure + bytes" where
  "build_ipv6_udp_datagram source destination source_port destination_port payload hop_limit =
     (case usize_checked_add 8 (length payload) of
        None \<Rightarrow> raise_text ''IPv6 UDP payload length overflow''
      | Some payload_len \<Rightarrow>
     (case u16_try_from payload_len of
        None \<Rightarrow> raise_text ''IPv6 UDP payload is too large''
      | Some payload_len_u16 \<Rightarrow>
     (case usize_checked_add 40 payload_len of
        None \<Rightarrow> raise_text ''IPv6 datagram length overflow''
      | Some total_len \<Rightarrow>
     let datagram = replicate total_len (0 :: u8) in
     upd datagram 0 0x60 (\<lambda>datagram.
     copy_from_slice datagram 4 6 (be16 payload_len_u16) (\<lambda>datagram.
     upd datagram 6 17 (\<lambda>datagram.
     upd datagram 7 hop_limit (\<lambda>datagram.
     copy_from_slice datagram 8 24 (ipv6_octets source) (\<lambda>datagram.
     copy_from_slice datagram 24 40 (ipv6_octets destination) (\<lambda>datagram.
     copy_from_slice datagram 40 42 (be16 source_port) (\<lambda>datagram.
     copy_from_slice datagram 42 44 (be16 destination_port) (\<lambda>datagram.
     copy_from_slice datagram 44 46 (be16 payload_len_u16) (\<lambda>datagram.
     copy_from_slice datagram 46 48 (be16 0) (\<lambda>datagram.
     copy_from_slice datagram 48 (length datagram) payload (\<lambda>datagram.
     slice datagram 40 (length datagram) (\<lambda>udp_packet.
     copy_from_slice datagram 46 48 (be16 (udp_checksum_v6 source destination udp_packet)) (\<lambda>datagram.
     Ok datagram))))))))))))))))"

section \<open>Checksums of any length\<close>

text \<open>An odd sequence is summed as if a zero byte followed.\<close>

definition pad_even :: "bytes \<Rightarrow> bytes" where
  "pad_even bs = (if odd (length bs) then bs @ [0] else bs)"

lemma u16_from_be_zero: "(ucast (u16_from_be a 0) :: u32) = push_bit 8 (ucast a)"
  by (rule bit_word_eqI) (auto simp: u16_from_be_def bit_simps dest: bit_imp_le_length)

lemma chunk_sum_pad:
  "odd (length bs) \<Longrightarrow> chunk_sum (bs @ [0]) acc = chunk_sum bs acc + push_bit 8 (ucast (last bs))"
  by (induction bs acc rule: chunk_sum.induct) (auto simp: u16_from_be_zero)

lemma ones_complement_padded: "ones_complement_checksum bs = raw_ip_ipv4_header_checksum (pad_even bs)"
  by (simp add: ones_complement_checksum_def raw_ip_ipv4_header_checksum_def pad_even_def chunk_sum_pad)

lemma length_pad_even: "length (pad_even bs) \<le> length bs + 1"
  by (simp add: pad_even_def)

lemma be_sum_pad_bound:
  assumes "length bs < 131072"
  shows "be_sum (pad_even bs) < 2 ^ 32"
proof -
  have "length (pad_even bs) div 2 \<le> 65536" using length_pad_even [of bs] assms by linarith
  then show ?thesis using be_sum_bound [of "pad_even bs"] by simp
qed

lemma length_be16 [simp]: "length (be16 w) = 2"
  by (simp add: be16_def)

lemma be_sum_be16 [simp]: "be_sum (be16 w) = unat w"
  using unat_u16_from_be [of "fst (u16_to_be w)" "snd (u16_to_be w)"]
  by (simp add: be16_def u16_be_roundtrip [OF prod.collapse [symmetric]])

lemma be_sum_pad_field:
  assumes "even (length xs)"
  shows "be_sum (pad_even (xs @ be16 w @ ys)) = be_sum (pad_even (xs @ [0, 0] @ ys)) + unat w"
  using assms by (simp add: pad_even_def be_sum_append)

text \<open>
  A checksum written into a zeroed 16-bit field at an even position makes the whole
  verify, also when a checksum of zero is sent as \<open>0xffff\<close>.
\<close>

lemma ones_complement_fills:
  assumes "even (length xs)" and "length (xs @ [0, 0] @ ys) < 131072"
    and "w = ones_complement_checksum (xs @ [0, 0] @ ys) \<or>
         w = normalize_udp_checksum (ones_complement_checksum (xs @ [0, 0] @ ys))"
  shows "ones_complement_checksum (xs @ be16 w @ ys) = 0"
proof -
  define z where "z = pad_even (xs @ [0, 0] @ ys)"
  define f where "f = unat (fold_carry (chunk_sum z 0))"
  have s: "unat (chunk_sum z 0) = be_sum z"
    using chunk_sum_unat [of 0 z] be_sum_pad_bound [OF assms(2)] by (simp add: z_def)
  have f: "f mod 65535 = be_sum z mod 65535" "f = 0 \<longleftrightarrow> be_sum z = 0" "f \<le> 65535"
    subgoal using fold_carry_mod [of "chunk_sum z 0"] by (simp add: s f_def)
    subgoal using fold_carry_zero [of "chunk_sum z 0"] s by (metis f_def unsigned_eq_0_iff)
    subgoal using fold_carry_less [of "chunk_sum z 0"] by (simp add: f_def)
    done
  define c where "c = ones_complement_checksum (xs @ [0, 0] @ ys)"
  have c: "unat c = 65535 - f"
    using checksum_unat [of z] by (simp only: c_def ones_complement_padded z_def f_def)
  have w: "unat w mod 65535 = (65535 - f) mod 65535" "unat w = 0 \<Longrightarrow> f = 65535"
    using assms(3) [folded c_def] c f(3)
    by (auto simp: normalize_udp_checksum_def simp flip: unsigned_eq_0_iff split: if_splits)
  have "(be_sum z + unat w) mod 65535 = (f + (65535 - f)) mod 65535"
    by (rule mod_add_cong) (simp_all add: f(1) w(1))
  then have "(be_sum z + unat w) mod 65535 = 0" using f(3) by simp
  moreover have "be_sum z + unat w \<noteq> 0" using w(2) f(2) by auto
  moreover have "length (xs @ be16 w @ ys) < 131072" using assms(2) by simp
  ultimately show ?thesis
    using checksum_zero_iff [OF be_sum_pad_bound, of "xs @ be16 w @ ys"] be_sum_pad_field [OF assms(1), of w ys]
    by (simp only: ones_complement_padded z_def simp_thms)
qed

lemma normalized_nonzero [simp]: "normalize_udp_checksum w \<noteq> 0"
  by (simp add: normalize_udp_checksum_def)

section \<open>The layout of the datagrams\<close>

definition udp_packet :: "u16 \<Rightarrow> u16 \<Rightarrow> bytes \<Rightarrow> bytes \<Rightarrow> bytes" where
  "udp_packet source_port destination_port checksum payload =
     be16 source_port @ be16 destination_port @ be16 (of_nat (8 + length payload)) @ checksum @ payload"

definition udp_v4_header :: "ipv4_addr \<Rightarrow> ipv4_addr \<Rightarrow> u8 \<Rightarrow> nat \<Rightarrow> bytes \<Rightarrow> bytes" where
  "udp_v4_header source destination ttl n checksum =
     [0x45, 0] @ be16 (of_nat (28 + n)) @ [0, 0, 0, 0, ttl, 17] @ checksum @
     ipv4_octets source @ ipv4_octets destination"

definition udp_v6_header :: "ipv6_addr \<Rightarrow> ipv6_addr \<Rightarrow> u8 \<Rightarrow> nat \<Rightarrow> bytes" where
  "udp_v6_header source destination hop_limit n =
     [0x60, 0, 0, 0] @ be16 (of_nat (8 + n)) @ [17, hop_limit] @ ipv6_octets source @ ipv6_octets destination"

lemma length_ipv4_octets [simp]: "length (ipv4_octets a) = 4"
  by (cases a) simp

lemma u16_to_be_0 [simp]: "u16_to_be 0 = (0, 0)"
  by (simp add: u16_to_be_def)

lemma be16_0 [simp]: "be16 0 = [0, 0]"
  by (simp add: be16_def)

lemma be16_list: obtains x y where "be16 w = [x, y]"
  by (simp add: be16_def)

lemma copy_in [simp]:
  "a \<le> b \<Longrightarrow> b \<le> length xs \<Longrightarrow> length src = b - a \<Longrightarrow>
   copy_from_slice xs a b src k = k (take a xs @ src @ drop b xs)"
  by (simp add: copy_from_slice_def)

text \<open>The buffer is evaluated before the writes that follow.\<close>

lemma writes_in_order:
  "xs = ys \<Longrightarrow> src = src' \<Longrightarrow> copy_from_slice xs a b src k = copy_from_slice ys a b src' k"
  "xs = ys \<Longrightarrow> upd xs i v k' = upd ys i v k'"
  "xs = ys \<Longrightarrow> b = b' \<Longrightarrow> slice xs a b k = slice ys a b' k"
  by simp_all

text \<open>The zeroed buffer, cut after the headers.\<close>

lemma zero_buffer_v4:
  "replicate (28 + n) (0 :: u8) =
     [0, 0, 0, 0, 0, 0, 0, 0, 0, 0, 0, 0, 0, 0, 0, 0, 0, 0, 0, 0,
      0, 0, 0, 0, 0, 0, 0, 0] @ replicate n 0"
  by (simp add: eval_nat_numeral)

lemma build_v4_layout:
  assumes "28 + length payload < 65536"
  shows "build_ipv4_udp_datagram s d sp dp payload ttl =
    Ok (udp_v4_header s d ttl (length payload)
          (be16 (ones_complement_checksum (udp_v4_header s d ttl (length payload) [0, 0]))) @
        udp_packet sp dp (be16 (udp_checksum_v4 s d (udp_packet sp dp [0, 0] payload))) payload)"
proof -
  let ?n = "length payload"
  obtain a b c e where s: "ipv4_octets s = [a, b, c, e]" by (cases s) simp
  obtain a' b' c' e' where d: "ipv4_octets d = [a', b', c', e']" by (cases d) simp
  obtain l0 l1 where l: "be16 (of_nat (28 + ?n)) = [l0, l1]" by (rule be16_list)
  obtain p0 p1 where p: "be16 sp = [p0, p1]" by (rule be16_list)
  obtain q0 q1 where q: "be16 dp = [q0, q1]" by (rule be16_list)
  obtain n0 n1 where n: "be16 (of_nat (8 + ?n)) = [n0, n1]" by (rule be16_list)
  define uc where "uc = be16 (udp_checksum_v4 s d (udp_packet sp dp [0, 0] payload))"
  define hc where "hc = be16 (ones_complement_checksum (udp_v4_header s d ttl ?n [0, 0]))"
  obtain u0 u1 where u: "uc = [u0, u1]" unfolding uc_def by (rule be16_list)
  obtain h0 h1 where h: "hc = [h0, h1]" unfolding hc_def by (rule be16_list)
  have uc: "be16 (udp_checksum_v4 s d (p0 # p1 # q0 # q1 # n0 # n1 # 0 # 0 # payload)) = [u0, u1]"
    using u by (simp add: uc_def udp_packet_def p q n del: of_nat_add)
  have hc: "be16 (ones_complement_checksum
      [0x45, 0, l0, l1, 0, 0, 0, 0, ttl, 17, 0, 0, a, b, c, e, a', b', c', e']) = [h0, h1]"
    using h by (simp add: hc_def udp_v4_header_def s d l del: of_nat_add)
  have size: "Option.bind (usize_checked_add 20 8) (\<lambda>len. usize_checked_add len ?n) = Some (28 + ?n)"
      "u16_try_from (28 + ?n) = Some (of_nat (28 + ?n))" "u16_try_from (8 + ?n) = Some (of_nat (8 + ?n))"
    using assms by (simp_all add: usize_checked_add_def u16_try_from_def)
  show ?thesis
    unfolding uc_def [symmetric] hc_def [symmetric] u h build_ipv4_udp_datagram_def size option.case Let_def
    by (simp add: zero_buffer_v4 s d l p q n uc hc
        udp_v4_header_def udp_packet_def udp_ipv4_header_checksum_def del: of_nat_add cong: writes_in_order)
qed

lemma zero_buffer_v6:
  "replicate (48 + n) (0 :: u8) =
     [0, 0, 0, 0, 0, 0, 0, 0, 0, 0, 0, 0, 0, 0, 0, 0, 0, 0, 0, 0, 0, 0, 0, 0,
      0, 0, 0, 0, 0, 0, 0, 0, 0, 0, 0, 0, 0, 0, 0, 0, 0, 0, 0, 0, 0, 0, 0, 0] @ replicate n 0"
  by (simp add: eval_nat_numeral)

lemma ipv6_octets_list:
  obtains o0 o1 o2 o3 o4 o5 o6 o7 o8 o9 o10 o11 o12 o13 o14 o15
  where "ipv6_octets a = [o0, o1, o2, o3, o4, o5, o6, o7, o8, o9, o10, o11, o12, o13, o14, o15]"
  by (simp add: ipv6_octets_def upt_rec eval_nat_numeral)

lemma build_v6_layout:
  assumes "8 + length payload < 65536"
  shows "build_ipv6_udp_datagram s d sp dp payload hops =
    Ok (udp_v6_header s d hops (length payload) @
        udp_packet sp dp (be16 (udp_checksum_v6 s d (udp_packet sp dp [0, 0] payload))) payload)"
proof (rule ipv6_octets_list [of s], rule ipv6_octets_list [of d])
  fix a0 a1 a2 a3 a4 a5 a6 a7 a8 a9 a10 a11 a12 a13 a14 a15
    b0 b1 b2 b3 b4 b5 b6 b7 b8 b9 b10 b11 b12 b13 b14 b15
  assume s: "ipv6_octets s = [a0, a1, a2, a3, a4, a5, a6, a7, a8, a9, a10, a11, a12, a13, a14, a15]"
    and d: "ipv6_octets d = [b0, b1, b2, b3, b4, b5, b6, b7, b8, b9, b10, b11, b12, b13, b14, b15]"
  show ?thesis
    using assms
    by (simp add: build_ipv6_udp_datagram_def usize_checked_add_def u16_try_from_def zero_buffer_v6 s d
        be16_def udp_v6_header_def udp_packet_def Let_def cong: writes_in_order)
qed

text \<open>The builders as one equation each, which is also how they are evaluated.\<close>

lemma build_v4_eq [code]:
  "build_ipv4_udp_datagram s d sp dp payload ttl =
     (let n = length payload in
      if int n < 65508 then
        Ok (udp_v4_header s d ttl n (be16 (ones_complement_checksum (udp_v4_header s d ttl n [0, 0]))) @
            udp_packet sp dp (be16 (udp_checksum_v4 s d (udp_packet sp dp [0, 0] payload))) payload)
      else if int n < 18446744073709551588 then raise_text ''IPv4 datagram is too large''
      else raise_text ''IPv4 datagram length overflow'')"
  using build_v4_layout [of payload s d sp dp ttl]
  by (simp add: build_ipv4_udp_datagram_def usize_checked_add_def u16_try_from_def Let_def)

lemma build_v6_eq [code]:
  "build_ipv6_udp_datagram s d sp dp payload hops =
     (let n = length payload in
      if int n < 65528 then
        Ok (udp_v6_header s d hops n @
            udp_packet sp dp (be16 (udp_checksum_v6 s d (udp_packet sp dp [0, 0] payload))) payload)
      else if int n < 18446744073709551608 then raise_text ''IPv6 UDP payload is too large''
      else raise_text ''IPv6 UDP payload length overflow'')"
  using build_v6_layout [of payload s d sp dp hops]
  by (simp add: build_ipv6_udp_datagram_def usize_checked_add_def u16_try_from_def Let_def)

section \<open>What the parsers read back\<close>

lemma field16_be16: "be16 w = [a, b] \<Longrightarrow> 256 * unat a + unat b = unat w"
  using be_sum_be16 [of w] by simp

lemma v4_parses:
  assumes "length checksum = 2" and "28 + length payload < 65536" and "length packet = 8 + length payload"
    and "h = udp_v4_header s d ttl (length payload) checksum"
  shows "wellformed_v4 (h @ packet) \<and> ihl_bytes (h @ packet) = 20 \<and> traffic_class (h @ packet) = 0 \<and>
    fields_v4 (h @ packet) =
      \<lparr>pr_family = Ipv4, pr_source_ip = V4 s, pr_destination_ip = V4 d, pr_protocol = 17,
       pr_header_len = 20, pr_ttl_or_hop_limit = ttl\<rparr>"
proof -
  obtain a b c e where s: "s = Ipv4Addr a b c e" by (cases s)
  obtain a' b' c' e' where d: "d = Ipv4Addr a' b' c' e'" by (cases d)
  obtain c0 c1 where ck: "checksum = [c0, c1]"
    using assms(1) by (auto simp: length_Suc_conv numeral_2_eq_2)
  obtain l0 l1 where l: "be16 (of_nat (28 + length payload)) = [l0, l1]" by (simp add: be16_def)
  have "256 * unat l0 + unat l1 = 28 + length payload"
    using field16_be16 [OF l] assms(2) by (simp add: unsigned_of_nat take_bit_eq_mod del: of_nat_add)
  moreover have h: "h = [0x45, 0, l0, l1, 0, 0, 0, 0, ttl, 17, c0, c1, a, b, c, e, a', b', c', e']"
    using l by (simp add: assms(4) udp_v4_header_def ck s d)
  moreover have "drop_bit 4 (0x45 :: u8) = 4" "(0x45 :: u8) AND 0x0f = 5" by code_simp+
  ultimately show ?thesis
    using assms(3)
    by (simp add: h wellformed_v4_def ihl_bytes_def field16_def fields_v4_def addr4_def traffic_class_def s d)
qed

lemma v6_parses:
  assumes "8 + length payload < 65536" and "length packet = 8 + length payload"
    and "h = udp_v6_header s d hops (length payload)"
  shows "wellformed_v6 (h @ packet) \<and> traffic_class (h @ packet) = 0 \<and>
    fields_v6 (h @ packet) =
      \<lparr>pr_family = Ipv6, pr_source_ip = V6 s, pr_destination_ip = V6 d, pr_protocol = 17,
       pr_header_len = 40, pr_ttl_or_hop_limit = hops\<rparr>"
proof -
  obtain l0 l1 where l: "be16 (of_nat (8 + length payload)) = [l0, l1]" by (simp add: be16_def)
  have "256 * unat l0 + unat l1 = 8 + length payload"
    using field16_be16 [OF l] assms(1) by (simp add: unsigned_of_nat take_bit_eq_mod del: of_nat_add)
  moreover have h: "h @ packet = [0x60, 0, 0, 0, l0, l1, 17, hops] @ ipv6_octets s @ ipv6_octets d @ packet"
    using l by (simp add: assms(3) udp_v6_header_def)
  moreover have "drop_bit 4 (0x60 :: u8) = 6" "(0x60 :: u8) AND 0x0f = 0" by code_simp+
  ultimately show ?thesis
    using assms(2)
    by (simp add: wellformed_v6_def field16_def fields_v6_def addr6_def traffic_class_def)
qed

section \<open>What a receiver sees\<close>

text \<open>The UDP header and payload after an IP header of \<open>h\<close> bytes, with a checksum present.\<close>

definition carries_udp :: "bytes \<Rightarrow> nat \<Rightarrow> u16 \<Rightarrow> u16 \<Rightarrow> bytes \<Rightarrow> bool" where
  "carries_udp dg h sp dp payload \<longleftrightarrow> length dg = h + 8 + length payload \<and>
     field16 dg h = unat sp \<and> field16 dg (h + 2) = unat dp \<and> field16 dg (h + 4) = 8 + length payload \<and>
     field16 dg (h + 6) \<noteq> 0 \<and> drop (h + 8) dg = payload"

lemma carries_udp_packet:
  assumes "8 + length payload < 65536" and "length front = h" and "w \<noteq> 0"
  shows "carries_udp (front @ udp_packet sp dp (be16 w) payload) h sp dp payload"
proof -
  obtain p0 p1 where p: "be16 sp = [p0, p1]" by (rule be16_list)
  obtain q0 q1 where q: "be16 dp = [q0, q1]" by (rule be16_list)
  obtain n0 n1 where n: "be16 (of_nat (8 + length payload)) = [n0, n1]" by (rule be16_list)
  obtain w0 w1 where w: "be16 w = [w0, w1]" by (rule be16_list)
  have "256 * unat n0 + unat n1 = 8 + length payload"
    using field16_be16 [OF n] assms(1) by (simp add: unsigned_of_nat take_bit_eq_mod del: of_nat_add)
  moreover have "256 * unat w0 + unat w1 \<noteq> 0"
    using field16_be16 [OF w] assms(3) by (metis unsigned_eq_0_iff)
  moreover have "udp_packet sp dp (be16 w) payload = [p0, p1, q0, q1, n0, n1, w0, w1] @ payload"
    using n by (simp add: udp_packet_def p q w)
  ultimately show ?thesis
    using assms(2) field16_be16 [OF p] field16_be16 [OF q]
    by (simp add: carries_udp_def field16_def nth_append)
qed

lemma length_udp_packet: "length (udp_packet sp dp ck payload) = 6 + length ck + length payload"
  by (simp add: udp_packet_def)

text \<open>Filling in the UDP checksum, for any pseudo header of even length.\<close>

lemma udp_checksum_fills:
  assumes "even (length ph)" and "length ph + 8 + length payload < 131072"
    and "w = normalize_udp_checksum (ones_complement_checksum (ph @ udp_packet sp dp [0, 0] payload))"
  shows "ones_complement_checksum (ph @ udp_packet sp dp (be16 w) payload) = 0"
  using ones_complement_fills [of "ph @ be16 sp @ be16 dp @ be16 (of_nat (8 + length payload))" payload w] assms
  by (simp add: udp_packet_def)

lemma build_v4_received:
  assumes "build_ipv4_udp_datagram s d sp dp payload ttl = Ok dg"
  shows "length payload \<le> 65507 \<and> carries_udp dg 20 sp dp payload \<and>
    parse_raw_ip_datagram dg =
      Ok \<lparr>pr_family = Ipv4, pr_source_ip = V4 s, pr_destination_ip = V4 d, pr_protocol = 17,
          pr_header_len = 20, pr_ttl_or_hop_limit = ttl\<rparr> \<and> traffic_class dg = 0 \<and>
    raw_ip_ipv4_header_checksum (take 20 dg) = 0 \<and>
    ones_complement_checksum (pseudo_v4 s d (drop 20 dg)) = 0"
proof -
  let ?n = "length payload"
  have small: "28 + ?n < 65536"
    using assms by (auto simp: build_v4_eq raise_text_def Let_def split: if_splits)
  define h where "h = udp_v4_header s d ttl ?n
    (be16 (ones_complement_checksum (udp_v4_header s d ttl ?n [0, 0])))"
  define uc where "uc = udp_checksum_v4 s d (udp_packet sp dp [0, 0] payload)"
  let ?p = "udp_packet sp dp (be16 uc) payload"
  have dg: "dg = h @ ?p" using assms build_v4_layout [OF small] by (simp add: h_def uc_def)
  have len: "length h = 20" "length ?p = 8 + ?n" by (simp_all add: h_def udp_v4_header_def length_udp_packet)
  have "ones_complement_checksum h = 0"
    using ones_complement_fills [of "[0x45, 0] @ be16 (of_nat (28 + ?n)) @ [0, 0, 0, 0, ttl, 17]"
        "ipv4_octets s @ ipv4_octets d" "ones_complement_checksum (udp_v4_header s d ttl ?n [0, 0])"]
    by (simp add: h_def udp_v4_header_def)
  then have hsum: "raw_ip_ipv4_header_checksum h = 0"
    by (simp add: ones_complement_padded pad_even_def len)
  have "ones_complement_checksum (pseudo_v4 s d ?p) = 0"
    using udp_checksum_fills [of "ipv4_octets s @ ipv4_octets d @ [0, 17] @ be16 (of_nat (8 + ?n))" payload uc sp dp] small
    by (simp add: pseudo_v4_def length_udp_packet uc_def udp_checksum_v4_def)
  moreover have "carries_udp dg 20 sp dp payload"
    unfolding dg by (rule carries_udp_packet) (use small len in \<open>simp_all add: uc_def udp_checksum_v4_def\<close>)
  moreover note v4_parses [OF _ small len(2) h_def]
  ultimately show ?thesis using small len hsum by (simp add: dg raw_parse_eq)
qed

lemma build_v6_received:
  assumes "build_ipv6_udp_datagram s d sp dp payload hops = Ok dg"
  shows "length payload \<le> 65527 \<and> carries_udp dg 40 sp dp payload \<and>
    parse_raw_ip_datagram dg =
      Ok \<lparr>pr_family = Ipv6, pr_source_ip = V6 s, pr_destination_ip = V6 d, pr_protocol = 17,
          pr_header_len = 40, pr_ttl_or_hop_limit = hops\<rparr> \<and> traffic_class dg = 0 \<and>
    ones_complement_checksum (pseudo_v6 s d (drop 40 dg)) = 0"
proof -
  let ?n = "length payload"
  have small: "8 + ?n < 65536"
    using assms by (auto simp: build_v6_eq raise_text_def Let_def split: if_splits)
  define h where "h = udp_v6_header s d hops ?n"
  define uc where "uc = udp_checksum_v6 s d (udp_packet sp dp [0, 0] payload)"
  let ?p = "udp_packet sp dp (be16 uc) payload"
  have dg: "dg = h @ ?p" using assms build_v6_layout [OF small] by (simp add: h_def uc_def)
  have len: "length h = 40" "length ?p = 8 + ?n" by (simp_all add: h_def udp_v6_header_def length_udp_packet)
  have "ones_complement_checksum (pseudo_v6 s d ?p) = 0"
    using udp_checksum_fills [of "ipv6_octets s @ ipv6_octets d @ be32 (of_nat (8 + ?n)) @ [0, 0, 0, 17]" payload uc sp dp] small
    by (simp add: pseudo_v6_def length_udp_packet uc_def udp_checksum_v6_def be32_def)
  moreover have "carries_udp dg 40 sp dp payload"
    unfolding dg by (rule carries_udp_packet) (use small len in \<open>simp_all add: uc_def udp_checksum_v6_def\<close>)
  moreover note v6_parses [OF small len(2) h_def] wellformed_exclusive [of dg]
  ultimately show ?thesis using small len by (auto simp: dg raw_parse_eq)
qed

end
