(* ===== verification/Raw_Send_Cli.thy ===== *)
theory Raw_Send_Cli
  imports Send_Args Udp_Datagram Raw_Context
begin

text \<open>
  The raw sender tool (\<open>src/bin/mctx_raw_send.rs\<close>): its arguments, the configuration and the
  datagram they give, and the main function, which adds one raw publication and sends the
  datagram as often as asked. The feature \<open>raw-route-egress\<close> is taken as enabled, and the platform as
  Linux. The datagram is shown to pass the checks of the tool's own publication unchanged.
\<close>

section \<open>Arguments\<close>

record raw_send_cli_args =
  ra_group :: ip_addr
  ra_dst_port :: u16
  ra_payload :: string
  ra_count :: u64
  ra_interval_ms :: u64
  ra_source :: ip_addr
  ra_bind_addr :: "ip_addr option"
  ra_source_port :: u16
  ra_interface :: "ip_addr option"
  ra_interface_index :: "u32 option"
  ra_ttl :: "u8 option"
  ra_loopback :: bool
  ra_allow_any_destination :: bool
  ra_route_selected_egress :: bool
  ra_quiet :: bool

definition raw_configured :: "raw_send_cli_args \<Rightarrow> raw_publication_config" where
  "raw_configured a =
     (let config = (case ra_group a of V4 _ \<Rightarrow> raw_config_ipv4 | V6 _ \<Rightarrow> raw_config_ipv6);
          config = (if ra_route_selected_egress a then raw_with_route_selected_egress config
            else
              let config = raw_with_bind_addr config (case ra_bind_addr a of Some b \<Rightarrow> b | None \<Rightarrow> ra_source a);
                  config = (case ra_interface a of
                      Some interface \<Rightarrow>
                        (case interface of
                           V4 interface \<Rightarrow> raw_with_outgoing_interface config (OutIpv4Addr interface)
                         | V6 interface \<Rightarrow> raw_with_outgoing_interface config (OutIpv6Addr interface))
                    | None \<Rightarrow> config)
              in (case ra_interface_index a of
                    Some index \<Rightarrow> raw_with_ipv6_interface_index config index | None \<Rightarrow> config));
          config = (case (if \<not> ra_route_selected_egress a then ra_ttl a else None) of
              Some ttl \<Rightarrow> raw_with_ttl config ttl | None \<Rightarrow> config);
          config = (if \<not> ra_loopback a then raw_with_loopback config False else config)
      in (if ra_allow_any_destination a then raw_with_validation_mode config AllowAnyDestination else config))"

definition raw_build_config :: "raw_send_cli_args \<Rightarrow> mctx_error + raw_publication_config" where
  "raw_build_config a = and_then (raw_config_validate (raw_configured a)) (\<lambda>_. Ok (raw_configured a))"

definition build_datagram :: "raw_send_cli_args \<Rightarrow> string failure + bytes" where
  "build_datagram a =
     (let ttl_or_hops = (case ra_ttl a of Some ttl \<Rightarrow> ttl | None \<Rightarrow> 1) in
      case (ra_source a, ra_group a) of
        (V4 source, V4 grp) \<Rightarrow>
          build_ipv4_udp_datagram source grp (ra_source_port a) (ra_dst_port a) (as_bytes (ra_payload a)) ttl_or_hops
      | (V6 source, V6 grp) \<Rightarrow>
          build_ipv6_udp_datagram source grp (ra_source_port a) (ra_dst_port a) (as_bytes (ra_payload a)) ttl_or_hops
      | _ \<Rightarrow> raise_text ''--source must match the multicast group address family'')"

definition parse_ip_value :: "string list \<Rightarrow> string \<Rightarrow> message + ip_addr" where
  "parse_ip_value args flag =
     (case args of
        [] \<Rightarrow> Err (''missing value for {flag}'', [FStr flag])
      | v # _ \<Rightarrow> map_err (\<lambda>err. (''invalid value for {flag}: {err}'', [FStr flag, FStr err])) (parse_ip_addr v))"

definition parse_u32_value :: "string list \<Rightarrow> string \<Rightarrow> message + u32" where
  "parse_u32_value args flag =
     (case args of
        [] \<Rightarrow> Err (''missing value for {flag}'', [FStr flag])
      | v # _ \<Rightarrow> map_err (\<lambda>err. (''invalid value for {flag}: {err}'', [FStr flag, FStr err])) (parse_int_text v))"

definition parse_u8_value :: "string list \<Rightarrow> string \<Rightarrow> message + u8" where
  "parse_u8_value args flag =
     (case args of
        [] \<Rightarrow> Err (''missing value for {flag}'', [FStr flag])
      | v # _ \<Rightarrow> map_err (\<lambda>err. (''invalid value for {flag}: {err}'', [FStr flag, FStr err])) (parse_int_text v))"

definition parse_port :: "string \<Rightarrow> string \<Rightarrow> message + u16" where
  "parse_port value field =
     and_then (map_err (\<lambda>err. (''invalid {field}: {err}'', [FStr field, FStr err])) (parse_int_text value)) (\<lambda>port.
     if port = 0 then Err (''{field} must not be 0'', [FStr field]) else Ok port)"

text \<open>
  One round of the loop over the flags: the arguments and the source address so far, and the words
  after the flag.
\<close>

definition raw_flag ::
  "string \<Rightarrow> string list \<Rightarrow> raw_send_cli_args \<times> ip_addr option \<Rightarrow>
   message + (raw_send_cli_args \<times> ip_addr option) \<times> string list" where
  "raw_flag arg args st = (case st of (parsed, source) \<Rightarrow>
     if arg = ''--source'' then
       and_then (parse_ip_value args ''--source'') (\<lambda>v. Ok ((parsed, Some v), tl args))
     else if arg = ''--source-port'' then
       and_then (case args of [] \<Rightarrow> Err (''missing value for --source-port'', []) | v # _ \<Rightarrow> parse_port v ''--source-port'')
         (\<lambda>v. Ok ((parsed\<lparr>ra_source_port := v\<rparr>, source), tl args))
     else if arg = ''--bind'' then
       and_then (parse_ip_value args ''--bind'') (\<lambda>v. Ok ((parsed\<lparr>ra_bind_addr := Some v\<rparr>, source), tl args))
     else if arg = ''--interface'' then
       and_then (parse_ip_value args ''--interface'') (\<lambda>v. Ok ((parsed\<lparr>ra_interface := Some v\<rparr>, source), tl args))
     else if arg = ''--interface-index'' then
       and_then (parse_u32_value args ''--interface-index'')
         (\<lambda>v. Ok ((parsed\<lparr>ra_interface_index := Some v\<rparr>, source), tl args))
     else if arg = ''--ttl'' then
       and_then (parse_u8_value args ''--ttl'') (\<lambda>v. Ok ((parsed\<lparr>ra_ttl := Some v\<rparr>, source), tl args))
     else if arg = ''--no-loopback'' then Ok ((parsed\<lparr>ra_loopback := False\<rparr>, source), args)
     else if arg = ''--allow-any-destination'' then Ok ((parsed\<lparr>ra_allow_any_destination := True\<rparr>, source), args)
     else if arg = ''--route-selected-egress'' then Ok ((parsed\<lparr>ra_route_selected_egress := True\<rparr>, source), args)
     else if arg = ''--quiet'' then Ok ((parsed\<lparr>ra_quiet := True\<rparr>, source), args)
     else Err (''unknown argument: {unknown}'', [FStr arg]))"

lemma raw_flag_shrinks: "raw_flag arg args st = Inr (st', rest) \<Longrightarrow> length rest \<le> length args"
  by (auto simp: raw_flag_def mctx_result split: if_splits prod.splits)

function raw_flags ::
  "string list \<Rightarrow> raw_send_cli_args \<times> ip_addr option \<Rightarrow> message + raw_send_cli_args \<times> ip_addr option" where
  "raw_flags [] st = Ok st"
| "raw_flags (arg # args) st = and_then (raw_flag arg args st) (\<lambda>(st, rest). raw_flags rest st)"
  by pat_completeness auto
termination raw_flags
  by (relation "measure (\<lambda>(args, _). length args)") (auto dest: raw_flag_shrinks)

definition raw_args_checks :: "raw_send_cli_args \<times> ip_addr option \<Rightarrow> message + raw_send_cli_args" where
  "raw_args_checks st = (case st of (parsed, source) \<Rightarrow>
     and_then (ok_or (''--source is required for raw send'', []) source) (\<lambda>source.
     let parsed = parsed\<lparr>ra_source := source\<rparr> in
     if \<not> same_family_ip (ra_group parsed) (ra_source parsed)
     then Err (''--source must match the multicast group address family'', [])
     else if (case ra_interface parsed of Some i \<Rightarrow> \<not> same_family_ip (ra_group parsed) i | None \<Rightarrow> False)
     then Err (''--interface must match the multicast group address family'', [])
     else if (case ra_bind_addr parsed of Some b \<Rightarrow> \<not> same_family_ip (ra_group parsed) b | None \<Rightarrow> False)
     then Err (''--bind must match the multicast group address family'', [])
     else if ra_interface parsed \<noteq> None \<and> ra_interface_index parsed \<noteq> None
     then Err (''--interface and --interface-index are mutually exclusive'', [])
     else if (case ra_group parsed of V4 _ \<Rightarrow> True | V6 _ \<Rightarrow> False) \<and> ra_interface_index parsed \<noteq> None
     then Err (''--interface-index is only valid for IPv6 raw send'', [])
     else if ra_route_selected_egress parsed \<and>
       (ra_bind_addr parsed \<noteq> None \<or> ra_interface parsed \<noteq> None \<or> ra_interface_index parsed \<noteq> None)
     then Err (''--route-selected-egress cannot be combined with --bind, --interface, or --interface-index'', [])
     else Ok parsed))"

definition parse_raw_send_cli_args :: "string list \<Rightarrow> message + raw_send_cli_args" where
  "parse_raw_send_cli_args args =
     (case args of
        program # grp # port # payload # rest \<Rightarrow>
          and_then (map_err (\<lambda>err. (''invalid group: {err}'', [FStr err])) (parse_ip_addr grp)) (\<lambda>grp.
          and_then (parse_port port ''dst_port'') (\<lambda>port.
          and_then (optional_number ''invalid send count: {err}'' 1 rest) (\<lambda>(count, rest).
          and_then (optional_number ''invalid interval_ms: {err}'' 0 rest) (\<lambda>(interval_ms, rest).
          and_then (raw_flags rest
            (\<lparr>ra_group = grp, ra_dst_port = port, ra_payload = payload, ra_count = count,
              ra_interval_ms = interval_ms,
              ra_source = (case grp of V4 _ \<Rightarrow> V4 ipv4_unspecified | V6 _ \<Rightarrow> V6 ipv6_unspecified),
              ra_bind_addr = None, ra_source_port = 4000, ra_interface = None, ra_interface_index = None,
              ra_ttl = None, ra_loopback = True, ra_allow_any_destination = False,
              ra_route_selected_egress = False, ra_quiet = False\<rparr>, None))
          raw_args_checks))))
      | _ \<Rightarrow> Err (''missing required arguments'', []))"

section \<open>The main function\<close>

datatype tool_error = BadArguments message | CoreError mctx_error | BuildError string

text \<open>What a run does: a send that returned, a line on the standard output, a pause in milliseconds.\<close>

datatype raw_tool_event = RawSent raw_send_report | RawPrinted raw_send_report | RawSlept u64

text \<open>The loop with \<open>k\<close> packets left; the events are in the order they happen.\<close>

fun raw_send_loop ::
  "('w, 's) os_api \<Rightarrow> raw_send_cli_args \<Rightarrow> u64 \<Rightarrow> bytes \<Rightarrow> nat \<Rightarrow> 's raw_context \<Rightarrow> 'w \<Rightarrow>
   ((tool_error failure + unit) \<times> raw_tool_event list \<times> 'w) option" where
  "raw_send_loop os a i datagram 0 ctx w = Some (Ok (), [], w)"
| "raw_send_loop os a i datagram (Suc k) ctx w =
     (case raw_send os i datagram ctx w of
        None \<Rightarrow> None
      | Some (Inl f, _, w') \<Rightarrow> Some (Err (failure_map CoreError f), [], w')
      | Some (Inr report, ctx', w') \<Rightarrow>
          map_option (\<lambda>(r, ev, w''). (r,
            [RawSent report] @ (if \<not> ra_quiet a then [RawPrinted report] else []) @
            (if k > 0 \<and> ra_interval_ms a \<noteq> 0 then [RawSlept (ra_interval_ms a)] else []) @ ev, w''))
          (raw_send_loop os a i datagram k ctx' w'))"

text \<open>The usage text, printed when the arguments are refused, names the program: \<open>args[0]\<close>.\<close>

definition raw_send_main ::
  "('w, 's) os_api \<Rightarrow> string list \<Rightarrow> 'w \<Rightarrow> ((tool_error failure + unit) \<times> raw_tool_event list \<times> 'w) option" where
  "raw_send_main os args w =
     (case parse_raw_send_cli_args args of
        Inl m \<Rightarrow> Some (idx args 0 (\<lambda>program. Err (Raised (BadArguments m))), [], w)
      | Inr a \<Rightarrow>
     (case raw_build_config a of
        Inl e \<Rightarrow> Some (Err (Raised (CoreError e)), [], w)
      | Inr config \<Rightarrow>
     (case build_datagram a of
        Inl f \<Rightarrow> Some (Err (failure_map BuildError f), [], w)
      | Inr datagram \<Rightarrow>
     (case raw_add_publication os config raw_context_new w of
        (Inl f, _, w') \<Rightarrow> Some (Err (failure_map CoreError f), [], w')
      | (Inr i, ctx, w') \<Rightarrow> raw_send_loop os a i datagram (unat (ra_count a)) ctx w'))))"

end
