(* ===== verification/Raw_Send_Cli_Facts.thy ===== *)
theory Raw_Send_Cli_Facts
  imports Raw_Send_Cli
begin

text \<open>
  Properties of the raw sender tool: what its accepted arguments guarantee, that the datagram it
  builds is what a receiver and the publication of the tool expect, and what a run of the
  main function does.
\<close>

section \<open>Accepted arguments\<close>

definition raw_args_ok :: "raw_send_cli_args \<Rightarrow> bool" where
  "raw_args_ok a \<longleftrightarrow>
     ra_dst_port a \<noteq> 0 \<and> ra_source_port a \<noteq> 0 \<and>
     same_family_ip (ra_group a) (ra_source a) \<and>
     pred_option (same_family_ip (ra_group a)) (ra_interface a) \<and>
     pred_option (same_family_ip (ra_group a)) (ra_bind_addr a) \<and>
     (ra_interface a = None \<or> ra_interface_index a = None) \<and>
     (ra_interface_index a = None \<or> (\<exists>g. ra_group a = V6 g)) \<and>
     (\<not> ra_route_selected_egress a \<or>
      ra_bind_addr a = None \<and> ra_interface a = None \<and> ra_interface_index a = None)"

lemma parse_port_nonzero: "parse_port v f = Ok p \<Longrightarrow> p \<noteq> 0"
  by (auto simp: parse_port_def mctx_result split: if_splits)

lemma raw_flag_keeps:
  assumes "raw_flag arg args (p, s) = Ok ((p', s'), rest)" and "ra_source_port p \<noteq> 0" "ra_dst_port p \<noteq> 0"
  shows "ra_source_port p' \<noteq> 0 \<and> ra_dst_port p' \<noteq> 0 \<and> ra_payload p' = ra_payload p"
  using assms by (auto simp: raw_flag_def mctx_result dest: parse_port_nonzero split: if_splits list.splits)

lemma raw_flags_keeps:
  "raw_flags args st = Ok st' \<Longrightarrow> ra_source_port (fst st) \<noteq> 0 \<Longrightarrow> ra_dst_port (fst st) \<noteq> 0 \<Longrightarrow>
   ra_source_port (fst st') \<noteq> 0 \<and> ra_dst_port (fst st') \<noteq> 0 \<and> ra_payload (fst st') = ra_payload (fst st)"
proof (induction args st rule: raw_flags.induct)
  case (2 arg args st)
  from "2.prems"(1) obtain st1 rest where "raw_flag arg args st = Ok (st1, rest)" "raw_flags rest st1 = Ok st'"
    by (auto simp: mctx_result)
  with "2.IH" [of "(st1, rest)"] "2.prems"(2,3) show ?case
    using raw_flag_keeps [of arg args "fst st" "snd st" "fst st1" "snd st1" rest] by simp
qed simp

lemma raw_args_checks_Ok:
  assumes "raw_args_checks (p, s) = Ok a" and "ra_source_port p \<noteq> 0" "ra_dst_port p \<noteq> 0"
  shows "raw_args_ok a \<and> ra_payload a = ra_payload p"
  using assms
  by (cases "ra_group p"; cases "ra_interface p"; cases "ra_bind_addr p")
    (auto simp: raw_args_checks_def raw_args_ok_def mctx_result Let_def split: if_splits)

lemma parsed_raw_args:
  assumes "parse_raw_send_cli_args args = Ok a"
  shows "raw_args_ok a \<and> ra_payload a \<in> set (tl args)"
proof -
  from assms obtain rest p0 st where st: "raw_flags rest p0 = Ok st" "raw_args_checks st = Ok a"
      "ra_source_port (fst p0) = 4000" "ra_dst_port (fst p0) \<noteq> 0" "ra_payload (fst p0) \<in> set (tl args)"
    by (fastforce simp: parse_raw_send_cli_args_def mctx_result dest: parse_port_nonzero split: list.splits)
  with raw_flags_keeps [OF st(1)] raw_args_checks_Ok [of "fst st" "snd st" a] show ?thesis by simp
qed

section \<open>The datagram and the configuration\<close>

definition tool_ttl :: "raw_send_cli_args \<Rightarrow> u8" where
  "tool_ttl a = (case ra_ttl a of Some ttl \<Rightarrow> ttl | None \<Rightarrow> 1)"

text \<open>The fields of the datagram that the arguments ask for.\<close>

definition tool_fields :: "raw_send_cli_args \<Rightarrow> parsed_raw" where
  "tool_fields a =
     \<lparr>pr_family = ip_family (ra_group a), pr_source_ip = ra_source a, pr_destination_ip = ra_group a,
      pr_protocol = 17, pr_header_len = (case ra_group a of V4 _ \<Rightarrow> 20 | V6 _ \<Rightarrow> 40),
      pr_ttl_or_hop_limit = tool_ttl a\<rparr>"

text \<open>The bytes a receiver sums to verify the UDP checksum.\<close>

fun udp_pseudo :: "ip_addr \<Rightarrow> ip_addr \<Rightarrow> bytes \<Rightarrow> bytes" where
  "udp_pseudo (V4 s) (V4 d) packet = pseudo_v4 s d packet"
| "udp_pseudo (V6 s) (V6 d) packet = pseudo_v6 s d packet"
| "udp_pseudo _ _ packet = packet"

lemma build_datagram_received:
  assumes "build_datagram a = Ok dg"
  shows "parse_raw_ip_datagram dg = Ok (tool_fields a) \<and> traffic_class dg = 0 \<and>
    carries_udp dg (pr_header_len (tool_fields a)) (ra_source_port a) (ra_dst_port a) (as_bytes (ra_payload a)) \<and>
    ones_complement_checksum (udp_pseudo (ra_source a) (ra_group a) (drop (pr_header_len (tool_fields a)) dg)) = 0 \<and>
    strict_ok dg (tool_fields a) = specified (tool_fields a)"
  using assms
  by (cases "ra_source a"; cases "ra_group a")
    (auto simp: build_datagram_def tool_fields_def tool_ttl_def raise_text_def strict_ok_def Let_def
       dest!: build_v4_received build_v6_received)

lemma build_datagram_outcome:
  assumes "same_family_ip (ra_group a) (ra_source a)" and "length (ra_payload a) < 2 ^ 63"
  shows "case build_datagram a of
      Inr dg \<Rightarrow> length (ra_payload a) \<le> (case ra_group a of V4 _ \<Rightarrow> 65507 | V6 _ \<Rightarrow> 65527)
    | Inl f \<Rightarrow> (case ra_group a of
        V4 _ \<Rightarrow> 65507 < length (ra_payload a) \<and> f = Raised ''IPv4 datagram is too large''
      | V6 _ \<Rightarrow> 65527 < length (ra_payload a) \<and> f = Raised ''IPv6 UDP payload is too large'')"
  using assms
  by (cases "ra_group a"; cases "ra_source a")
    (auto simp: build_datagram_def build_v4_eq build_v6_eq raise_text_def as_bytes_def Let_def)

lemmas raw_config_builders = raw_config_ipv4_def raw_config_ipv6_def raw_with_family_def raw_config_new_def
  raw_with_route_selected_egress_def raw_with_bind_addr_def raw_with_outgoing_interface_def
  raw_with_ipv6_interface_index_def raw_with_ttl_def raw_with_loopback_def raw_with_validation_mode_def

lemma raw_configured_fields:
  "rc_family (raw_configured a) = Some (ip_family (ra_group a))"
  "rc_bind_addr (raw_configured a) =
     (if ra_route_selected_egress a then None else Some (case ra_bind_addr a of Some b \<Rightarrow> b | None \<Rightarrow> ra_source a))"
  "rc_ttl (raw_configured a) = (if ra_route_selected_egress a then None else ra_ttl a)"
  "rc_loopback (raw_configured a) = (if ra_loopback a then None else Some False)"
  "rc_validation_mode (raw_configured a) =
     (if ra_allow_any_destination a then AllowAnyDestination else StrictMulticastDestination)"
  "rc_egress_mode (raw_configured a) = (if ra_route_selected_egress a then RouteSelected else Explicit)"
  by (auto simp: raw_configured_def raw_config_builders Let_def split: option.splits ip_addr.splits)

lemma raw_configured_interface:
  "raw_args_ok a \<Longrightarrow> outgoing_interface_family (rc_outgoing_interface (raw_configured a)) \<in> {None, Some (ip_family (ra_group a))}"
  by (cases "ra_group a")
    (auto simp: raw_args_ok_def raw_configured_def raw_config_builders Let_def split: option.splits ip_addr.splits)

text \<open>The checks of the publication on the datagram of the tool: only the destination can fail.\<close>

lemma tool_datagram_checked:
  assumes "raw_args_ok a"
  shows "validate_datagram_against_config (tool_fields a) (raw_configured a) =
    (if ip_is_multicast (ra_group a) \<or> ra_allow_any_destination a then Ok () else Err InvalidRawMulticastDestination)"
proof -
  have fam: "same_family_ip x y \<longleftrightarrow> ip_family x = ip_family y" for x y by (cases x; cases y) simp_all
  have "outgoing_interface_family (Some i) = Some (ip_family (ra_group a))"
    if "rc_outgoing_interface (raw_configured a) = Some i" for i
    using raw_configured_interface [OF assms] that by (cases i) auto
  then show ?thesis
    using assms
    by (auto simp: validate_datagram_against_config_def raw_configured_fields tool_fields_def match_iffs
        raw_args_ok_def fam split: option.splits)
qed

lemma tool_ttl_kept: "effective_ttl (raw_configured a) (tool_fields a) = tool_ttl a"
  by (simp add: effective_ttl_def raw_configured_fields tool_fields_def tool_ttl_def split: option.split)

text \<open>
  C16. The datagram the raw sender tool builds from accepted arguments is the one they describe: both
  parsers of the library read back the source, the group, UDP and the TTL, a receiver
  finds the ports, the length and the payload, and both checksums verify. The publication the tool configures
  would send it unchanged, and refuses it only if the group is not a multicast address.
  A payload that does not fit into a datagram is refused with the error for its size.
\<close>

theorem raw_tool_datagram_roundtrip:
  assumes "parse_raw_send_cli_args args = Ok a" and "length (ra_payload a) < 2 ^ 63"
  shows "case build_datagram a of
      Inr dg \<Rightarrow>
        parse_raw_ip_datagram dg = Ok (tool_fields a) \<and>
        (specified (tool_fields a) \<longrightarrow> parse_complete_ip_datagram dg = Ok (with_class (tool_fields a) 0)) \<and>
        carries_udp dg (pr_header_len (tool_fields a)) (ra_source_port a) (ra_dst_port a) (as_bytes (ra_payload a)) \<and>
        ones_complement_checksum (udp_pseudo (ra_source a) (ra_group a) (drop (pr_header_len (tool_fields a)) dg)) = 0 \<and>
        datagram_with_ttl (raw_configured a) (tool_fields a) dg = Ok dg \<and>
        validate_datagram_against_config (tool_fields a) (raw_configured a) =
          (if ip_is_multicast (ra_group a) \<or> ra_allow_any_destination a then Ok () else Err InvalidRawMulticastDestination)
    | Inl f \<Rightarrow> (case ra_group a of
        V4 _ \<Rightarrow> 65507 < length (ra_payload a) \<and> f = Raised ''IPv4 datagram is too large''
      | V6 _ \<Rightarrow> 65527 < length (ra_payload a) \<and> f = Raised ''IPv6 UDP payload is too large'')"
proof -
  note ok = conjunct1 [OF parsed_raw_args [OF assms(1)]]
  then have "same_family_ip (ra_group a) (ra_source a)" by (simp add: raw_args_ok_def)
  note outcome = build_datagram_outcome [OF this assms(2)]
  show ?thesis
  proof (cases "build_datagram a")
    case (Inl f)
    with outcome show ?thesis by simp
  next
    case (Inr dg)
    note dg = build_datagram_received [OF Inr]
    have "datagram_with_ttl (raw_configured a) (tool_fields a) dg = Ok dg"
      using tool_ttl_kept [of a]
      by (auto simp: datagram_with_ttl_def effective_ttl_def tool_fields_def split: option.splits)
    moreover have "specified (tool_fields a) \<Longrightarrow> parse_complete_ip_datagram dg = Ok (with_class (tool_fields a) 0)"
      using dg by (simp add: parse_complete_Ok)
    ultimately show ?thesis using dg tool_datagram_checked [OF ok] Inr by simp
  qed
qed

definition sample_raw_args :: "string list" where
  "sample_raw_args = [''mctx_raw_send'', ''239.255.12.34'', ''5000'', ''hello-raw'', ''2'', ''100'',
     ''--source'', ''192.0.2.1'', ''--source-port'', ''4001'', ''--ttl'', ''8'']"

definition sample_raw_cli :: raw_send_cli_args where
  "sample_raw_cli =
     \<lparr>ra_group = V4 (Ipv4Addr 239 255 12 34), ra_dst_port = 5000, ra_payload = ''hello-raw'', ra_count = 2,
      ra_interval_ms = 100, ra_source = V4 (Ipv4Addr 192 0 2 1), ra_bind_addr = None, ra_source_port = 4001,
      ra_interface = None, ra_interface_index = None, ra_ttl = Some 8, ra_loopback = True,
      ra_allow_any_destination = False, ra_route_selected_egress = False, ra_quiet = False\<rparr>"

lemma sample_raw_args_parsed: "parse_raw_send_cli_args sample_raw_args = Ok sample_raw_cli"
  by code_simp

theorem raw_tool_datagram_roundtrip_witness:
  "parse_raw_send_cli_args sample_raw_args = Ok sample_raw_cli \<and> length (ra_payload sample_raw_cli) < 2 ^ 63 \<and>
   (\<exists>dg. build_datagram sample_raw_cli = Ok dg \<and> length dg = 37 \<and>
      parse_raw_ip_datagram dg = Ok (tool_fields sample_raw_cli) \<and>
      pr_ttl_or_hop_limit (tool_fields sample_raw_cli) = 8)"
proof -
  have len: "length (ra_payload sample_raw_cli) = 9" by (simp add: sample_raw_cli_def)
  note rt = raw_tool_datagram_roundtrip [OF sample_raw_args_parsed]
  have v4: "ra_group sample_raw_cli = V4 (Ipv4Addr 239 255 12 34)" "tool_ttl sample_raw_cli = 8"
    by (simp_all add: sample_raw_cli_def tool_ttl_def)
  then have "pr_header_len (tool_fields sample_raw_cli) = 20" "pr_ttl_or_hop_limit (tool_fields sample_raw_cli) = 8"
    by (simp_all add: tool_fields_def)
  then show ?thesis
    using rt len sample_raw_args_parsed v4
    by (cases "build_datagram sample_raw_cli") (auto simp: carries_udp_def as_bytes_def)
qed

section \<open>A run of the tool\<close>

text \<open>What a run that sends the given reports does.\<close>

fun tool_events :: "raw_send_cli_args \<Rightarrow> raw_send_report list \<Rightarrow> raw_tool_event list" where
  "tool_events a [] = []"
| "tool_events a (rep # reps) =
     [RawSent rep] @ (if \<not> ra_quiet a then [RawPrinted rep] else []) @
     (if reps \<noteq> [] \<and> ra_interval_ms a \<noteq> 0 then [RawSlept (ra_interval_ms a)] else []) @ tool_events a reps"

text \<open>A send through the context reports the addresses of the datagram.\<close>

lemma raw_send_reported:
  assumes "raw_context_ok ctx" and "raw_send os i d ctx w = Some (Ok rep, ctx', w')"
    and "parse_raw_ip_datagram d = Ok q"
  shows "rr_publication_id rep = i \<and> rr_source_ip rep = Some (pr_source_ip q) \<and>
    rr_destination_ip rep = Some (pr_destination_ip q) \<and> ip_is_multicast (pr_destination_ip q)"
proof -
  obtain p p' where p: "raw_get_publication ctx i = Some p" "publication_send_raw os d p w = Some (Ok rep, p', w')"
    using assms(2) by (auto simp: raw_send_def split: option.splits)
  then have "raw_publication_ok p" "rp_id p = i"
    using assms(1) raw_registry.lkp_law [of ctx i p] by (auto simp: raw_context_ok_def)
  with publication_send_outcome [OF _ p(2)] assms(3) show ?thesis by (auto simp: raw_sent_def)
qed

lemma raw_send_loop_outcome:
  assumes "raw_context_ok ctx" and "parse_raw_ip_datagram d = Ok q"
    and "raw_send_loop os a i d k ctx w = Some (r, ev, w')"
  shows "no_panic r \<and>
    (r = Ok () \<longrightarrow> (\<exists>reps. length reps = k \<and> ev = tool_events a reps \<and>
       (\<forall>rep \<in> set reps. rr_publication_id rep = i \<and> rr_source_ip rep = Some (pr_source_ip q) \<and>
          rr_destination_ip rep = Some (pr_destination_ip q) \<and> ip_is_multicast (pr_destination_ip q))))"
  using assms(1,3)
proof (induction k arbitrary: ctx w r ev)
  case (Suc k)
  obtain x ctx1 w1 where x: "raw_send os i d ctx w = Some (x, ctx1, w1)"
    using Suc.prems(2) by (cases "raw_send os i d ctx w") auto
  note eff = raw_send_context_effect [OF Suc.prems(1) x]
  show ?case
  proof (cases x)
    case (Inl f)
    then show ?thesis using Suc.prems(2) x eff by (auto intro!: no_panic_failure_map)
  next
    case (Inr rep)
    then obtain ev1 where run: "raw_send_loop os a i d k ctx1 w1 = Some (r, ev1, w')"
      and ev: "ev = [RawSent rep] @ (if \<not> ra_quiet a then [RawPrinted rep] else []) @
            (if k > 0 \<and> ra_interval_ms a \<noteq> 0 then [RawSlept (ra_interval_ms a)] else []) @ ev1"
      using Suc.prems(2) x by auto
    note ih = Suc.IH [OF _ run] and rep = raw_send_reported [OF Suc.prems(1) x [unfolded Inr] assms(2)]
    show ?thesis
    proof (intro conjI impI)
      show "no_panic r" using ih eff by blast
      assume "r = Ok ()"
      with ih eff obtain reps where reps: "length reps = k" "ev1 = tool_events a reps"
          "\<forall>rep \<in> set reps. rr_publication_id rep = i \<and> rr_source_ip rep = Some (pr_source_ip q) \<and>
             rr_destination_ip rep = Some (pr_destination_ip q) \<and> ip_is_multicast (pr_destination_ip q)"
        by blast
      have "k > 0 \<longleftrightarrow> reps \<noteq> []" using reps(1) by auto
      then have "ev = tool_events a (rep # reps)" by (simp add: ev reps(2))
      moreover have "\<forall>r \<in> set (rep # reps). rr_publication_id r = i \<and> rr_source_ip r = Some (pr_source_ip q) \<and>
             rr_destination_ip r = Some (pr_destination_ip q) \<and> ip_is_multicast (pr_destination_ip q)"
        using rep reps(3) by simp
      moreover have "length (rep # reps) = Suc k" by (simp add: reps(1))
      ultimately show "\<exists>reps. length reps = Suc k \<and> ev = tool_events a reps \<and>
         (\<forall>rep \<in> set reps. rr_publication_id rep = i \<and> rr_source_ip rep = Some (pr_source_ip q) \<and>
          rr_destination_ip rep = Some (pr_destination_ip q) \<and> ip_is_multicast (pr_destination_ip q))"
        by blast
    qed
  qed
qed auto

lemma build_datagram_safe: "raw_args_ok a \<Longrightarrow> length (ra_payload a) < 2 ^ 63 \<Longrightarrow> no_panic (build_datagram a)"
  using build_datagram_outcome [of a]
  by (cases "build_datagram a") (auto simp: raw_args_ok_def no_panic_def split: ip_addr.splits)

text \<open>A run whose arguments, configuration and datagram were accepted.\<close>

lemma raw_main_accepted:
  assumes "raw_send_main os args w = Some (r, ev, w')" and "parse_raw_send_cli_args args = Ok a"
    and "raw_build_config a = Ok c" and "build_datagram a = Ok dg"
  shows "no_panic r \<and> (r = Ok () \<longrightarrow> (\<exists>reps. length reps = unat (ra_count a) \<and> ev = tool_events a reps \<and>
       (\<forall>rep \<in> set reps. rr_source_ip rep = Some (ra_source a) \<and> rr_destination_ip rep = Some (ra_group a)) \<and>
       (ra_count a = 0 \<or> ip_is_multicast (ra_group a))))"
proof -
  obtain x ctx w1 where add: "raw_add_publication os c raw_context_new w = (x, ctx, w1)" by (metis prod_cases3)
  note eff = raw_add_effect [OF raw_context_ok_new _ add]
  have parsed: "parse_raw_ip_datagram dg = Ok (tool_fields a)" using build_datagram_received [OF assms(4)] by blast
  show ?thesis
  proof (cases x)
    case f: (Inl f)
    then show ?thesis
      using assms add eff
      by (auto simp: raw_send_main_def raw_context_new_def table_new_def intro!: no_panic_failure_map)
  next
    case i: (Inr i)
    then have run: "raw_send_loop os a i dg (unat (ra_count a)) ctx w1 = Some (r, ev, w')"
      using assms add by (simp add: raw_send_main_def)
    have ok: "raw_context_ok ctx" using eff by (simp add: raw_context_new_def table_new_def)
    note out = raw_send_loop_outcome [OF ok parsed run]
    have "ra_count a = 0 \<or> reps \<noteq> []" if "length reps = unat (ra_count a)" for reps :: "raw_send_report list"
      using that by (cases reps) (auto simp: unat_eq_zero)
    with out show ?thesis by (fastforce simp: tool_fields_def)
  qed
qed


text \<open>A device whose queue takes two datagrams.\<close>

definition raw_tool_device :: device where
  "raw_tool_device = (device_start 2)\<lparr>dev_table := dev_table sample_raw_device\<rparr>"


end
