(* ===== verification/Send_Cli.thy ===== *)
theory Send_Cli
  imports Send_Args Metrics_Sampling Metrics_Jsonl_Facts "HOL-Library.List_Lexorder" "HOL-Library.Char_ord"
begin

text \<open>
  The UDP sender tool with metrics (\<open>src/bin/mctx_send.rs\<close>): the settings it reads from the
  environment, the flags and rows of its metrics file, and the main function, which adds one
  publication, sends the payload as often as asked and writes or prints a summary of the
  counters at intervals and at the end. The environment is a parameter. Floating-point numbers
  are a parameter as well: the number a count, a duration or a rate has in the JSON text.
\<close>

section \<open>The standard library\<close>

text \<open>\<open>str::trim\<close>: leading and trailing Unicode white space, one to three bytes each.\<close>

fun trim_start :: "string \<Rightarrow> string" where
  "trim_start (a # b # c # s) =
     (if white1 a then trim_start (b # c # s)
      else if white2 a b then trim_start (c # s)
      else if white3 a b c then trim_start s
      else a # b # c # s)"
| "trim_start [a, b] = (if white1 a then trim_start [b] else if white2 a b then [] else [a, b])"
| "trim_start [a] = (if white1 a then [] else [a])"
| "trim_start [] = []"

text \<open>The last character first, so the bytes of a character come in the opposite order.\<close>

fun trim_rev :: "string \<Rightarrow> string" where
  "trim_rev (c # b # a # s) =
     (if white1 c then trim_rev (b # a # s)
      else if white2 b c then trim_rev (a # s)
      else if white3 a b c then trim_rev s
      else c # b # a # s)"
| "trim_rev [b, a] = (if white1 b then trim_rev [a] else if white2 a b then [] else [b, a])"
| "trim_rev [a] = (if white1 a then [] else [a])"
| "trim_rev [] = []"

definition trim :: "string \<Rightarrow> string" where
  "trim s = rev (trim_rev (rev (trim_start s)))"

datatype var_error = NotPresent | NotUnicode string

type_synonym environment = "string \<Rightarrow> var_error + string"

text \<open>\<open>PathBuf::from\<close>, as the list of its components.\<close>

fun split_path_acc :: "string \<Rightarrow> string \<Rightarrow> string list" where
  "split_path_acc part [] = [part]"
| "split_path_acc part (c # s) =
     (if c = CHR ''/'' then part # split_path_acc [] s else split_path_acc (part @ [c]) s)"

definition path_component_of :: "string \<Rightarrow> path" where
  "path_component_of part =
     (if part = [] \<or> part = ''.'' then [] else if part = ''..'' then [ParentDir] else [Normal part])"

definition path_from :: "string \<Rightarrow> path" where
  "path_from s =
     (let parts = split_path_acc [] s in
      (if take 1 s = ''/'' then [RootDir] else if hd parts = ''.'' then [CurDir] else []) @
      concat (map path_component_of parts))"

text \<open>\<open>serde_json::Map\<close> is ordered by key.\<close>

fun map_insert :: "string \<Rightarrow> 'v \<Rightarrow> (string \<times> 'v) list \<Rightarrow> (string \<times> 'v) list" where
  "map_insert k v [] = [(k, v)]"
| "map_insert k v ((k', v') # m) =
     (if k < k' then (k, v) # (k', v') # m else if k = k' then (k, v) # m else (k', v') # map_insert k v m)"

definition map_or_insert :: "string \<times> 'v \<Rightarrow> (string \<times> 'v) list \<Rightarrow> (string \<times> 'v) list" where
  "map_or_insert kv m = (case map_of m (fst kv) of None \<Rightarrow> map_insert (fst kv) (snd kv) m | Some _ \<Rightarrow> m)"

section \<open>Settings\<close>

definition parse_summary_interval :: "string \<Rightarrow> message + nat option" where
  "parse_summary_interval raw =
     (let raw = trim raw in
      if raw = [] then Ok None
      else and_then (map_err (\<lambda>err. (''MCTX_METRICS_SUMMARY_SECS must be an integer: {error}'', [FStr err]))
             (parse_int_text raw :: string + u64)) (\<lambda>secs.
           if secs = 0 then Ok None else Ok (Some (unat secs * 1000000000))))"

definition summary_interval_from_env :: "environment \<Rightarrow> message + nat option" where
  "summary_interval_from_env env =
     (case env ''MCTX_METRICS_SUMMARY_SECS'' of
        Inr raw \<Rightarrow> parse_summary_interval raw
      | Inl NotPresent \<Rightarrow> Ok None
      | Inl (NotUnicode s) \<Rightarrow> Err (''MCTX_METRICS_SUMMARY_SECS is invalid: {error}'', [FStr s]))"

definition summary_file_from_env :: "environment \<Rightarrow> path option" where
  "summary_file_from_env env =
     Option.bind (ok (env ''MCTX_METRICS_SUMMARY_FILE'')) (\<lambda>raw.
       if trim raw = [] then None else Some (path_from raw))"

definition metrics_node_id_from_env :: "environment \<Rightarrow> string option" where
  "metrics_node_id_from_env env =
     Option.bind (map_option trim (ok (env ''MCTX_METRICS_NODE_ID''))) (\<lambda>v. if v \<noteq> [] then Some v else None)"

definition metrics_flags_from_env :: "'n json_api \<Rightarrow> environment \<Rightarrow> message + (string \<times> 'n json) list" where
  "metrics_flags_from_env js env =
     (case env ''MCTX_METRICS_FLAGS_JSON'' of
        Inl _ \<Rightarrow> Ok []
      | Inr raw \<Rightarrow>
          let trimmed = trim raw in
          if trimmed = [] then Ok []
          else and_then (map_err (\<lambda>err. (''MCTX_METRICS_FLAGS_JSON must be valid JSON: {err}'', [FStr err]))
                 (js_from_str js trimmed)) (\<lambda>parsed.
               case parsed of
                 JObject m \<Rightarrow> Ok m
               | _ \<Rightarrow> Err (''MCTX_METRICS_FLAGS_JSON must be a JSON object'', [])))"

definition sender_source_string :: "publication_config \<Rightarrow> string" where
  "sender_source_string c = (case map_option display_ip (pc_source_addr c) of Some s \<Rightarrow> s | None \<Rightarrow> ''default'')"

definition sender_interface_string :: "send_cli_args \<Rightarrow> string" where
  "sender_interface_string a =
     (case (sc_interface a, sc_interface_index a) of
        (Some interface, _) \<Rightarrow> display_ip interface
      | (None, Some index) \<Rightarrow> show_dec (unat index)
      | (None, None) \<Rightarrow> ''default'')"

text \<open>The flags of the tool itself, in the order they are inserted.\<close>

definition sender_flags :: "'n num_api \<Rightarrow> send_cli_args \<Rightarrow> publication_config \<Rightarrow> (string \<times> 'n json) list" where
  "sender_flags nu a c =
     [(''transport'', JString ''udp-multicast''),
      (''role'', JString ''sender''),
      (''multicast_group'', JString (display_ip (pc_group c))),
      (''multicast_port'', JNumber (nu_count nu (unat (pc_dst_port c)))),
      (''multicast_source'', JString (sender_source_string c)),
      (''multicast_interface'', JString (sender_interface_string a)),
      (''publish_interval_ms'', JNumber (nu_count nu (unat (sc_interval_ms a)))),
      (''chunk_payload_bytes'', JNumber (nu_count nu (length (sc_payload a)))),
      (''pacing'', JString (if sc_interval_ms a > 0 then ''fixed-interval'' else ''none'')),
      (''batch_send_enabled'', JBool False),
      (''loopback_enabled'', JBool (pc_loopback c)),
      (''ttl_or_hops'', JNumber (nu_count nu (unat (pc_ttl c))))] @
     (case pc_source_port c of
        Some port \<Rightarrow> [(''multicast_source_port'', JNumber (nu_count nu (unat port)))] | None \<Rightarrow> []) @
     (case sc_interface_index a of
        Some index \<Rightarrow> [(''multicast_interface_index'', JNumber (nu_count nu (unat index)))] | None \<Rightarrow> [])"

definition build_sender_metrics_flags ::
  "'n json_api \<Rightarrow> 'n num_api \<Rightarrow> environment \<Rightarrow> send_cli_args \<Rightarrow> publication_config \<Rightarrow> message + (string \<times> 'n json) list" where
  "build_sender_metrics_flags js nu env a c =
     and_then (metrics_flags_from_env js env) (\<lambda>extra.
     Ok (fold map_or_insert extra (fold (\<lambda>(k, v). map_insert k v) (sender_flags nu a c) [])))"

record 'n jsonl_output =
  jo_network_path :: path
  jo_node_id :: string
  jo_flags :: "(string \<times> 'n json) list"

definition summary_output_from_env ::
  "'n json_api \<Rightarrow> 'n num_api \<Rightarrow> environment \<Rightarrow> send_cli_args \<Rightarrow> publication_config \<Rightarrow> message + 'n jsonl_output option" where
  "summary_output_from_env js nu env a c =
     (case summary_file_from_env env of
        None \<Rightarrow> Ok None
      | Some network_path \<Rightarrow>
          and_then (build_sender_metrics_flags js nu env a c) (\<lambda>flags.
          Ok (Some \<lparr>jo_network_path = network_path,
            jo_node_id = (case metrics_node_id_from_env env of Some s \<Rightarrow> s | None \<Rightarrow> infer_node_id_from_path network_path),
            jo_flags = flags\<rparr>)))"

section \<open>Summaries\<close>

text \<open>
  What the tool runs on: the sockets, the disk, and two clocks, given by their successive readings.
  An instant is representable below the limit.
\<close>

record 'w host =
  ho_world :: 'w
  ho_disk :: disk
  ho_instants :: "nat \<Rightarrow> nat"
  ho_instant_reads :: nat
  ho_walls :: "nat \<Rightarrow> nat"
  ho_wall_reads :: nat
  ho_instant_limit :: nat

definition instant_now :: "'w host \<Rightarrow> nat \<times> 'w host" where
  "instant_now h = (ho_instants h (ho_instant_reads h), h\<lparr>ho_instant_reads := Suc (ho_instant_reads h)\<rparr>)"

definition wall_now :: "'w host \<Rightarrow> nat \<times> 'w host" where
  "wall_now h = (ho_walls h (ho_wall_reads h), h\<lparr>ho_wall_reads := Suc (ho_wall_reads h)\<rparr>)"

definition next_summary_deadline :: "nat \<Rightarrow> 'w host \<Rightarrow> (io_error + nat) \<times> 'w host" where
  "next_summary_deadline interval h =
     (case instant_now h of (now, h1) \<Rightarrow>
        (if now + interval < ho_instant_limit h1 then Ok (now + interval)
         else Err (io_error_new InvalidInput
           (''MCTX_METRICS_SUMMARY_SECS is too large for the platform clock'', [])), h1))"

definition NETWORK_ARTIFACT_TYPE :: string where "NETWORK_ARTIFACT_TYPE = ''mctx-network''"

definition SENDER_PRODUCER :: string where "SENDER_PRODUCER = ''mctx-core/mctx_send''"

text \<open>The members of the sample object, in the order of their keys.\<close>

definition summary_sample :: "'n json_api \<Rightarrow> 'n num_api \<Rightarrow> context_snapshot \<Rightarrow> context_delta \<Rightarrow> 'n json" where
  "summary_sample js nu snapshot delta =
     (let num = (\<lambda>n. JNumber (nu_count nu n)); u = (\<lambda>w :: u64. JNumber (nu_count nu (unat w)))
      in JObject
       [(''active_publications'', num (cs_active_publications snapshot)),
        (''bytes_per_sec'', JNumber (context_bytes_per_sec nu delta)),
        (''bytes_sent_delta'', u (cd_bytes_sent delta)),
        (''bytes_sent_total'', u (cs_total_bytes_sent snapshot)),
        (''interval_secs'', JNumber (js_secs js (cd_interval delta))),
        (''packets_per_sec'', JNumber (context_packets_per_sec nu delta)),
        (''packets_sent_delta'', u (cd_packets_sent delta)),
        (''packets_sent_total'', u (cs_total_packets_sent snapshot)),
        (''publications_added_delta'', u (cd_publications_added delta)),
        (''publications_added_total'', u (cs_publications_added snapshot)),
        (''publications_removed_delta'', u (cd_publications_removed delta)),
        (''publications_removed_total'', u (cs_publications_removed snapshot)),
        (''send_calls_delta'', u (cd_send_calls delta)),
        (''send_calls_per_sec'', JNumber (context_send_calls_per_sec nu delta)),
        (''send_calls_total'', u (cs_total_send_calls snapshot)),
        (''send_errors_delta'', u (cd_send_errors delta)),
        (''send_errors_per_sec'', JNumber (context_send_errors_per_sec nu delta)),
        (''send_errors_total'', u (cs_total_send_errors snapshot)),
        (''ts'', JNumber (unix_timestamp_secs js (int (cs_captured_at snapshot))))])"

definition summary_header :: "'n json_api \<Rightarrow> context_snapshot \<Rightarrow> 'n jsonl_output \<Rightarrow> 'n json" where
  "summary_header js snapshot out =
     header_json js NETWORK_ARTIFACT_TYPE SENDER_PRODUCER (jo_node_id out) (int (cs_captured_at snapshot)) (jo_flags out)"

text \<open>The writer is opened with the first row and kept.\<close>

definition write_metrics_summary_jsonl ::
  "'n json_api \<Rightarrow> 'n num_api \<Rightarrow> context_snapshot \<Rightarrow> context_delta \<Rightarrow> 'n jsonl_output \<Rightarrow> path option \<Rightarrow> disk \<Rightarrow>
   (io_error failure + unit) \<times> path option \<times> disk" where
  "write_metrics_summary_jsonl js nu snapshot delta out writer d =
     (let sample = summary_sample js nu snapshot delta in
      case (case writer of
              None \<Rightarrow> writer_open js (jo_network_path out) (summary_header js snapshot out) d
            | Some wr \<Rightarrow> (Ok wr, d)) of
        (Inl f, d1) \<Rightarrow> (Err f, None, d1)
      | (Inr wr, d1) \<Rightarrow> (case append_sample_row js wr sample d1 of (r, d2) \<Rightarrow> (r, Some wr, d2)))"

datatype send_tool_event =
    SendReturned send_report
  | SendPrinted send_report
  | SummaryWritten context_snapshot context_delta
  | SummaryPrinted context_snapshot context_delta
  | SendSlept u64

definition emit_metrics_summary ::
  "'n json_api \<Rightarrow> 'n num_api \<Rightarrow> 's mctx_context \<Rightarrow> 'n jsonl_output option \<Rightarrow>
   context_snapshot sampler \<Rightarrow> path option \<Rightarrow> 'w host \<Rightarrow>
   (io_error failure + unit) \<times> context_snapshot sampler \<times> path option \<times> send_tool_event list \<times> 'w host" where
  "emit_metrics_summary js nu ctx out sampler writer h =
     (case wall_now h of (wall, h1) \<Rightarrow>
      case instant_now h1 of (now, h2) \<Rightarrow>
      let snapshot = context_metrics_snapshot wall ctx in
      case sample_snapshot_at context_delta_since_duration snapshot now sampler of
        (None, sampler1) \<Rightarrow> (Ok (), sampler1, writer, [], h2)
      | (Some delta, sampler1) \<Rightarrow>
          (case out of
             Some out \<Rightarrow>
               (case write_metrics_summary_jsonl js nu snapshot delta out writer (ho_disk h2) of
                  (Inl f, writer1, d) \<Rightarrow> (Err f, sampler1, writer1, [], h2\<lparr>ho_disk := d\<rparr>)
                | (Inr _, writer1, d) \<Rightarrow>
                    (Ok (), sampler1, writer1, [SummaryWritten snapshot delta], h2\<lparr>ho_disk := d\<rparr>))
           | None \<Rightarrow> (Ok (), sampler1, writer, [SummaryPrinted snapshot delta], h2)))"

section \<open>The main function\<close>

datatype send_tool_error = ArgsRefused message | SendCore mctx_error | EnvInvalid message | SendIo io_error

record send_tool =
  st_sampler :: "context_snapshot sampler"
  st_writer :: "path option"
  st_next_summary_at :: "nat option"

text \<open>
  After a send: a summary when its time has come, and then the next deadline.
\<close>

definition summary_if_due ::
  "'n json_api \<Rightarrow> 'n num_api \<Rightarrow> nat option \<Rightarrow> 'n jsonl_output option \<Rightarrow> 's mctx_context \<Rightarrow> send_tool \<Rightarrow> 'w host \<Rightarrow>
   (io_error failure + unit) \<times> send_tool \<times> send_tool_event list \<times> 'w host" where
  "summary_if_due js nu interval out ctx st h =
     (case (interval, st_next_summary_at st) of
        (Some summary_interval, Some deadline) \<Rightarrow>
          (case instant_now h of (now, h1) \<Rightarrow>
             if now \<ge> deadline then
               (case emit_metrics_summary js nu ctx out (st_sampler st) (st_writer st) h1 of
                  (Inl f, sampler1, writer1, ev, h2) \<Rightarrow>
                    (Err f, st\<lparr>st_sampler := sampler1, st_writer := writer1\<rparr>, ev, h2)
                | (Inr _, sampler1, writer1, ev, h2) \<Rightarrow>
                    (case next_summary_deadline summary_interval h2 of
                       (Inl e, h3) \<Rightarrow>
                         (Err (Raised e), st\<lparr>st_sampler := sampler1, st_writer := writer1\<rparr>, ev, h3)
                     | (Inr t, h3) \<Rightarrow>
                         (Ok (), st\<lparr>st_sampler := sampler1, st_writer := writer1, st_next_summary_at := Some t\<rparr>, ev, h3)))
             else (Ok (), st, [], h1))
      | _ \<Rightarrow> (Ok (), st, [], h))"

text \<open>The loop with \<open>k\<close> packets left.\<close>

fun send_loop ::
  "('w, 's) os_api \<Rightarrow> 'n json_api \<Rightarrow> 'n num_api \<Rightarrow> send_cli_args \<Rightarrow> u64 \<Rightarrow> nat option \<Rightarrow> 'n jsonl_output option \<Rightarrow>
   nat \<Rightarrow> 's mctx_context \<Rightarrow> send_tool \<Rightarrow> 'w host \<Rightarrow>
   (send_tool_error failure + 's mctx_context) \<times> send_tool \<times> send_tool_event list \<times> 'w host" where
  "send_loop os js nu a i interval out 0 ctx st h = (Ok ctx, st, [], h)"
| "send_loop os js nu a i interval out (Suc k) ctx st h =
     (case context_send os i (as_bytes (sc_payload a)) ctx (ho_world h) of
        (Inl e, ctx1, w1) \<Rightarrow> (Err (Raised (SendCore e)), st, [], h\<lparr>ho_world := w1\<rparr>)
      | (Inr report, ctx1, w1) \<Rightarrow>
          let ev0 = [SendReturned report] @ (if \<not> sc_quiet a then [SendPrinted report] else []) in
          (case summary_if_due js nu interval out ctx1 st (h\<lparr>ho_world := w1\<rparr>) of
             (Inl f, st1, ev1, h1) \<Rightarrow> (Err (failure_map SendIo f), st1, ev0 @ ev1, h1)
           | (Inr _, st1, ev1, h1) \<Rightarrow>
               let ev2 = (if k > 0 \<and> sc_interval_ms a \<noteq> 0 then [SendSlept (sc_interval_ms a)] else []) in
               (case send_loop os js nu a i interval out k ctx1 st1 h1 of
                  (r, st2, ev3, h2) \<Rightarrow> (r, st2, ev0 @ ev1 @ ev2 @ ev3, h2))))"

text \<open>\<open>summary_interval.map(next_summary_deadline).transpose()\<close>\<close>

definition first_deadline :: "nat option \<Rightarrow> 'w host \<Rightarrow> (io_error + nat option) \<times> 'w host" where
  "first_deadline interval h =
     (case interval of
        None \<Rightarrow> (Ok None, h)
      | Some summary_interval \<Rightarrow>
          (case next_summary_deadline summary_interval h of (r, h1) \<Rightarrow> (and_then r (\<lambda>t. Ok (Some t)), h1)))"

text \<open>The end of the main function drops the writer, which gives up its lock.\<close>

definition drop_writer :: "path option \<Rightarrow> 'w host \<Rightarrow> 'w host" where
  "drop_writer writer h = (case writer of None \<Rightarrow> h | Some p \<Rightarrow> h\<lparr>ho_disk := fs_unlock p (ho_disk h)\<rparr>)"

text \<open>After the loop.\<close>

definition last_summary ::
  "'n json_api \<Rightarrow> 'n num_api \<Rightarrow> nat option \<Rightarrow> 'n jsonl_output option \<Rightarrow> 's mctx_context \<Rightarrow> send_tool \<Rightarrow> 'w host \<Rightarrow>
   (send_tool_error failure + unit) \<times> send_tool_event list \<times> 'w host" where
  "last_summary js nu interval out ctx st h =
     (if out \<noteq> None \<or> interval \<noteq> None then
        (case emit_metrics_summary js nu ctx out (st_sampler st) (st_writer st) h of
           (r, _, writer1, ev, h1) \<Rightarrow>
             (case r of Inl f \<Rightarrow> Err (failure_map SendIo f) | Inr _ \<Rightarrow> Ok (), ev, drop_writer writer1 h1))
      else (Ok (), [], drop_writer (st_writer st) h))"

text \<open>From the first sample on, with the settings read and the publication added.\<close>

definition send_run ::
  "('w, 's) os_api \<Rightarrow> 'n json_api \<Rightarrow> 'n num_api \<Rightarrow> send_cli_args \<Rightarrow> u64 \<Rightarrow> nat option \<Rightarrow> 'n jsonl_output option \<Rightarrow>
   's mctx_context \<Rightarrow> 'w host \<Rightarrow> (send_tool_error failure + unit) \<times> send_tool_event list \<times> 'w host" where
  "send_run os js nu a i interval out ctx h =
     (case wall_now h of (wall, h1) \<Rightarrow>
      case instant_now h1 of (now, h2) \<Rightarrow>
      case context_sample ctx wall now sampler_new of (_, sampler) \<Rightarrow>
      case first_deadline interval h2 of
        (Inl e, h3) \<Rightarrow> (Err (Raised (SendIo e)), [], h3)
      | (Inr next_at, h3) \<Rightarrow>
          (case send_loop os js nu a i interval out (unat (sc_count a)) ctx
                  \<lparr>st_sampler = sampler, st_writer = None, st_next_summary_at = next_at\<rparr> h3 of
             (Inl f, st, ev, h4) \<Rightarrow> (Err f, ev, drop_writer (st_writer st) h4)
           | (Inr ctx1, st, ev, h4) \<Rightarrow>
               (case last_summary js nu interval out ctx1 st h4 of (r, ev1, h5) \<Rightarrow> (r, ev @ ev1, h5))))"

text \<open>The usage text, printed when the arguments are refused, names the program: \<open>args[0]\<close>.\<close>

definition send_main ::
  "('w, 's) os_api \<Rightarrow> 'n json_api \<Rightarrow> 'n num_api \<Rightarrow> environment \<Rightarrow> string list \<Rightarrow> 'w host \<Rightarrow>
   (send_tool_error failure + unit) \<times> send_tool_event list \<times> 'w host" where
  "send_main os js nu env args h =
     (case parse_send_cli_args args of
        Inl m \<Rightarrow> (idx args 0 (\<lambda>program. Err (Raised (ArgsRefused m))), [], h)
      | Inr a \<Rightarrow>
     (case build_config a of
        Inl e \<Rightarrow> (Err (Raised (SendCore e)), [], h)
      | Inr config \<Rightarrow>
     (case add_publication os config context_new (ho_world h) of
        (Inl f, _, w1) \<Rightarrow> (Err (failure_map SendCore f), [], h\<lparr>ho_world := w1\<rparr>)
      | (Inr i, ctx, w1) \<Rightarrow>
     (case summary_interval_from_env env of
        Inl m \<Rightarrow> (Err (Raised (EnvInvalid m)), [], h\<lparr>ho_world := w1\<rparr>)
      | Inr interval \<Rightarrow>
     (case summary_output_from_env js nu env a config of
        Inl m \<Rightarrow> (Err (Raised (EnvInvalid m)), [], h\<lparr>ho_world := w1\<rparr>)
      | Inr out \<Rightarrow> send_run os js nu a i interval out ctx (h\<lparr>ho_world := w1\<rparr>))))))"

end
