(* ===== verification/Send_Cli_Facts.thy ===== *)
theory Send_Cli_Facts
  imports Send_Cli
begin

text \<open>
  Properties of the UDP sender tool: the flags of the metrics header, the rows it writes, and what
  a run does. A run sends exactly the packets asked for, and its summaries account for all of
  them.
\<close>

section \<open>The flags of the header\<close>

abbreviation (input) keys_ordered :: "(string \<times> 'v) list \<Rightarrow> bool" where
  "keys_ordered m \<equiv> sorted_wrt (<) (map fst m)"

lemma map_insert_keys: "set (map fst (map_insert k v m)) = insert k (set (map fst m))"
  by (induction k v m rule: map_insert.induct) (simp_all, blast)

lemma map_insert_ordered: "keys_ordered m \<Longrightarrow> keys_ordered (map_insert k v m)"
proof (induction m)
  case (Cons kv m)
  obtain k' v' where kv: "kv = (k', v')" by force
  have keys: "\<forall>x \<in> set (map fst (map_insert k v m)). k' < x" if "k' < k"
    using Cons.prems that unfolding map_insert_keys by (auto simp: kv)
  consider "k < k'" | "k = k'" | "k' < k" by fastforce
  then show ?case
  proof cases
    case 3
    then show ?thesis using Cons keys [OF 3] by (auto simp: kv)
  qed (use Cons.prems in \<open>auto simp: kv\<close>)
qed simp

lemma map_insert_lookup: "keys_ordered m \<Longrightarrow> map_of (map_insert k v m) = (map_of m)(k \<mapsto> v)"
proof (induction m)
  case (Cons kv m)
  obtain k' v' where kv: "kv = (k', v')" by force
  with Cons show ?case by (auto simp: fun_eq_iff)
qed simp

lemma map_or_insert_ordered: "keys_ordered m \<Longrightarrow> keys_ordered (map_or_insert kv m)"
  by (simp add: map_or_insert_def map_insert_ordered split: option.split)

lemma map_or_insert_lookup:
  "keys_ordered m \<Longrightarrow> map_of (map_or_insert kv m) = map_of [kv] ++ map_of m"
  by (cases kv) (auto simp: map_or_insert_def map_insert_lookup map_add_def fun_eq_iff split: option.splits)

lemma fold_insert:
  "keys_ordered m \<Longrightarrow> keys_ordered (fold (\<lambda>(k, v). map_insert k v) kvs m) \<and>
     map_of (fold (\<lambda>(k, v). map_insert k v) kvs m) = map_of m ++ map_of (rev kvs)"
proof (induction kvs arbitrary: m)
  case (Cons kv kvs)
  obtain k v where kv: "kv = (k, v)" by force
  from Cons.IH [OF map_insert_ordered [OF Cons.prems, of k v]] show ?case
    by (simp add: kv map_insert_lookup [OF Cons.prems] map_add_def fun_eq_iff split: option.split)
qed simp

lemma fold_or_insert:
  "keys_ordered m \<Longrightarrow> keys_ordered (fold map_or_insert kvs m) \<and>
     map_of (fold map_or_insert kvs m) = map_of kvs ++ map_of m"
proof (induction kvs arbitrary: m)
  case (Cons kv kvs)
  obtain k v where kv: "kv = (k, v)" by force
  from Cons.IH [OF map_or_insert_ordered [OF Cons.prems, of kv]] show ?case
    by (auto simp: kv map_or_insert_lookup [OF Cons.prems] map_add_def fun_eq_iff split: option.splits)
qed simp

lemma sender_flag_keys: "distinct (map fst (sender_flags nu a c))"
  by (simp add: sender_flags_def split: option.split)

text \<open>
  The flags of the metrics header are those of the tool and those of the environment, ordered
  by key; a flag of the environment is taken only if the tool has no flag of that name, so
  the environment cannot misreport what the tool does.
\<close>

theorem sender_flags_win:
  assumes "build_sender_metrics_flags js nu env a c = Ok flags"
  shows "sorted_wrt (<) (map fst flags) \<and>
    (\<exists>extra. metrics_flags_from_env js env = Ok extra \<and>
       (\<forall>k. map_of flags k = (case map_of (sender_flags nu a c) k of Some v \<Rightarrow> Some v | None \<Rightarrow> map_of extra k)))"
proof -
  from assms obtain extra where extra: "metrics_flags_from_env js env = Ok extra"
      "flags = fold map_or_insert extra (fold (\<lambda>(k, v). map_insert k v) (sender_flags nu a c) [])"
    by (auto simp: build_sender_metrics_flags_def mctx_result)
  note own = fold_insert [of "[]" "sender_flags nu a c", simplified]
  have "map_of (rev (sender_flags nu a c)) = map_of (sender_flags nu a c)"
    by (rule map_of_inject_set [THEN iffD2]) (simp_all add: sender_flag_keys rev_map [symmetric])
  with fold_or_insert [OF conjunct1 [OF own], of extra] own extra show ?thesis
    by (auto simp: map_add_def)
qed

text \<open>An environment with extra flags: one of them has the name of a flag of the tool.\<close>

definition sample_nums :: "int num_api" where
  "sample_nums = \<lparr>nu_count = int, nu_zero = 0, nu_div = (\<lambda>n t. uint n)\<rparr>"

definition extra_flags_json :: "int json_api" where
  "extra_flags_json = sample_json\<lparr>js_from_str := (\<lambda>_. Ok (JObject [(''role'', JString ''x''), (''site'', JString ''y'')]))\<rparr>"

definition flags_env :: environment where
  "flags_env = (\<lambda>k. if k = ''MCTX_METRICS_FLAGS_JSON'' then Ok '' {..} '' else Err NotPresent)"

definition sample_cli :: send_cli_args where
  "sample_cli = \<lparr>sc_group = V4 (Ipv4Addr 239 1 2 3), sc_dst_port = 5000, sc_payload = ''hello'', sc_count = 2,
     sc_interval_ms = 0, sc_source = None, sc_bind_addr = None, sc_source_port = None, sc_interface = None,
     sc_interface_index = None, sc_ttl = None, sc_loopback = True, sc_quiet = False\<rparr>"

theorem sender_flags_win_witness:
  "\<exists>flags. build_sender_metrics_flags extra_flags_json sample_nums flags_env sample_cli (requested_config sample_cli) = Ok flags \<and>
     map_of flags ''role'' = Some (JString ''sender'') \<and> map_of flags ''site'' = Some (JString ''y'')"
proof -
  have extra: "metrics_flags_from_env extra_flags_json flags_env = Ok [(''role'', JString ''x''), (''site'', JString ''y'')]"
    by code_simp
  then obtain flags where flags:
      "build_sender_metrics_flags extra_flags_json sample_nums flags_env sample_cli (requested_config sample_cli) = Ok flags"
    by (simp add: build_sender_metrics_flags_def)
  from sender_flags_win [OF flags] extra
  have "map_of flags k = (case map_of (sender_flags sample_nums sample_cli (requested_config sample_cli)) k of
      Some v \<Rightarrow> Some v | None \<Rightarrow> map_of [(''role'', JString ''x''), (''site'', JString ''y'')] k)" for k by auto
  moreover have "map_of (sender_flags sample_nums sample_cli c) ''role'' = Some (JString ''sender'')"
      "map_of (sender_flags sample_nums sample_cli c) ''site'' = None" for c
    by (simp_all add: sender_flags_def sample_cli_def split: option.split)
  ultimately show ?thesis using flags by simp
qed

section \<open>The rows\<close>

text \<open>Seconds of durations and of times after the epoch are finite and not negative.\<close>

definition good_seconds :: "'n json_api \<Rightarrow> bool" where
  "good_seconds js \<longleftrightarrow> (\<forall>n. js_finite js (js_secs js n) \<and> \<not> js_negative js (js_secs js n))"

lemma summary_sample_valid:
  assumes "good_seconds js"
  shows "validate_sample_row js (summary_sample js nu snapshot delta) = Ok ()"
  using assms
  by (simp add: validate_sample_row_def summary_sample_def comparable_keys_def good_seconds_def unix_timestamp_secs_def Let_def)

lemma summary_header_valid:
  assumes "good_seconds js"
  shows "validate_header_object js (summary_header js snapshot out) =
    (if blank (jo_node_id out) then Err (''{field} must be a non-empty string'', [FStr ''node_id'']) else Ok ())"
  using assms
  by (simp add: validate_header_object_def summary_header_def header_json_def text_field_missing_def
      NETWORK_ARTIFACT_TYPE_def SENDER_PRODUCER_def HEIMDALL_JSONL_SCHEMA_def good_seconds_def
      unix_timestamp_secs_def white1_def white2_def white3_def Let_def)

section \<open>What a run accounts for\<close>

fun reports_of :: "send_tool_event list \<Rightarrow> send_report list" where
  "reports_of [] = []"
| "reports_of (SendReturned r # ev) = r # reports_of ev"
| "reports_of (_ # ev) = reports_of ev"

fun deltas_of :: "send_tool_event list \<Rightarrow> context_delta list" where
  "deltas_of [] = []"
| "deltas_of (SummaryWritten _ d # ev) = d # deltas_of ev"
| "deltas_of (SummaryPrinted _ d # ev) = d # deltas_of ev"
| "deltas_of (_ # ev) = deltas_of ev"

lemma reports_of_append [simp]: "reports_of (ev @ ev') = reports_of ev @ reports_of ev'"
  by (induction ev rule: reports_of.induct) simp_all

lemma deltas_of_append [simp]: "deltas_of (ev @ ev') = deltas_of ev @ deltas_of ev'"
  by (induction ev rule: deltas_of.induct) simp_all

definition metrics_counters :: "context_metrics \<Rightarrow> u64 list" where
  "metrics_counters m = [cm_publications_added m, cm_publications_removed m, cm_total_send_calls m,
     cm_total_packets_sent m, cm_total_bytes_sent m, cm_total_send_errors m]"

lemma snapshot_counters [simp]:
  "context_counters (context_metrics_snapshot wall ctx) = metrics_counters (ctx_metrics ctx)"
  by (simp add: context_counters_def context_metrics_snapshot_def metrics_counters_def)

text \<open>The sampler has a baseline that neither the counters nor the clock are behind of.\<close>

definition baseline :: "context_snapshot sampler \<Rightarrow> u64 list \<Rightarrow> 's mctx_context \<Rightarrow> 'w host \<Rightarrow> bool" where
  "baseline sampler base ctx h \<longleftrightarrow>
     (\<exists>snap t. sampler = \<lparr>sp_previous = Some snap, sp_previous_sampled_at = Some t\<rparr> \<and> context_counters snap = base \<and>
        list_all2 (\<le>) base (metrics_counters (ctx_metrics ctx)) \<and>
        (\<forall>n \<ge> ho_instant_reads h. t \<le> ho_instants h n))"

text \<open>Differences that lead from one list of counters to another.\<close>

definition adds_up :: "u64 list \<Rightarrow> context_delta list \<Rightarrow> u64 list \<Rightarrow> bool" where
  "adds_up base ds final \<longleftrightarrow>
     (\<forall>k < 6. unat (base ! k) + sum_list (map (\<lambda>d. unat (context_amounts d ! k)) ds) = unat (final ! k))"

lemma adds_up_Nil: "adds_up base [] base"
  by (simp add: adds_up_def)

lemma adds_up_append: "adds_up a ds b \<Longrightarrow> adds_up b ds' c \<Longrightarrow> adds_up a (ds @ ds') c"
  by (auto simp: adds_up_def add.assoc [symmetric])

abbreviation (input) same_clock :: "'w host \<Rightarrow> 'w host \<Rightarrow> bool" where
  "same_clock h h' \<equiv> ho_instants h' = ho_instants h \<and> ho_instant_reads h \<le> ho_instant_reads h'"

lemma emit_accounts:
  assumes "emit_metrics_summary js nu ctx out sampler writer h = (Ok u, sampler', writer', ev, h')"
    and "baseline sampler base ctx h" and "mono (ho_instants h)"
  shows "baseline sampler' (metrics_counters (ctx_metrics ctx)) ctx h' \<and> reports_of ev = [] \<and>
    (\<exists>d. deltas_of ev = [d] \<and> adds_up base [d] (metrics_counters (ctx_metrics ctx))) \<and> same_clock h h'"
proof -
  let ?m = "metrics_counters (ctx_metrics ctx)" and ?now = "ho_instants h (ho_instant_reads h)"
  obtain snap t where base: "sampler = \<lparr>sp_previous = Some snap, sp_previous_sampled_at = Some t\<rparr>"
      "context_counters snap = base" "list_all2 (\<le>) base ?m" "\<forall>n \<ge> ho_instant_reads h. t \<le> ho_instants h n"
    using assms(2) by (auto simp: baseline_def)
  define cur where "cur = context_metrics_snapshot (ho_walls h (ho_wall_reads h)) ctx"
  have t: "t \<le> ?now" using base(4) by simp
  obtain d where d: "context_delta_since_duration cur snap (?now - t) = Some d"
    using context_deltas.delta_iff [of cur snap "?now - t"] base(2,3) by (auto simp: cur_def)
  note am = context_deltas.delta_amounts [OF d]
  have "unat (base ! k) + unat (context_amounts d ! k) = unat (?m ! k)" if "k < 6" for k
  proof -
    have len: "length base = 6" "length ?m = 6" using base(2) by (auto simp: context_counters_def metrics_counters_def)
    then have "base ! k \<le> ?m ! k" using base(3) that by (simp add: list_all2_conv_all_nth)
    then show ?thesis using am len that by (simp add: base(2) cur_def unat_sub word_le_nat_alt)
  qed
  then have up: "adds_up base [d] ?m" by (simp add: adds_up_def)
  have "sample_snapshot_at context_delta_since_duration cur ?now sampler =
      (Some d, \<lparr>sp_previous = Some cur, sp_previous_sampled_at = Some ?now\<rparr>)"
    using d t by (simp add: sample_snapshot_at_def base(1) duration_since_def)
  then have res: "sampler' = \<lparr>sp_previous = Some cur, sp_previous_sampled_at = Some ?now\<rparr>"
      "deltas_of ev = [d]" "reports_of ev = []" "ho_instants h' = ho_instants h" "ho_instant_reads h' = Suc (ho_instant_reads h)"
    using assms(1)
    by (auto simp: emit_metrics_summary_def wall_now_def instant_now_def cur_def Let_def split: option.splits prod.splits sum.splits)
  have "baseline sampler' ?m ctx h'"
    using res assms(3) by (auto simp: baseline_def cur_def list.rel_refl intro: monoD)
  with up res show ?thesis by auto
qed

text \<open>A successful send, as the counters see it.\<close>

definition counted_sends :: "context_metrics \<Rightarrow> send_report list \<Rightarrow> context_metrics \<Rightarrow> bool" where
  "counted_sends m reps m' \<longleftrightarrow>
     map unat (metrics_counters m') =
       map2 (+) (map unat (metrics_counters m))
         [0, 0, length reps, length reps, sum_list (map sr_bytes_sent reps), 0]"

text \<open>The counters have room for the sends.\<close>

definition room_for :: "context_metrics \<Rightarrow> send_report list \<Rightarrow> bool" where
  "room_for m reps \<longleftrightarrow>
     unat (cm_total_send_calls m) + length reps < 2 ^ 64 \<and> unat (cm_total_packets_sent m) + length reps < 2 ^ 64 \<and>
     unat (cm_total_bytes_sent m) + sum_list (map sr_bytes_sent reps) < 2 ^ 64"

lemma record_success_counted:
  assumes "room_for m (rep # reps)" and "m' = record_send_success (sr_bytes_sent rep) m"
  shows "counted_sends m [rep] m' \<and> room_for m' reps \<and> list_all2 (\<le>) (metrics_counters m) (metrics_counters m')"
proof -
  have add: "unat (x + of_nat n) = unat x + n" if "unat x + n < 2 ^ 64" for x :: u64 and n
    using that by (simp add: unat_word_ariths unsigned_of_nat take_bit_eq_mod)
  have one: "unat (x + 1) = unat x + 1" if "unat x + 1 < 2 ^ 64" for x :: u64
    using add [of x 1] that by simp
  have room: "unat (cm_total_send_calls m) + 1 < 2 ^ 64" "unat (cm_total_packets_sent m) + 1 < 2 ^ 64"
      "unat (cm_total_bytes_sent m) + sr_bytes_sent rep < 2 ^ 64"
    using assms(1) by (simp_all add: room_for_def)
  have m': "unat (cm_total_send_calls m') = unat (cm_total_send_calls m) + 1"
      "unat (cm_total_packets_sent m') = unat (cm_total_packets_sent m) + 1"
      "unat (cm_total_bytes_sent m') = unat (cm_total_bytes_sent m) + sr_bytes_sent rep"
      "cm_publications_added m' = cm_publications_added m" "cm_publications_removed m' = cm_publications_removed m"
      "cm_total_send_errors m' = cm_total_send_errors m"
    using one [OF room(1)] one [OF room(2)] add [OF room(3)]
    by (simp_all add: assms(2) record_send_success_def guarded_def Let_def)
  show ?thesis
    using assms(1) m' by (simp add: counted_sends_def room_for_def metrics_counters_def word_le_nat_alt)
qed

lemma counted_sends_append:
  "counted_sends m reps m1 \<Longrightarrow> counted_sends m1 reps' m2 \<Longrightarrow> counted_sends m (reps @ reps') m2"
  by (auto simp: counted_sends_def metrics_counters_def)

lemma baseline_grows:
  assumes "baseline sampler base ctx h" and "list_all2 (\<le>) (metrics_counters (ctx_metrics ctx)) (metrics_counters (ctx_metrics ctx'))"
    and "same_clock h h'"
  shows "baseline sampler base ctx' h'"
proof -
  have "list_all2 (\<le>) base (metrics_counters (ctx_metrics ctx))" using assms(1) by (auto simp: baseline_def)
  from list_all2_trans [OF _ this assms(2), of "(\<le>)"] have "list_all2 (\<le>) base (metrics_counters (ctx_metrics ctx'))" by auto
  then show ?thesis using assms(1,3) unfolding baseline_def by (metis order_trans)
qed

lemma list_all2_refl_le: "list_all2 (\<le>) xs (xs :: u64 list)"
  by (simp add: list.rel_refl)

lemma next_deadline_clock: "next_summary_deadline i h = (r, h') \<Longrightarrow> same_clock h h'"
  by (auto simp: next_summary_deadline_def instant_now_def)

text \<open>Summaries are no sends.\<close>

lemma emit_no_reports: "emit_metrics_summary js nu ctx out sampler writer h = (r, sampler', writer', ev, h') \<Longrightarrow> reports_of ev = []"
  by (auto simp: emit_metrics_summary_def Let_def split: option.splits prod.splits sum.splits)

lemma summary_no_reports:
  assumes "summary_if_due js nu interval out ctx st h = (r, st', ev, h')"
  shows "reports_of ev = []"
proof (cases "interval = None \<or> st_next_summary_at st = None")
  case True
  then show ?thesis using assms by (auto simp: summary_if_due_def split: option.splits)
next
  case False
  then obtain i t where it: "interval = Some i" "st_next_summary_at st = Some t" by auto
  obtain now h1 where n: "instant_now h = (now, h1)" by force
  obtain x s1 w1 e1 h2 where em: "emit_metrics_summary js nu ctx out (st_sampler st) (st_writer st) h1 = (x, s1, w1, e1, h2)"
    by (metis prod.collapse)
  obtain y h3 where nx: "next_summary_deadline i h2 = (y, h3)" by force
  show ?thesis
    using assms it n em nx emit_no_reports [OF em]
    by (cases x; cases y; cases "t \<le> now") (auto simp: summary_if_due_def)
qed

lemma summary_if_due_accounts:
  assumes "summary_if_due js nu interval out ctx st h = (Ok u, st', ev, h')"
    and "baseline (st_sampler st) base ctx h" and "mono (ho_instants h)"
  shows "reports_of ev = [] \<and> same_clock h h' \<and> (interval = None \<longrightarrow> deltas_of ev = []) \<and>
    (\<exists>base'. baseline (st_sampler st') base' ctx h' \<and> adds_up base (deltas_of ev) base')"
proof (cases "\<exists>i t. interval = Some i \<and> st_next_summary_at st = Some t \<and> t \<le> ho_instants h (ho_instant_reads h)")
  case False
  then have "st' = st" "ev = []" "same_clock h h'"
    using assms(1) by (auto simp: summary_if_due_def instant_now_def split: option.splits if_splits)
  with assms(2) baseline_grows [OF assms(2) list_all2_refl_le] show ?thesis using adds_up_Nil by auto
next
  case True
  then obtain i t where it: "interval = Some i" "st_next_summary_at st = Some t" "t \<le> ho_instants h (ho_instant_reads h)" by blast
  let ?h1 = "h\<lparr>ho_instant_reads := Suc (ho_instant_reads h)\<rparr>"
  obtain x s1 w1 e1 h2 where em: "emit_metrics_summary js nu ctx out (st_sampler st) (st_writer st) ?h1 = (x, s1, w1, e1, h2)"
    by (metis prod.collapse)
  have b1: "baseline (st_sampler st) base ctx ?h1" by (rule baseline_grows [OF assms(2) list_all2_refl_le]) simp
  obtain y h3 where nx: "next_summary_deadline i h2 = (y, h3)" by force
  have x: "\<exists>v. x = Inr v" "\<exists>v. y = Inr v" "st_sampler st' = s1" "ev = e1" "h' = h3"
    using assms(1) it em nx by (auto simp: summary_if_due_def instant_now_def split: sum.splits)
  with em obtain v where em': "emit_metrics_summary js nu ctx out (st_sampler st) (st_writer st) ?h1 = (Ok v, s1, w1, e1, h2)" by auto
  note acc = emit_accounts [OF em' b1] and clock = next_deadline_clock [OF nx]
  have b2: "baseline s1 (metrics_counters (ctx_metrics ctx)) ctx h3"
    by (rule baseline_grows [of _ _ ctx h2]) (use acc assms(3) clock list_all2_refl_le in auto)
  show ?thesis using acc assms(3) clock it x b2 by auto
qed

lemma send_loop_accounts:
  assumes "send_loop os js nu a i interval out k ctx st h = (Ok ctx', st', ev, h')"
    and "baseline (st_sampler st) base ctx h" and "mono (ho_instants h)"
    and "room_for (ctx_metrics ctx) (reports_of ev)"
  shows "length (reports_of ev) = k \<and> counted_sends (ctx_metrics ctx) (reports_of ev) (ctx_metrics ctx') \<and>
    same_clock h h' \<and> (interval = None \<longrightarrow> deltas_of ev = []) \<and>
    (\<exists>base'. baseline (st_sampler st') base' ctx' h' \<and> adds_up base (deltas_of ev) base')"
  using assms
proof (induction k arbitrary: ctx st h ev base)
  case 0
  then show ?case using adds_up_Nil by (auto simp: counted_sends_def metrics_counters_def)
next
  case (Suc k)
  obtain x ctx1 w1 where x: "context_send os i (as_bytes (sc_payload a)) ctx (ho_world h) = (x, ctx1, w1)" by (metis prod_cases3)
  from Suc.prems(1) x obtain rep where rep: "x = Ok rep" by (cases x) auto
  let ?h = "h\<lparr>ho_world := w1\<rparr>"
  obtain y st1 ev1 h1 where y: "summary_if_due js nu interval out ctx1 st ?h = (y, st1, ev1, h1)" by (metis prod_cases4)
  from Suc.prems(1) x rep y obtain v where v: "y = Ok v" by (cases y) (auto simp: Let_def)
  obtain z st2 ev3 h2 where z: "send_loop os js nu a i interval out k ctx1 st1 h1 = (z, st2, ev3, h2)" by (metis prod_cases4)
  define ev0 where "ev0 = [SendReturned rep] @ (if \<not> sc_quiet a then [SendPrinted rep] else [])"
  define ev2 where "ev2 = (if k > 0 \<and> sc_interval_ms a \<noteq> 0 then [SendSlept (sc_interval_ms a)] else [])"
  have res: "z = Ok ctx'" "st' = st2" "h' = h2" "ev = ev0 @ ev1 @ ev2 @ ev3"
    using Suc.prems(1) x rep y v z by (simp_all add: Let_def ev0_def ev2_def)
  have pure: "reports_of ev0 = [rep]" "deltas_of ev0 = []" "reports_of ev2 = []" "deltas_of ev2 = []"
    by (simp_all add: ev0_def ev2_def)
  have m1: "ctx_metrics ctx1 = record_send_success (sr_bytes_sent rep) (ctx_metrics ctx)"
    using x rep by (auto simp: context_send_def record_result_def split: option.splits prod.splits)
  have clk: "mono (ho_instants ?h)" using Suc.prems(3) by simp
  note reps1 = summary_no_reports [OF y]
  have "room_for (ctx_metrics ctx) (rep # reports_of ev3)" using Suc.prems(4) res(4) pure reps1 by simp
  note one = record_success_counted [OF this m1]
  have "baseline (st_sampler st) base ctx1 ?h"
    by (rule baseline_grows [OF Suc.prems(2)]) (use one in auto)
  from summary_if_due_accounts [OF y [unfolded v] this clk] obtain b1 where b1:
      "same_clock ?h h1" "interval = None \<longrightarrow> deltas_of ev1 = []"
      "baseline (st_sampler st1) b1 ctx1 h1" "adds_up base (deltas_of ev1) b1" by blast
  have "mono (ho_instants h1)" using b1(1) clk by simp
  moreover have "send_loop os js nu a i interval out k ctx1 st1 h1 = (Ok ctx', st', ev3, h')" using z res by simp
  ultimately have "length (reports_of ev3) = k \<and> counted_sends (ctx_metrics ctx1) (reports_of ev3) (ctx_metrics ctx') \<and>
      same_clock h1 h' \<and> (interval = None \<longrightarrow> deltas_of ev3 = []) \<and>
      (\<exists>base'. baseline (st_sampler st') base' ctx' h' \<and> adds_up b1 (deltas_of ev3) base')"
    using Suc.IH [OF _ b1(3)] one by blast
  then obtain b2 where b2:
      "length (reports_of ev3) = k" "counted_sends (ctx_metrics ctx1) (reports_of ev3) (ctx_metrics ctx')"
      "same_clock h1 h'" "interval = None \<longrightarrow> deltas_of ev3 = []"
      "baseline (st_sampler st') b2 ctx' h'" "adds_up b1 (deltas_of ev3) b2" by blast
  have "counted_sends (ctx_metrics ctx) ([rep] @ reports_of ev3) (ctx_metrics ctx')"
    by (rule counted_sends_append [OF conjunct1 [OF one] b2(2)])
  moreover have "adds_up base (deltas_of ev) b2"
    using adds_up_append [OF b1(4) b2(6)] by (simp add: res(4) pure)
  ultimately show ?case using b1 b2 res pure reps1 by auto
qed

text \<open>
  From the first sample on. The final summary is taken when summaries are asked for at all.
\<close>

lemma first_deadline_clock: "first_deadline interval h = (r, h') \<Longrightarrow> same_clock h h'"
  by (auto simp: first_deadline_def dest: next_deadline_clock split: option.splits prod.splits)

text \<open>A run that succeeds is a first sample, the loop and the last summary.\<close>

lemma send_run_cases:
  assumes "send_run os js nu a i interval out ctx h = (Ok u, ev, h')" and "mono (ho_instants h)"
  obtains next_at sampler h3 ctx1 st ev1 h4 v ev2 where
    "send_loop os js nu a i interval out (unat (sc_count a)) ctx
       \<lparr>st_sampler = sampler, st_writer = None, st_next_summary_at = next_at\<rparr> h3 = (Ok ctx1, st, ev1, h4)"
    "baseline sampler (metrics_counters (ctx_metrics ctx)) ctx h3" "mono (ho_instants h3)"
    "last_summary js nu interval out ctx1 st h4 = (Ok v, ev2, h')" "ev = ev1 @ ev2" "ho_disk h3 = ho_disk h"
proof -
  let ?wall = "ho_walls h (ho_wall_reads h)" and ?now = "ho_instants h (ho_instant_reads h)"
  define h2 where "h2 = h\<lparr>ho_wall_reads := Suc (ho_wall_reads h), ho_instant_reads := Suc (ho_instant_reads h)\<rparr>"
  define sampler where "sampler = \<lparr>sp_previous = Some (context_metrics_snapshot ?wall ctx), sp_previous_sampled_at = Some ?now\<rparr>"
  have first: "wall_now h = (?wall, h\<lparr>ho_wall_reads := Suc (ho_wall_reads h)\<rparr>)"
      "instant_now (h\<lparr>ho_wall_reads := Suc (ho_wall_reads h)\<rparr>) = (?now, h2)"
      "context_sample ctx ?wall ?now sampler_new = (None, sampler)"
    by (simp_all add: wall_now_def instant_now_def h2_def context_sample_def sample_snapshot_at_def sampler_new_def sampler_def)
  obtain q h3 where q: "first_deadline interval h2 = (q, h3)" by (rule prod.exhaust)
  obtain next_at where next_at: "q = Ok next_at" using assms(1) first q by (cases q) (simp_all add: send_run_def)
  let ?st = "\<lparr>st_sampler = sampler, st_writer = None, st_next_summary_at = next_at\<rparr>"
  obtain z st ev1 h4 where z: "send_loop os js nu a i interval out (unat (sc_count a)) ctx ?st h3 = (z, st, ev1, h4)"
    by (metis prod_cases4)
  obtain ctx1 where ctx1: "z = Ok ctx1" using assms(1) first q next_at z by (cases z) (simp_all add: send_run_def)
  obtain r ev2 h5 where l: "last_summary js nu interval out ctx1 st h4 = (r, ev2, h5)" by (metis prod_cases3)
  have res: "r = Ok u" "ev = ev1 @ ev2" "h5 = h'"
    using assms(1) first q next_at z ctx1 l by (simp_all add: send_run_def)
  have clk: "same_clock h2 h3" by (rule first_deadline_clock [OF q])
  have base: "baseline sampler (metrics_counters (ctx_metrics ctx)) ctx h3"
    using assms(2) clk list_all2_refl_le by (auto simp: baseline_def sampler_def h2_def intro: monoD)
  have "mono (ho_instants h3)" using assms(2) clk by (simp add: h2_def)
  moreover have "ho_disk h3 = ho_disk h"
    using q by (auto simp: first_deadline_def next_summary_deadline_def instant_now_def h2_def split: option.splits)
  ultimately show thesis using that z ctx1 l res base by blast
qed

lemma send_run_accounts:
  assumes "send_run os js nu a i interval out ctx h = (Ok u, ev, h')" and "mono (ho_instants h)"
    and "room_for (ctx_metrics ctx) (reports_of ev)"
  shows "length (reports_of ev) = unat (sc_count a) \<and>
    (if interval = None \<and> out = None then deltas_of ev = []
     else \<exists>m. counted_sends (ctx_metrics ctx) (reports_of ev) m \<and>
       adds_up (metrics_counters (ctx_metrics ctx)) (deltas_of ev) (metrics_counters m))"
proof (rule send_run_cases [OF assms(1,2)])
  fix next_at sampler h3 ctx1 st ev1 h4 v ev2
  assume loop: "send_loop os js nu a i interval out (unat (sc_count a)) ctx
       \<lparr>st_sampler = sampler, st_writer = None, st_next_summary_at = next_at\<rparr> h3 = (Ok ctx1, st, ev1, h4)"
    and base: "baseline sampler (metrics_counters (ctx_metrics ctx)) ctx h3" and clk: "mono (ho_instants h3)"
    and last: "last_summary js nu interval out ctx1 st h4 = (Ok v, ev2, h')" and ev: "ev = ev1 @ ev2"
  have reps: "reports_of ev2 = []"
    using last emit_no_reports by (fastforce simp: last_summary_def split: if_splits prod.splits)
  with assms(3) ev have room: "room_for (ctx_metrics ctx) (reports_of ev1)" by simp
  have "baseline (st_sampler \<lparr>st_sampler = sampler, st_writer = None, st_next_summary_at = next_at\<rparr>)
      (metrics_counters (ctx_metrics ctx)) ctx h3" using base by simp
  from send_loop_accounts [OF loop this clk room] obtain b1 where acc:
      "length (reports_of ev1) = unat (sc_count a)" "counted_sends (ctx_metrics ctx) (reports_of ev1) (ctx_metrics ctx1)"
      "same_clock h3 h4" "interval = None \<longrightarrow> deltas_of ev1 = []" "baseline (st_sampler st) b1 ctx1 h4"
      "adds_up (metrics_counters (ctx_metrics ctx)) (deltas_of ev1) b1" by blast
  show ?thesis
  proof (cases "interval = None \<and> out = None")
    case True
    then show ?thesis using last acc ev by (simp add: last_summary_def)
  next
    case False
    then obtain x s2 w2 h5 where em: "emit_metrics_summary js nu ctx1 out (st_sampler st) (st_writer st) h4 = (Ok x, s2, w2, ev2, h5)"
      using last by (auto simp: last_summary_def split: prod.splits sum.splits)
    have "mono (ho_instants h4)" using acc(3) clk by simp
    from emit_accounts [OF em acc(5) this] obtain d where
        "deltas_of ev2 = [d]" "adds_up b1 [d] (metrics_counters (ctx_metrics ctx1))" by blast
    with adds_up_append [OF acc(6)] acc(1,2) reps ev False show ?thesis by auto
  qed
qed

text \<open>Each turn of the loop is one send.\<close>

lemma send_loop_length:
  assumes "send_loop os js nu a i interval out k ctx st h = (Ok ctx', st', ev, h')"
  shows "length (reports_of ev) = k"
  using assms
proof (induction k arbitrary: ctx st h ev)
  case (Suc k)
  obtain x ctx1 w1 where x: "context_send os i (as_bytes (sc_payload a)) ctx (ho_world h) = (x, ctx1, w1)" by (metis prod_cases3)
  obtain y st1 ev1 h1 where y: "summary_if_due js nu interval out ctx1 st (h\<lparr>ho_world := w1\<rparr>) = (y, st1, ev1, h1)" by (metis prod_cases4)
  obtain z st2 ev3 h2 where z: "send_loop os js nu a i interval out k ctx1 st1 h1 = (z, st2, ev3, h2)" by (metis prod_cases4)
  from Suc.prems x y z obtain rep v where "x = Ok rep" "y = Ok v" by (cases x; cases y) (auto simp: Let_def)
  with Suc.prems x y z Suc.IH [of ctx1 st1 h1 ev3] summary_no_reports [OF y] show ?case by (auto simp: Let_def)
qed simp

lemma send_run_length:
  assumes "send_run os js nu a i interval out ctx h = (Ok u, ev, h')" and "mono (ho_instants h)"
  shows "length (reports_of ev) = unat (sc_count a)"
proof (rule send_run_cases [OF assms])
  fix next_at sampler h3 ctx1 st ev1 h4 v ev2
  assume loop: "send_loop os js nu a i interval out (unat (sc_count a)) ctx
       \<lparr>st_sampler = sampler, st_writer = None, st_next_summary_at = next_at\<rparr> h3 = (Ok ctx1, st, ev1, h4)"
    and last: "last_summary js nu interval out ctx1 st h4 = (Ok v, ev2, h')" and ev: "ev = ev1 @ ev2"
  have "reports_of ev2 = []"
    using last emit_no_reports by (fastforce simp: last_summary_def split: if_splits prod.splits)
  with send_loop_length [OF loop] ev show ?thesis by simp
qed

lemma first_publication_counters:
  assumes "add_publication os c context_new w = (Ok i, ctx, w')"
  shows "metrics_counters (ctx_metrics ctx) = [1, 0, 0, 0, 0, 0]"
  using assms
  by (auto simp: add_publication_def add_with_def context_new_def context_metrics_default_def insert_publication_def
      next_publication_id_def guarded_def metrics_counters_def Let_def split: sum.splits prod.splits if_splits option.splits)

text \<open>What the summaries of a run add up to, counter by counter.\<close>

definition summed :: "(context_delta \<Rightarrow> u64) \<Rightarrow> send_tool_event list \<Rightarrow> nat" where
  "summed f ev = sum_list (map (\<lambda>d. unat (f d)) (deltas_of ev))"

text \<open>
  C18. A run of the sender tool that succeeds has made as many sends as asked for, and when summaries
  are wanted, at intervals, in a file or both, the differences they report add up to exactly those
  sends and their bytes, with no failed send and no publication added or removed since the
  first sample: nothing is reported twice or missed between two summaries. When no summary
  is wanted none is made.
\<close>

theorem send_main_accounts:
  assumes "send_main os js nu env args h = (Ok u, ev, h')" and "mono (ho_instants h)"
    and "sum_list (map sr_bytes_sent (reports_of ev)) < 2 ^ 64"
  shows "\<exists>a config interval out. parse_send_cli_args args = Ok a \<and> build_config a = Ok config \<and>
    summary_interval_from_env env = Ok interval \<and> summary_output_from_env js nu env a config = Ok out \<and>
    length (reports_of ev) = unat (sc_count a) \<and>
    (if interval = None \<and> out = None then deltas_of ev = []
     else summed cd_send_calls ev = unat (sc_count a) \<and> summed cd_packets_sent ev = unat (sc_count a) \<and>
       summed cd_bytes_sent ev = sum_list (map sr_bytes_sent (reports_of ev)) \<and>
       summed cd_send_errors ev = 0 \<and> summed cd_publications_added ev = 0 \<and> summed cd_publications_removed ev = 0)"
proof -
  from assms(1) obtain a config i ctx w1 interval out where run:
      "parse_send_cli_args args = Ok a" "build_config a = Ok config"
      "add_publication os config context_new (ho_world h) = (Ok i, ctx, w1)"
      "summary_interval_from_env env = Ok interval" "summary_output_from_env js nu env a config = Ok out"
      "send_run os js nu a i interval out ctx (h\<lparr>ho_world := w1\<rparr>) = (Ok u, ev, h')"
    by (auto simp: send_main_def mctx_result idx_def split: sum.splits prod.splits if_splits)
  have clk: "mono (ho_instants (h\<lparr>ho_world := w1\<rparr>))" using assms(2) by simp
  note len = send_run_length [OF run(6) clk]
  note start = first_publication_counters [OF run(3)]
  have "unat (sc_count a) < 2 ^ 64" using unsigned_less [of "sc_count a"] by simp
  then have "room_for (ctx_metrics ctx) (reports_of ev)"
    using start len assms(3) by (simp add: room_for_def metrics_counters_def)
  note acc = send_run_accounts [OF run(6) clk this]
  show ?thesis
  proof (cases "interval = None \<and> out = None")
    case True
    then show ?thesis using acc run by auto
  next
    case False
    then obtain m where m: "counted_sends (ctx_metrics ctx) (reports_of ev) m"
        "adds_up [1, 0, 0, 0, 0, 0] (deltas_of ev) (metrics_counters m)" using acc start by auto
    have total: "map unat (metrics_counters m) = [1, 0, unat (sc_count a), unat (sc_count a), sum_list (map sr_bytes_sent (reports_of ev)), 0]"
      using m(1) start len by (simp add: counted_sends_def)
    have "length (metrics_counters m) = 6" by (simp add: metrics_counters_def)
    then have "unat ([1, 0, 0, 0, 0, 0 :: u64] ! k) + summed (\<lambda>d. context_amounts d ! k) ev = map unat (metrics_counters m) ! k"
      if "k < 6" for k
      using m(2) that by (simp add: adds_up_def summed_def)
    from this [of 0] this [of 1] this [of 2] this [of 3] this [of 4] this [of 5]
    have "summed cd_send_calls ev = unat (sc_count a) \<and> summed cd_packets_sent ev = unat (sc_count a) \<and>
       summed cd_bytes_sent ev = sum_list (map sr_bytes_sent (reports_of ev)) \<and>
       summed cd_send_errors ev = 0 \<and> summed cd_publications_added ev = 0 \<and> summed cd_publications_removed ev = 0"
      unfolding total by (simp add: context_amounts_def summed_def)
    with run len False show ?thesis by auto
  qed
qed

text \<open>Summaries that are printed do not fail while the clock is far from its limit.\<close>

definition far_clock :: "nat \<Rightarrow> 'w host \<Rightarrow> bool" where
  "far_clock i h \<longleftrightarrow> (\<forall>n. ho_instants h n + i < ho_instant_limit h)"

lemma emit_prints:
  "\<exists>s ev h'. emit_metrics_summary js nu ctx None sampler writer h = (Ok (), s, writer, ev, h') \<and> reports_of ev = [] \<and>
     ho_world h' = ho_world h \<and> far_clock i h' = far_clock i h"
  by (auto simp: emit_metrics_summary_def wall_now_def instant_now_def far_clock_def Let_def split: prod.split option.split)

lemma deadline_found:
  "far_clock i h \<Longrightarrow> \<exists>t h'. next_summary_deadline i h = (Ok t, h') \<and> ho_world h' = ho_world h \<and> far_clock i h'"
  by (simp add: next_summary_deadline_def instant_now_def far_clock_def)

lemma summary_if_due_prints:
  assumes "far_clock i h"
  shows "\<exists>st' ev h'. summary_if_due js nu (Some i) None ctx st h = (Ok (), st', ev, h') \<and> reports_of ev = [] \<and>
    ho_world h' = ho_world h \<and> far_clock i h'"
proof -
  let ?h = "h\<lparr>ho_instant_reads := Suc (ho_instant_reads h)\<rparr>"
  have far: "far_clock i ?h" using assms by (simp add: far_clock_def)
  obtain s w e h1 where em: "emit_metrics_summary js nu ctx None (st_sampler st) (st_writer st) ?h = (Ok (), s, w, e, h1)"
      "reports_of e = []" "ho_world h1 = ho_world h" "far_clock i h1"
    using emit_prints [of js nu ctx "st_sampler st" "st_writer st" ?h i] far by auto
  obtain t h2 where "next_summary_deadline i h1 = (Ok t, h2)" "ho_world h2 = ho_world h" "far_clock i h2"
    using deadline_found [OF em(4)] em(3) by auto
  with em far assms show ?thesis by (auto simp: summary_if_due_def instant_now_def split: option.split)
qed

text \<open>The sends of the tool alone.\<close>

fun repeated_send ::
  "('w, 's) os_api \<Rightarrow> u64 \<Rightarrow> bytes \<Rightarrow> nat \<Rightarrow> 's mctx_context \<Rightarrow> 'w \<Rightarrow> send_report list option" where
  "repeated_send os i b 0 ctx w = Some []"
| "repeated_send os i b (Suc k) ctx w =
     (case context_send os i b ctx w of
        (Inl e, ctx1, w1) \<Rightarrow> None
      | (Inr rep, ctx1, w1) \<Rightarrow> map_option ((#) rep) (repeated_send os i b k ctx1 w1))"

lemma send_loop_prints:
  assumes "repeated_send os i (as_bytes (sc_payload a)) k ctx (ho_world h) = Some reps" and "far_clock ival h"
  shows "\<exists>ctx' st' ev h'. send_loop os js nu a i (Some ival) None k ctx st h = (Ok ctx', st', ev, h') \<and>
    reports_of ev = reps \<and> far_clock ival h'"
  using assms
proof (induction k arbitrary: ctx st h reps)
  case (Suc k)
  obtain x ctx1 w1 where x: "context_send os i (as_bytes (sc_payload a)) ctx (ho_world h) = (x, ctx1, w1)" by (metis prod_cases3)
  with Suc.prems(1) obtain rep reps1 where rep: "x = Ok rep" "repeated_send os i (as_bytes (sc_payload a)) k ctx1 w1 = Some reps1"
      "reps = rep # reps1" by (cases x) auto
  have "far_clock ival (h\<lparr>ho_world := w1\<rparr>)" using Suc.prems(2) by (simp add: far_clock_def)
  from summary_if_due_prints [OF this] obtain st1 ev1 h1 where due:
      "summary_if_due js nu (Some ival) None ctx1 st (h\<lparr>ho_world := w1\<rparr>) = (Ok (), st1, ev1, h1)" "reports_of ev1 = []"
      "ho_world h1 = w1" "far_clock ival h1" by force
  from Suc.IH [of ctx1 h1 reps1 st1] rep due obtain ctx2 st2 ev2 h2 where
      "send_loop os js nu a i (Some ival) None k ctx1 st1 h1 = (Ok ctx2, st2, ev2, h2)" "reports_of ev2 = reps1" "far_clock ival h2" by auto
  with x rep due show ?case by (simp add: Let_def)
qed simp

lemma send_run_prints:
  assumes "repeated_send os i (as_bytes (sc_payload a)) (unat (sc_count a)) ctx (ho_world h) = Some reps" and "far_clock ival h"
  shows "\<exists>ev h'. send_run os js nu a i (Some ival) None ctx h = (Ok (), ev, h') \<and> reports_of ev = reps"
proof -
  define h2 where "h2 = h\<lparr>ho_wall_reads := Suc (ho_wall_reads h), ho_instant_reads := Suc (ho_instant_reads h)\<rparr>"
  obtain s where s: "snd (context_sample ctx (ho_walls h (ho_wall_reads h)) (ho_instants h (ho_instant_reads h)) sampler_new) = s"
    by blast
  have "far_clock ival h2" using assms(2) by (simp add: far_clock_def h2_def)
  from deadline_found [OF this] obtain t h3 where t: "next_summary_deadline ival h2 = (Ok t, h3)" "ho_world h3 = ho_world h" "far_clock ival h3"
    by (auto simp: h2_def)
  from send_loop_prints [of os i a "unat (sc_count a)" ctx h3 reps ival js nu "\<lparr>st_sampler = s, st_writer = None, st_next_summary_at = Some t\<rparr>"]
    assms(1) t obtain ctx1 st ev h4 where loop:
      "send_loop os js nu a i (Some ival) None (unat (sc_count a)) ctx \<lparr>st_sampler = s, st_writer = None, st_next_summary_at = Some t\<rparr> h3 =
        (Ok ctx1, st, ev, h4)" "reports_of ev = reps" by auto
  obtain s2 ev2 h5 where "emit_metrics_summary js nu ctx1 None (st_sampler st) (st_writer st) h4 = (Ok (), s2, st_writer st, ev2, h5)"
      "reports_of ev2 = []" using emit_prints [of js nu ctx1 "st_sampler st" "st_writer st" h4 ival] by auto
  with loop t s show ?thesis
    by (cases "context_sample ctx (ho_walls h (ho_wall_reads h)) (ho_instants h (ho_instant_reads h)) sampler_new")
      (simp add: send_run_def wall_now_def instant_now_def first_deadline_def last_summary_def h2_def)
qed

text \<open>A run with two sends and a summary every second, on a clock that advances by six tenths with each reading.\<close>

definition clock_env :: environment where
  "clock_env = (\<lambda>k. if k = ''MCTX_METRICS_SUMMARY_SECS'' then Ok ''1'' else Err NotPresent)"

definition sample_host :: "device host" where
  "sample_host = \<lparr>ho_world = device_start 2, ho_disk = sample_disk [], ho_instants = (\<lambda>n. min n 10 * 600000000),
     ho_instant_reads = 0, ho_walls = (\<lambda>n. n), ho_wall_reads = 0, ho_instant_limit = 10 ^ 18\<rparr>"

definition sample_run_args :: "string list" where
  "sample_run_args = [''mctx_send'', ''239.1.2.3'', ''5000'', ''hello'', ''2'', ''--quiet'']"

lemma clock_interval: "summary_interval_from_env clock_env = Ok (Some 1000000000)"
proof -
  have "trim ''1'' = ''1''" "(parse_int_text ''1'' :: string + u64) = Ok 1" by code_simp+
  then show ?thesis by (simp add: summary_interval_from_env_def clock_env_def parse_summary_interval_def)
qed

lemma sample_run:
  "\<exists>ev h'. send_main device_os sample_json sample_nums clock_env sample_run_args sample_host = (Ok (), ev, h') \<and>
     map sr_bytes_sent (reports_of ev) = [5, 5]"
proof -
  define a where "a = sample_cli\<lparr>sc_quiet := True\<rparr>"
  define r where "r = add_publication device_os (requested_config a) context_new (device_start 2)"
  have parse: "parse_send_cli_args sample_run_args = Ok a" "build_config a = Ok (requested_config a)"
    unfolding a_def by code_simp+
  have out: "summary_output_from_env sample_json sample_nums clock_env a c = Ok None" for c
    by (simp add: summary_output_from_env_def summary_file_from_env_def clock_env_def)
  define reps where "reps = repeated_send device_os 1 (as_bytes (sc_payload a)) (unat (sc_count a)) (fst (snd r)) (snd (snd r))"
  have "fst r = Ok 1" "map_option (map sr_bytes_sent) reps = Some [5, 5]"
    unfolding reps_def r_def a_def by code_simp+
  then obtain ctx w rs where r: "r = (Ok 1, ctx, w)" "reps = Some rs" "map sr_bytes_sent rs = [5, 5]" by (cases r) auto
  have "far_clock 1000000000 (sample_host\<lparr>ho_world := w\<rparr>)" by (auto simp: far_clock_def sample_host_def min_def)
  from send_run_prints [OF _ this, of device_os 1 a ctx rs sample_json sample_nums] r
  have "\<exists>ev h'. send_run device_os sample_json sample_nums a 1 (Some 1000000000) None ctx (sample_host\<lparr>ho_world := w\<rparr>) = (Ok (), ev, h') \<and>
     map sr_bytes_sent (reports_of ev) = [5, 5]" by (auto simp: reps_def)
  with parse clock_interval out r show ?thesis
    by (simp add: send_main_def r_def sample_host_def)
qed

theorem send_main_accounts_witness:
  "\<exists>ev h'. send_main device_os sample_json sample_nums clock_env sample_run_args sample_host = (Ok (), ev, h') \<and>
     summed cd_packets_sent ev = 2 \<and> summed cd_bytes_sent ev = 10 \<and> mono (ho_instants sample_host)"
proof -
  obtain ev h' where run: "send_main device_os sample_json sample_nums clock_env sample_run_args sample_host = (Ok (), ev, h')"
      "map sr_bytes_sent (reports_of ev) = [5, 5]" using sample_run by (elim exE conjE)
  have clk: "mono (ho_instants sample_host)" by (auto simp: sample_host_def mono_def min_def)
  have parse: "parse_send_cli_args sample_run_args = Ok (sample_cli\<lparr>sc_quiet := True\<rparr>)" by code_simp
  from send_main_accounts [OF run(1) clk] run(2) clock_interval parse show ?thesis
    by (auto simp: run(1) clk sample_cli_def)
qed

end
