(* ===== verification/Send_Files.thy ===== *)
theory Send_Files
  imports Send_Cli_Facts
begin

text \<open>
  The metrics file of a run of the sender tool: the tool (\<open>src/bin/mctx_send.rs\<close>) on top of the metrics
  files (\<open>src/jsonl.rs\<close>). Every run, also one that fails, is a run of the file operations, and what the
  file gains is a header at most once and one row per summary.
\<close>

section \<open>What the operations add to a file\<close>

definition content :: "disk \<Rightarrow> path \<Rightarrow> string" where
  "content d p = (case dk_files d p of Some s \<Rightarrow> s | None \<Rightarrow> [])"

text \<open>
  An operation that adds one of the given texts to the file when it succeeds and nothing when it fails, and
  touches no other file, as long as failing calls have no effect.
\<close>

definition gains :: "path \<Rightarrow> (disk, io_error, 'a) io \<Rightarrow> string set \<Rightarrow> bool" where
  "gains p m T \<longleftrightarrow> (\<forall>d r d'. atomic_faults d \<longrightarrow> m d = (r, d') \<longrightarrow>
     dk_fault d' = dk_fault d \<and> (\<forall>q. q \<noteq> p \<longrightarrow> dk_files d' q = dk_files d q) \<and>
     (case r of Inl _ \<Rightarrow> content d' p = content d p | Inr _ \<Rightarrow> \<exists>t \<in> T. content d' p = content d p @ t))"

lemma gainsD:
  "gains p m T \<Longrightarrow> atomic_faults d \<Longrightarrow> m d = (r, d') \<Longrightarrow>
   dk_fault d' = dk_fault d \<and> (\<forall>q. q \<noteq> p \<longrightarrow> dk_files d' q = dk_files d q) \<and>
   (case r of Inl _ \<Rightarrow> content d' p = content d p | Inr _ \<Rightarrow> \<exists>t \<in> T. content d' p = content d p @ t)"
  unfolding gains_def by blast

lemma gains_then:
  assumes "gains p m {[]}" and "\<And>x. gains p (f x) T"
  shows "gains p (io_then m f) T"
  unfolding gains_def
proof (intro allI impI)
  fix d r d' assume ok: "atomic_faults d" and run: "io_then m f d = (r, d')"
  obtain r1 d1 where m: "m d = (r1, d1)" by (rule prod.exhaust)
  note one = gainsD [OF assms(1) ok m]
  show "dk_fault d' = dk_fault d \<and> (\<forall>q. q \<noteq> p \<longrightarrow> dk_files d' q = dk_files d q) \<and>
     (case r of Inl _ \<Rightarrow> content d' p = content d p | Inr _ \<Rightarrow> \<exists>t \<in> T. content d' p = content d p @ t)"
  proof (cases r1)
    case (Inl e)
    then show ?thesis using one run m by auto
  next
    case (Inr x)
    then have f: "f x d1 = (r, d')" using run m by simp
    have "atomic_faults d1" using ok one by (simp add: atomic_faults_def)
    from gainsD [OF assms(2) this f] one Inr show ?thesis by (simp split: sum.splits)
  qed
qed

lemma gains_simple:
  "[] \<in> T \<Longrightarrow> gains p (io_return x) T" "gains p (io_raise e) T" "[] \<in> T \<Longrightarrow> gains p (io_res m) T"
  by (auto simp: gains_def split: sum.splits)

lemma gains_calls:
  "gains p (fs_create_dir_all q) {[]}" "gains p (fs_open_append p) {[]}" "gains p fs_seek_start {[]}"
  "gains p (fs_read_lines p) {[]}" "gains p (io_sys conv (fs_try_lock p)) {[]}"
  by (auto simp: gains_def fs_defs io_sys_def content_def Let_def split: option.splits if_splits)

lemma gains_closing: "gains p m T \<Longrightarrow> gains p (closing p m) T"
  unfolding gains_def closing_def fs_unlock_def content_def by (fastforce split: prod.splits sum.splits)

text \<open>The line a value is written as.\<close>

definition row_text :: "'n json_api \<Rightarrow> 'n json \<Rightarrow> string" where
  "row_text js v = (case js_to_vec js v of Inr line \<Rightarrow> line @ [CHR 0x0A] | Inl _ \<Rightarrow> [])"

lemma gains_write: "gains p (write_json_line js p v) {row_text js v}"
proof (cases "js_to_vec js v")
  case (Inl e)
  then show ?thesis by (simp add: write_json_line_def gains_simple)
next
  case (Inr line)
  then show ?thesis
    by (fastforce simp: gains_def write_json_line_def row_text_def content_def fs_defs atomic_faults_def Let_def
        split: option.splits)
qed

lemma gains_mono: "gains p m T \<Longrightarrow> T \<subseteq> T' \<Longrightarrow> gains p m T'"
  unfolding gains_def by (fastforce split: sum.splits)

lemma gains_settle: "gains p (settle_header js p header existing) {[], row_text js header}"
  using gains_mono [OF gains_write [of p js header], of "{[], row_text js header}"]
  by (auto simp: settle_header_def gains_simple split: option.split)

lemma gains_open: "gains p (open_jsonl_append_file js p header) {[], row_text js header}"
proof -
  have "gains p (check_or_write_header js p header) {[], row_text js header}"
    unfolding check_or_write_header_def
    by (intro gains_then gains_calls gains_settle) (simp add: gains_simple)
  moreover have "gains p (case path_parent p of Some parent \<Rightarrow> io_when (parent \<noteq> []) (fs_create_dir_all parent) | None \<Rightarrow> io_return ()) {[]}"
    by (auto simp: io_when_def gains_simple gains_calls split: option.split)
  ultimately show ?thesis
    unfolding open_jsonl_append_file_def
    by (auto intro!: gains_then gains_calls gains_closing simp: gains_simple split: sum.split)
qed

lemma writer_open_gains:
  assumes "writer_open js p header d = (r, d')" and "atomic_faults d"
  shows "dk_fault d' = dk_fault d \<and> (\<forall>q. q \<noteq> p \<longrightarrow> dk_files d' q = dk_files d q) \<and>
    (case r of Inl _ \<Rightarrow> content d' p = content d p
     | Inr w \<Rightarrow> w = p \<and> (\<exists>t \<in> {[], row_text js header}. content d' p = content d p @ t))"
proof -
  obtain q d1 where q: "open_jsonl_append_file js p header d = (q, d1)" by (rule prod.exhaust)
  with assms(1) have "d' = d1" "r = (case q of Inl e \<Rightarrow> Inl e | Inr _ \<Rightarrow> Inr p)" by (cases q; simp add: writer_open_def)+
  with gainsD [OF gains_open assms(2) q] show ?thesis by (cases q) auto
qed

lemma append_row_gains: "gains p (append_sample_row js p sample) {row_text js sample}"
  unfolding append_sample_row_def by (intro gains_then gains_write) (simp add: gains_simple)

section \<open>The tool\<close>

text \<open>The rows of the summaries written, in order.\<close>

fun written_rows :: "'n json_api \<Rightarrow> 'n num_api \<Rightarrow> send_tool_event list \<Rightarrow> string" where
  "written_rows js nu [] = []"
| "written_rows js nu (SummaryWritten snapshot delta # ev) = row_text js (summary_sample js nu snapshot delta) @ written_rows js nu ev"
| "written_rows js nu (_ # ev) = written_rows js nu ev"

lemma written_rows_append [simp]: "written_rows js nu (ev @ ev') = written_rows js nu ev @ written_rows js nu ev'"
  by (induction js nu ev rule: written_rows.induct) simp_all

text \<open>What the tool hands to the writer.\<close>

definition summary_values :: "'n json_api \<Rightarrow> 'n num_api \<Rightarrow> 'n jsonl_output \<Rightarrow> 'n json set" where
  "summary_values js nu out =
     range (\<lambda>(snapshot, delta). summary_sample js nu snapshot delta) \<union> range (\<lambda>snapshot. summary_header js snapshot out)"

text \<open>
  Since the disk \<open>d0\<close> at the start of the run: without a writer nothing has been written; with one the file has
  gained at most a header, and the rows of the summaries.
\<close>

definition tool_file ::
  "'n json_api \<Rightarrow> 'n num_api \<Rightarrow> 'n jsonl_output \<Rightarrow> disk \<Rightarrow> path option \<Rightarrow> send_tool_event list \<Rightarrow> disk \<Rightarrow> bool" where
  "tool_file js nu out d0 writer ev d \<longleftrightarrow>
     jsonl_run js (summary_values js nu out) d0 d (opt_list writer) \<and>
     dk_fault d = dk_fault d0 \<and> (\<forall>q. q \<noteq> jo_network_path out \<longrightarrow> dk_files d q = dk_files d0 q) \<and>
     (case writer of
        None \<Rightarrow> written_rows js nu ev = [] \<and> content d (jo_network_path out) = content d0 (jo_network_path out)
      | Some p \<Rightarrow> p = jo_network_path out \<and>
          (\<exists>snapshot. \<exists>t \<in> {[], row_text js (summary_header js snapshot out)}.
             content d p = content d0 p @ t @ written_rows js nu ev))"

lemma tool_file_start: "tool_file js nu out d None [] d"
  by (simp add: tool_file_def run_start)

text \<open>A row through an open writer.\<close>

lemma append_tool_file:
  assumes inv: "tool_file js nu out d0 (Some p) ev d" and faults: "atomic_faults d0"
    and run: "append_sample_row js p (summary_sample js nu snapshot delta) d = (r, d')"
  shows "tool_file js nu out d0 (Some p) (ev @ (if is_ok r then [SummaryWritten snapshot delta] else [])) d'"
proof -
  have "atomic_faults d" using inv faults by (simp add: tool_file_def atomic_faults_def)
  note step = gainsD [OF append_row_gains this run]
  have "jsonl_run js (summary_values js nu out) d0 d' [p]"
    by (rule run_append [OF _ _ _ run]) (use inv in \<open>auto simp: tool_file_def summary_values_def\<close>)
  with inv step show ?thesis by (cases r) (auto simp: tool_file_def)
qed

lemma write_tool_file:
  assumes inv: "tool_file js nu out d0 writer ev d" and faults: "atomic_faults d0"
    and run: "write_metrics_summary_jsonl js nu snapshot delta out writer d = (r, writer', d')"
  shows "tool_file js nu out d0 writer' (ev @ (if is_ok r then [SummaryWritten snapshot delta] else [])) d'"
proof (cases writer)
  case (Some p)
  obtain q d1 where q: "append_sample_row js p (summary_sample js nu snapshot delta) d = (q, d1)" by (rule prod.exhaust)
  with Some run have "r = q" "writer' = Some p" "d' = d1" by (simp_all add: write_metrics_summary_jsonl_def)
  then show ?thesis using append_tool_file [OF _ faults q] inv Some by simp
next
  case None
  let ?p = "jo_network_path out" and ?h = "summary_header js snapshot out"
  obtain q d1 where q: "writer_open js ?p ?h d = (q, d1)" by (rule prod.exhaust)
  have fd: "atomic_faults d" using inv faults by (simp add: tool_file_def atomic_faults_def)
  note one = writer_open_gains [OF q fd]
  have "jsonl_run js (summary_values js nu out) d0 d1 (case q of Inr w \<Rightarrow> w # [] | Inl _ \<Rightarrow> [])"
    by (rule run_open [OF _ _ q]) (use inv None in \<open>auto simp: tool_file_def summary_values_def\<close>)
  with inv None one have opened: "tool_file js nu out d0 (case q of Inr _ \<Rightarrow> Some ?p | Inl _ \<Rightarrow> None) ev d1"
    by (cases q) (auto simp: tool_file_def)
  show ?thesis
  proof (cases q)
    case (Inl e)
    then show ?thesis using run None q opened by (auto simp: write_metrics_summary_jsonl_def)
  next
    case (Inr w)
    then have w: "w = ?p" using one by simp
    obtain z d2 where z: "append_sample_row js ?p (summary_sample js nu snapshot delta) d1 = (z, d2)" by (rule prod.exhaust)
    have "r = z" "writer' = Some ?p" "d' = d2" using run None q Inr w z by (simp_all add: write_metrics_summary_jsonl_def)
    then show ?thesis using append_tool_file [OF _ faults z] opened Inr by simp
  qed
qed

text \<open>The steps of the tool, each of which may fail.\<close>

lemma emit_tool_file:
  assumes "tool_file js nu out d0 writer ev0 (ho_disk h)" and "atomic_faults d0"
    and "emit_metrics_summary js nu ctx (Some out) sampler writer h = (r, sampler', writer', ev, h')"
  shows "tool_file js nu out d0 writer' (ev0 @ ev) (ho_disk h')"
proof -
  obtain wall h1 where h1: "wall_now h = (wall, h1)" by (rule prod.exhaust)
  obtain now h2 where h2: "instant_now h1 = (now, h2)" by (rule prod.exhaust)
  have disk: "ho_disk h2 = ho_disk h" using h1 h2 by (auto simp: wall_now_def instant_now_def)
  let ?s = "context_metrics_snapshot wall ctx"
  obtain x sm where x: "sample_snapshot_at context_delta_since_duration ?s now sampler = (x, sm)" by (rule prod.exhaust)
  show ?thesis
  proof (cases x)
    case None
    then show ?thesis using assms h1 h2 x disk by (auto simp: emit_metrics_summary_def)
  next
    case (Some delta)
    obtain q wr d where q: "write_metrics_summary_jsonl js nu ?s delta out writer (ho_disk h2) = (q, wr, d)" by (metis prod_cases3)
    have "ev = (if is_ok q then [SummaryWritten ?s delta] else [])" "writer' = wr" "ho_disk h' = d"
      using assms(3) h1 h2 x Some q by (cases q; auto simp: emit_metrics_summary_def)+
    with write_tool_file [OF _ assms(2) q] assms(1) disk show ?thesis by simp
  qed
qed

lemma summary_if_due_tool_file:
  assumes "tool_file js nu out d0 (st_writer st) ev0 (ho_disk h)" and "atomic_faults d0"
    and "summary_if_due js nu interval (Some out) ctx st h = (r, st', ev, h')"
  shows "tool_file js nu out d0 (st_writer st') (ev0 @ ev) (ho_disk h')"
proof (cases "\<exists>i t. interval = Some i \<and> st_next_summary_at st = Some t \<and> t \<le> ho_instants h (ho_instant_reads h)")
  case False
  then have "st' = st" "ev = []" "ho_disk h' = ho_disk h"
    using assms(3) by (auto simp: summary_if_due_def instant_now_def split: option.splits if_splits)
  with assms(1) show ?thesis by simp
next
  case True
  then obtain i t where it: "interval = Some i" "st_next_summary_at st = Some t" "t \<le> ho_instants h (ho_instant_reads h)" by blast
  let ?h1 = "h\<lparr>ho_instant_reads := Suc (ho_instant_reads h)\<rparr>"
  obtain x s1 w1 e1 h2 where em: "emit_metrics_summary js nu ctx (Some out) (st_sampler st) (st_writer st) ?h1 = (x, s1, w1, e1, h2)"
    by (metis prod.collapse)
  obtain y h3 where nx: "next_summary_deadline i h2 = (y, h3)" by force
  have "ho_disk h3 = ho_disk h2" using nx by (auto simp: next_summary_deadline_def instant_now_def)
  then have "st_writer st' = w1" "ev = e1" "ho_disk h' = ho_disk h2"
    using assms(3) it em nx by (auto simp: summary_if_due_def instant_now_def split: sum.splits)
  with emit_tool_file [OF _ assms(2) em] assms(1) show ?thesis by simp
qed

lemma send_loop_tool_file:
  assumes "tool_file js nu out d0 (st_writer st) ev0 (ho_disk h)" and "atomic_faults d0"
    and "send_loop os js nu a i interval (Some out) k ctx st h = (r, st', ev, h')"
  shows "tool_file js nu out d0 (st_writer st') (ev0 @ ev) (ho_disk h')"
  using assms(1,3)
proof (induction k arbitrary: ctx st h ev ev0)
  case 0
  then show ?case by auto
next
  case (Suc k)
  obtain x ctx1 w1 where x: "context_send os i (as_bytes (sc_payload a)) ctx (ho_world h) = (x, ctx1, w1)" by (metis prod_cases3)
  show ?case
  proof (cases x)
    case (Inl e)
    then show ?thesis using Suc.prems x by auto
  next
    case rep: (Inr rep)
    define e0 where "e0 = [SendReturned rep] @ (if \<not> sc_quiet a then [SendPrinted rep] else [])"
    define e2 where "e2 = (if k > 0 \<and> sc_interval_ms a \<noteq> 0 then [SendSlept (sc_interval_ms a)] else [])"
    have quiet: "tool_file js nu out d0 wr (es @ e) d \<longleftrightarrow> tool_file js nu out d0 wr es d" if "written_rows js nu e = []" for wr es e d
      using that by (simp add: tool_file_def split: option.split)
    have none: "written_rows js nu e0 = []" "written_rows js nu e2 = []" by (simp_all add: e0_def e2_def)
    obtain y st1 e1 h1 where y: "summary_if_due js nu interval (Some out) ctx1 st (h\<lparr>ho_world := w1\<rparr>) = (y, st1, e1, h1)"
      by (metis prod_cases4)
    have "tool_file js nu out d0 (st_writer st) (ev0 @ e0) (ho_disk (h\<lparr>ho_world := w1\<rparr>))" using Suc.prems(1) quiet none by simp
    from summary_if_due_tool_file [OF this assms(2) y]
    have one: "tool_file js nu out d0 (st_writer st1) (ev0 @ e0 @ e1) (ho_disk h1)" by simp
    show ?thesis
    proof (cases y)
      case (Inl f)
      then show ?thesis using Suc.prems(2) x rep y one by (auto simp: Let_def e0_def)
    next
      case (Inr u)
      obtain z st2 e3 h2 where z: "send_loop os js nu a i interval (Some out) k ctx1 st1 h1 = (z, st2, e3, h2)" by (metis prod_cases4)
      have res: "z = r" "st2 = st'" "ev = e0 @ e1 @ e2 @ e3" "h2 = h'"
        using Suc.prems(2) x rep y Inr z by (auto simp: Let_def e0_def e2_def)
      have "tool_file js nu out d0 (st_writer st1) ((ev0 @ e0 @ e1) @ e2) (ho_disk h1)"
        using one quiet [OF none(2)] by blast
      from Suc.IH [OF this z [unfolded res]] res(3) show ?thesis by simp
    qed
  qed
qed

text \<open>At the end the writer is dropped: no lock is left, and the file has gained what it was to gain.\<close>

definition tool_done ::
  "'n json_api \<Rightarrow> 'n num_api \<Rightarrow> 'n jsonl_output \<Rightarrow> disk \<Rightarrow> send_tool_event list \<Rightarrow> disk \<Rightarrow> bool" where
  "tool_done js nu out d0 ev d \<longleftrightarrow>
     jsonl_run js (summary_values js nu out) d0 d [] \<and>
     (\<forall>q. q \<noteq> jo_network_path out \<longrightarrow> dk_files d q = dk_files d0 q) \<and>
     (\<exists>snapshot. \<exists>t \<in> {[], row_text js (summary_header js snapshot out)}.
        content d (jo_network_path out) = content d0 (jo_network_path out) @ t @ written_rows js nu ev)"

lemma drop_tool_file:
  assumes "tool_file js nu out d0 writer ev (ho_disk h)"
  shows "tool_done js nu out d0 ev (ho_disk (drop_writer writer h))"
proof (cases writer)
  case None
  then show ?thesis using assms by (auto simp: tool_file_def tool_done_def drop_writer_def)
next
  case (Some p)
  have "jsonl_run js (summary_values js nu out) d0 (fs_unlock p (ho_disk h)) (removeAll p [p])"
    by (rule run_close) (use assms Some in \<open>auto simp: tool_file_def\<close>)
  then show ?thesis using assms Some by (auto simp: tool_file_def tool_done_def drop_writer_def fs_unlock_def content_def)
qed

lemma last_summary_tool_done:
  assumes "tool_file js nu out d0 (st_writer st) ev0 (ho_disk h)" and "atomic_faults d0"
    and "last_summary js nu interval (Some out) ctx st h = (r, ev, h')"
  shows "tool_done js nu out d0 (ev0 @ ev) (ho_disk h')"
proof -
  obtain x s1 w1 e1 h2 where em: "emit_metrics_summary js nu ctx (Some out) (st_sampler st) (st_writer st) h = (x, s1, w1, e1, h2)"
    by (metis prod.collapse)
  then have "ev = e1" "h' = drop_writer w1 h2" using assms(3) by (auto simp: last_summary_def)
  with drop_tool_file [OF emit_tool_file [OF assms(1,2) em]] show ?thesis by simp
qed

lemma send_run_tool_done:
  assumes "atomic_faults (ho_disk h)" and "send_run os js nu a i interval (Some out) ctx h = (r, ev, h')"
  shows "tool_done js nu out (ho_disk h) ev (ho_disk h')"
proof -
  let ?d = "ho_disk h"
  obtain wall h1 where h1: "wall_now h = (wall, h1)" by (rule prod.exhaust)
  obtain now h2 where h2: "instant_now h1 = (now, h2)" by (rule prod.exhaust)
  obtain x sampler where s: "context_sample ctx wall now sampler_new = (x, sampler)" by (rule prod.exhaust)
  obtain q h3 where q: "first_deadline interval h2 = (q, h3)" by (rule prod.exhaust)
  have disk: "ho_disk h3 = ?d"
    using h1 h2 q by (auto simp: wall_now_def instant_now_def first_deadline_def next_summary_deadline_def split: option.splits)
  have start: "tool_file js nu out ?d None [] ?d" by (rule tool_file_start)
  show ?thesis
  proof (cases q)
    case (Inl e)
    then have "ev = []" "h' = h3" using assms(2) h1 h2 s q by (simp_all add: send_run_def)
    with drop_tool_file [of js nu out ?d None "[]" h3] start disk show ?thesis by (simp add: drop_writer_def)
  next
    case (Inr next_at)
    let ?st = "\<lparr>st_sampler = sampler, st_writer = None, st_next_summary_at = next_at\<rparr>"
    obtain z st ev1 h4 where z: "send_loop os js nu a i interval (Some out) (unat (sc_count a)) ctx ?st h3 = (z, st, ev1, h4)"
      by (metis prod_cases4)
    have loop: "tool_file js nu out ?d (st_writer st) ev1 (ho_disk h4)"
      using send_loop_tool_file [OF _ assms(1) z, of "[]"] start disk by simp
    show ?thesis
    proof (cases z)
      case (Inl f)
      then have "ev = ev1" "h' = drop_writer (st_writer st) h4" using assms(2) h1 h2 s q Inr z by (simp_all add: send_run_def)
      with drop_tool_file [OF loop] show ?thesis by simp
    next
      case ctx1: (Inr ctx1)
      obtain y ev2 h5 where y: "last_summary js nu interval (Some out) ctx1 st h4 = (y, ev2, h5)" by (metis prod_cases3)
      then have "ev = ev1 @ ev2" "h' = h5" using assms(2) h1 h2 s q Inr z ctx1 by (simp_all add: send_run_def)
      with last_summary_tool_done [OF loop assms(1) y] show ?thesis by simp
    qed
  qed
qed

section \<open>No panics\<close>

lemma io_safe_calls [mctx_panic]:
  "io_safe (disk_call f g)" "io_safe (fs_read_lines p)" "io_safe m \<Longrightarrow> io_safe (closing p m)"
  unfolding io_safe_def disk_call_def fs_read_lines_def closing_def
  by (auto simp: Let_def split: option.splits prod.splits sum.splits) (metis fst_conv no_panic_def)

lemma validate_safe [mctx_panic]:
  "no_panic (validate_sample_row js v)" "no_panic (validate_existing_header_reader js rows)"
  using validate_sample_row_safe [of js v] validate_lines_safe [of js rows "(0, None)"]
  by (auto simp: no_panic_def validate_existing_header_reader_def and_then_eq_Err)

lemma write_json_safe [mctx_panic]: "io_safe (write_json_line js p v)"
  by (auto simp: write_json_line_def fs_write_all_def intro!: mctx_panic split: sum.split)

lemma append_row_safe [mctx_panic]: "io_safe (append_sample_row js p v)"
  unfolding append_sample_row_def by (intro mctx_panic)

lemma writer_open_safe [mctx_panic]: "io_safe (writer_open js p header)"
  unfolding writer_open_def open_jsonl_append_file_def check_or_write_header_def settle_header_def
    fs_create_dir_all_def fs_open_append_def fs_seek_start_def
  by (auto simp del: io_simps intro!: mctx_panic split: sum.split option.split)

lemma emit_safe:
  assumes "emit_metrics_summary js nu ctx out sampler writer h = (r, sampler', writer', ev, h')"
  shows "no_panic r"
proof -
  have "no_panic q" if "write_metrics_summary_jsonl js nu s d o' wr dk = (q, wr', dk')" for q s d o' wr dk wr' dk'
    using that writer_open_safe [of js "jo_network_path o'" "summary_header js s o'"] append_row_safe [of js]
    unfolding io_safe_def no_panic_def write_metrics_summary_jsonl_def
    by (auto simp: Let_def split: option.splits prod.splits sum.splits) (metis fst_conv)+
  then show ?thesis using assms
    by (auto simp: emit_metrics_summary_def Let_def split: prod.splits option.splits sum.splits)
qed

lemma failure_map_Panicked [simp]: "failure_map f x = Panicked \<longleftrightarrow> x = Panicked"
  by (cases x) simp_all

lemma summary_if_due_safe:
  assumes "summary_if_due js nu interval out ctx st h = (r, st', ev, h')"
  shows "no_panic r"
  using assms
  by (auto simp: summary_if_due_def dest: emit_safe split: option.splits prod.splits sum.splits if_splits)

lemma send_loop_safe:
  "send_loop os js nu a i interval out k ctx st h = (r, st', ev, h') \<Longrightarrow> no_panic r"
proof (induction k arbitrary: ctx st h ev)
  case (Suc k)
  obtain x ctx1 w1 where x: "context_send os i (as_bytes (sc_payload a)) ctx (ho_world h) = (x, ctx1, w1)" by (metis prod_cases3)
  obtain y st1 e1 h1 where y: "summary_if_due js nu interval out ctx1 st (h\<lparr>ho_world := w1\<rparr>) = (y, st1, e1, h1)"
    by (metis prod_cases4)
  obtain z st2 e3 h2 where z: "send_loop os js nu a i interval out k ctx1 st1 h1 = (z, st2, e3, h2)" by (metis prod_cases4)
  show ?case
  proof (cases "\<exists>rep u. x = Inr rep \<and> y = Inr u")
    case True
    then have "r = z" "st' = st2" "h' = h2" using Suc.prems x y z by (auto simp: Let_def)
    then show ?thesis using Suc.IH z by blast
  next
    case False
    then show ?thesis
      using Suc.prems x y summary_if_due_safe [OF y] by (cases x; cases y) (auto simp: Let_def)
  qed
qed auto

lemma last_summary_safe: "last_summary js nu interval out ctx st h = (r, ev, h') \<Longrightarrow> no_panic r"
  by (auto simp: last_summary_def dest!: emit_safe split: if_splits prod.splits sum.splits)

lemma send_run_safe: "send_run os js nu a i interval out ctx h = (r, ev, h') \<Longrightarrow> no_panic r"
  by (auto simp: send_run_def dest!: send_loop_safe last_summary_safe split: prod.splits sum.splits)

lemma send_main_safe:
  assumes "send_main os js nu env args h = (r, ev, h')" and "args \<noteq> []"
  shows "no_panic r"
proof -
  have "no_panic q" if "add_publication os c context_new w = (q, ctx, w')" for q c w ctx w'
    using that unfolding add_publication_def by (cases rule: add_with_cases [OF _ good_create_new]) auto
  then show ?thesis using assms
    by (fastforce simp: send_main_def idx_def dest: send_run_safe split: sum.splits prod.splits if_splits)
qed

text \<open>Where the metrics of a run go.\<close>

definition tool_output :: "'n json_api \<Rightarrow> 'n num_api \<Rightarrow> environment \<Rightarrow> string list \<Rightarrow> 'n jsonl_output option" where
  "tool_output js nu env args =
     (case parse_send_cli_args args of
        Inl _ \<Rightarrow> None
      | Inr a \<Rightarrow> (case build_config a of
          Inl _ \<Rightarrow> None
        | Inr c \<Rightarrow> (case summary_output_from_env js nu env a c of Inl _ \<Rightarrow> None | Inr out \<Rightarrow> out)))"

text \<open>Without an output the disk is not used.\<close>

lemma emit_keeps_disk: "emit_metrics_summary js nu ctx None sampler writer h = (r, sampler', writer', ev, h') \<Longrightarrow>
  ho_disk h' = ho_disk h \<and> writer' = writer"
  by (auto simp: emit_metrics_summary_def wall_now_def instant_now_def Let_def split: prod.splits option.splits)

lemma next_deadline_disk: "next_summary_deadline i h = (r, h') \<Longrightarrow> ho_disk h' = ho_disk h"
  by (auto simp: next_summary_deadline_def instant_now_def)

lemma summary_keeps_disk:
  assumes "summary_if_due js nu interval None ctx st h = (r, st', ev, h')"
  shows "ho_disk h' = ho_disk h \<and> st_writer st' = st_writer st"
  using assms
  by (fastforce simp: summary_if_due_def instant_now_def dest!: emit_keeps_disk next_deadline_disk
      split: option.splits prod.splits sum.splits if_splits)

lemma send_loop_keeps_disk:
  "send_loop os js nu a i interval None k ctx st h = (r, st', ev, h') \<Longrightarrow> ho_disk h' = ho_disk h \<and> st_writer st' = st_writer st"
proof (induction k arbitrary: ctx st h ev)
  case (Suc k)
  then show ?case
    by (fastforce simp: Let_def dest!: summary_keeps_disk Suc.IH split: prod.splits sum.splits)
qed simp

lemma first_deadline_disk: "first_deadline interval h = (r, h') \<Longrightarrow> ho_disk h' = ho_disk h"
  by (auto simp: first_deadline_def dest: next_deadline_disk split: option.splits prod.splits)

lemma send_run_keeps_disk:
  "send_run os js nu a i interval None ctx h = (r, ev, h') \<Longrightarrow> ho_disk h' = ho_disk h"
  by (auto simp: send_run_def wall_now_def instant_now_def last_summary_def drop_writer_def
      dest!: send_loop_keeps_disk emit_keeps_disk first_deadline_disk split: prod.splits sum.splits if_splits option.splits)

lemma send_main_keeps_disk:
  assumes "send_main os js nu env args h = (r, ev, h')" and "tool_output js nu env args = None"
  shows "ho_disk h' = ho_disk h"
proof (cases "\<exists>a c out. parse_send_cli_args args = Ok a \<and> build_config a = Ok c \<and> summary_output_from_env js nu env a c = Ok out")
  case False
  then show ?thesis using assms(1) by (auto simp: send_main_def split: sum.splits prod.splits)
next
  case True
  then obtain a c where a: "parse_send_cli_args args = Ok a" "build_config a = Ok c" "summary_output_from_env js nu env a c = Ok None"
    using assms(2) by (auto simp: tool_output_def)
  obtain q ctx w1 where q: "add_publication os c context_new (ho_world h) = (q, ctx, w1)" by (metis prod_cases3)
  show ?thesis
  proof (cases "\<exists>i interval. q = Inr i \<and> summary_interval_from_env env = Inr interval")
    case False
    then show ?thesis using assms(1) a q by (auto simp: send_main_def split: sum.splits)
  next
    case True
    then obtain i interval where "q = Inr i" "summary_interval_from_env env = Inr interval" by blast
    then have "send_run os js nu a i interval None ctx (h\<lparr>ho_world := w1\<rparr>) = (r, ev, h')"
      using assms(1) a q by (simp add: send_main_def)
    from send_run_keeps_disk [OF this] show ?thesis by simp
  qed
qed

lemma send_main_tool_done:
  assumes "send_main os js nu env args h = (r, ev, h')" and "atomic_faults (ho_disk h)"
    and "tool_output js nu env args = Some out"
  shows "tool_done js nu out (ho_disk h) ev (ho_disk h')"
proof -
  from assms(3) obtain a c where a: "parse_send_cli_args args = Ok a" "build_config a = Ok c"
      "summary_output_from_env js nu env a c = Ok (Some out)"
    by (auto simp: tool_output_def split: sum.splits)
  obtain q ctx w1 where q: "add_publication os c context_new (ho_world h) = (q, ctx, w1)" by (metis prod_cases3)
  have idle: "tool_done js nu out (ho_disk h) [] (ho_disk h)"
    using drop_tool_file [OF tool_file_start, of js nu out h] by (simp add: drop_writer_def)
  show ?thesis
  proof (cases "\<exists>i interval. q = Inr i \<and> summary_interval_from_env env = Inr interval")
    case False
    then have "ev = []" "ho_disk h' = ho_disk h"
      using assms(1) a q by (auto simp: send_main_def split: sum.splits)
    with idle show ?thesis by simp
  next
    case True
    then obtain i interval where i: "q = Inr i" "summary_interval_from_env env = Inr interval" by blast
    have "atomic_faults (ho_disk (h\<lparr>ho_world := w1\<rparr>))" using assms(2) by simp
    moreover have "send_run os js nu a i interval (Some out) ctx (h\<lparr>ho_world := w1\<rparr>) = (r, ev, h')"
      using assms(1) a q i by (simp add: send_main_def)
    ultimately show ?thesis using send_run_tool_done by fastforce
  qed
qed

section \<open>A concrete run\<close>

text \<open>Numbers without content, so that there is one sample and, for one destination, one header.\<close>

definition unit_nums :: "unit num_api" where
  "unit_nums = \<lparr>nu_count = (\<lambda>_. ()), nu_zero = (), nu_div = (\<lambda>_ _. ())\<rparr>"

definition unit_snapshot :: context_snapshot where
  "unit_snapshot = context_metrics_snapshot 0 (context_new :: nat mctx_context)"

definition unit_delta :: context_delta where
  "unit_delta = \<lparr>cd_interval = 0, cd_publications_added = 0, cd_publications_removed = 0, cd_send_calls = 0,
     cd_packets_sent = 0, cd_bytes_sent = 0, cd_send_errors = 0\<rparr>"

definition blank_json :: "unit json_api" where
  "blank_json = \<lparr>js_from_str = (\<lambda>_. Err ''syntax''), js_to_vec = (\<lambda>_. Err ''unknown''), js_finite = (\<lambda>_. True),
     js_negative = (\<lambda>_. False), js_secs = (\<lambda>_. ())\<rparr>"

definition file_env :: environment where
  "file_env = (\<lambda>k. if k = ''MCTX_METRICS_SUMMARY_FILE'' then Ok ''m.jsonl'' else Err NotPresent)"

definition unit_output :: "unit jsonl_output" where
  "unit_output = (case tool_output blank_json unit_nums file_env sample_run_args of Some out \<Rightarrow> out
     | None \<Rightarrow> \<lparr>jo_network_path = [], jo_node_id = [], jo_flags = []\<rparr>)"

definition unit_row :: "unit json" where
  "unit_row = summary_sample blank_json unit_nums unit_snapshot unit_delta"

definition unit_header :: "unit json" where
  "unit_header = summary_header blank_json unit_snapshot unit_output"

definition unit_json :: "unit json_api" where
  "unit_json = blank_json
     \<lparr>js_from_str := (\<lambda>s. if s = ''{h}'' then Ok unit_header else if s = ''{s}'' then Ok unit_row else Err ''syntax''),
      js_to_vec := (\<lambda>v. if v = unit_header then Ok ''{h}'' else if v = unit_row then Ok ''{s}'' else Err ''unknown'')\<rparr>"

definition file_host :: "device host" where
  "file_host = \<lparr>ho_world = device_start 2, ho_disk = sample_disk [], ho_instants = (\<lambda>n. n),
     ho_instant_reads = 0, ho_walls = (\<lambda>n. n), ho_wall_reads = 0, ho_instant_limit = 100\<rparr>"

lemma file_run:
  "case send_main device_os unit_json unit_nums file_env sample_run_args file_host of (r, ev, h') \<Rightarrow>
     r = Ok () \<and> content (ho_disk h') [Normal ''m.jsonl''] = ''{h}'' @ [CHR 0x0A] @ ''{s}'' @ [CHR 0x0A]"
  by code_simp

lemma unit_prints_back:
  "prints_back unit_json (summary_sample unit_json unit_nums s d)"
  "tool_output unit_json unit_nums file_env sample_run_args = Some out \<Longrightarrow> prints_back unit_json (summary_header unit_json s out)"
proof -
  have "summary_sample unit_json unit_nums s d = unit_row"
    by (simp add: summary_sample_def unit_row_def)
  moreover have "prints_back unit_json unit_row" by code_simp
  ultimately show "prints_back unit_json (summary_sample unit_json unit_nums s d)" by simp
next
  assume "tool_output unit_json unit_nums file_env sample_run_args = Some out"
  moreover have "tool_output unit_json unit_nums file_env sample_run_args = Some unit_output" by code_simp
  ultimately have "summary_header unit_json s out = unit_header"
    by (simp add: summary_header_def unit_header_def header_json_def)
  moreover have "prints_back unit_json unit_header" by code_simp
  ultimately show "prints_back unit_json (summary_header unit_json s out)" by simp
qed

end
