(* ===== verification/Tokio_Adapter.thy ===== *)
theory Tokio_Adapter
  imports Mctx_Context
begin

text \<open>
  The Tokio wrapper around an owned publication (\<open>src/tokio_adapter.rs\<close>), on Unix and elsewhere.
  The runtime is a parameter: registering a socket, waiting until it is writable (an \<open>await\<close>,
  during which the world may change), clearing the readiness, cloning a socket and the
  runtime's own non-blocking send. A \<open>send\<close> is a loop that may wait forever; not returning is \<open>None\<close>.
\<close>

section \<open>The adapter\<close>

datatype tokio_send_error = Readiness io_error | Send mctx_error

record ('w, 's) tokio_api =
  tk_register :: "'s \<Rightarrow> 'w \<Rightarrow> (io_error + unit) \<times> 'w"
  tk_writable :: "'s \<Rightarrow> 'w \<Rightarrow> (io_error + unit) \<times> 'w"
  tk_clear_ready :: "'s \<Rightarrow> 'w \<Rightarrow> 'w"
  tk_try_clone :: "'s \<Rightarrow> 'w \<Rightarrow> (io_error + 's) \<times> 'w"
  tk_try_send :: "'s \<Rightarrow> bytes \<Rightarrow> 'w \<Rightarrow> (io_error + nat) \<times> 'w"

text \<open>On Unix there is no second handle.\<close>

record 's tokio_publication =
  tp_inner :: "'s publication"
  tp_readiness :: "'s option"

definition tokio_new_unix ::
  "('w, 's) tokio_api \<Rightarrow> 's publication \<Rightarrow> 'w \<Rightarrow> (io_error + 's tokio_publication) \<times> 'w" where
  "tokio_new_unix tk p w =
     (case tk_register tk (pub_socket p) w of
        (Inl e, w') \<Rightarrow> (Err e, w')
      | (Inr _, w') \<Rightarrow> (Ok \<lparr>tp_inner = p, tp_readiness = None\<rparr>, w'))"

definition tokio_new_other ::
  "('w, 's) tokio_api \<Rightarrow> ('w, 's) os_api \<Rightarrow> 's publication \<Rightarrow> 'w \<Rightarrow> (io_error + 's tokio_publication) \<times> 'w" where
  "tokio_new_other tk os p w =
     (case tk_try_clone tk (pub_socket p) w of
        (Inl e, w1) \<Rightarrow> (Err e, w1)
      | (Inr s, w1) \<Rightarrow>
          (case os_call os s (SetNonblocking True) w1 of
             (Inl e, w2) \<Rightarrow> (Err e, w2)
           | (Inr _, w2) \<Rightarrow>
               (case tk_register tk s w2 of
                  (Inl e, w3) \<Rightarrow> (Err e, w3)
                | (Inr _, w3) \<Rightarrow> (Ok \<lparr>tp_inner = p, tp_readiness = Some s\<rparr>, w3))))"

definition into_publication :: "'s tokio_publication \<Rightarrow> 's publication" where
  "into_publication t = tp_inner t"

partial_function (option) tokio_send_unix ::
  "('w, 's) tokio_api \<Rightarrow> ('w, 's) os_api \<Rightarrow> bytes \<Rightarrow> 's publication \<Rightarrow> 'w \<Rightarrow>
   ((tokio_send_error + send_report) \<times> 's publication \<times> 'w) option" where
  "tokio_send_unix tk os payload p w =
     (case tk_writable tk (pub_socket p) w of
        (Inl e, w1) \<Rightarrow> Some (Err (Readiness e), p, w1)
      | (Inr _, w1) \<Rightarrow>
          (case publication_send os p payload w1 of
             (Inr report, p', w2) \<Rightarrow> Some (Ok report, p', w2)
           | (Inl e, p', w2) \<Rightarrow>
               if is_would_block e then tokio_send_unix tk os payload p' (tk_clear_ready tk (pub_socket p') w2)
               else Some (Err (Send e), p', w2)))"

definition tokio_finish ::
  "(mctx_error + send_report) \<times> 's publication \<times> 'w \<Rightarrow> (tokio_send_error + send_report) \<times> 's publication \<times> 'w" where
  "tokio_finish = (\<lambda>(r, p, w). (case r of Inl e \<Rightarrow> Err (Send e) | Inr report \<Rightarrow> Ok report, p, w))"

partial_function (option) tokio_send_other ::
  "('w, 's) tokio_api \<Rightarrow> ('w, 's) os_api \<Rightarrow> bytes \<Rightarrow> 's \<Rightarrow> 's publication \<Rightarrow> 'w \<Rightarrow>
   ((tokio_send_error + send_report) \<times> 's publication \<times> 'w) option" where
  "tokio_send_other tk os payload s p w =
     (case tk_try_send tk s payload w of
        (Inr bytes_sent, w1) \<Rightarrow> Some (tokio_finish (finish_send os p (Ok bytes_sent) w1))
      | (Inl e, w1) \<Rightarrow>
          if io_kind e = WouldBlock then
            (case tk_writable tk s w1 of
               (Inl e, w2) \<Rightarrow> Some (Err (Readiness e), p, w2)
             | (Inr _, w2) \<Rightarrow> tokio_send_other tk os payload s p w2)
          else Some (tokio_finish (finish_send os p (Err e) w1)))"

declare tokio_send_unix.simps [code] tokio_send_other.simps [code]

section \<open>Termination and effect\<close>

text \<open>A measure of the world bounds how often a send can still find the socket not ready.\<close>

definition finitely_blocked :: "('w, 's) tokio_api \<Rightarrow> ('w, 's) os_api \<Rightarrow> ('w \<Rightarrow> nat) \<Rightarrow> bool" where
  "finitely_blocked tk os \<mu> \<longleftrightarrow>
     (\<forall>s b w e w1 w2. tk_writable tk s w = (Inr (), w1) \<longrightarrow> os_send os s b w1 = (Inl e, w2) \<longrightarrow> io_kind e = WouldBlock \<longrightarrow>
        \<mu> (tk_clear_ready tk s w2) < \<mu> w) \<and>
     (\<forall>s b w e w1 w2. tk_try_send tk s b w = (Inl e, w1) \<longrightarrow> io_kind e = WouldBlock \<longrightarrow> tk_writable tk s w1 = (Inr (), w2) \<longrightarrow>
        \<mu> w2 < \<mu> w)"

text \<open>The counters after a send that was tried \<open>n\<close> times and counted \<open>n\<close> would-block failures.\<close>

definition counted :: "nat \<Rightarrow> tokio_send_error + send_report \<Rightarrow> publication_metrics \<Rightarrow> publication_metrics" where
  "counted n r m =
     (case r of
        Inr report \<Rightarrow> record_success (sr_bytes_sent report) ((record_error ^^ n) m)
      | Inl (Send e) \<Rightarrow> record_error ((record_error ^^ n) m)
      | Inl (Readiness e) \<Rightarrow> (record_error ^^ n) m)"

definition tokio_outcome ::
  "nat \<Rightarrow> 's publication \<Rightarrow> (tokio_send_error + send_report) \<times> 's publication \<times> 'w \<Rightarrow> bool" where
  "tokio_outcome n p = (\<lambda>(r, p', w').
     pub_metrics p' = counted n r (pub_metrics p) \<and> pub_id p' = pub_id p \<and> pub_socket p' = pub_socket p \<and>
     pub_destination p' = pub_destination p \<and>
     (case r of
        Inr report \<Rightarrow> sr_publication_id report = pub_id p \<and> sr_destination report = pub_destination p
      | Inl (Send e) \<Rightarrow> \<not> is_would_block e
      | Inl (Readiness e) \<Rightarrow> True))"

lemma finish_send_outcome:
  assumes "finish_send os p r w = (r', p', w')"
  shows "pub_id p' = pub_id p \<and> pub_socket p' = pub_socket p \<and> pub_destination p' = pub_destination p \<and>
    (case r of
       Inl e \<Rightarrow> r' = Inl (SendFailed e) \<and> pub_metrics p' = record_error (pub_metrics p) \<and> w' = w
     | Inr n \<Rightarrow> (\<exists>report. r' = Inr report \<and> pub_metrics p' = record_success n (pub_metrics p) \<and> sr_bytes_sent report = n \<and>
         sr_publication_id report = pub_id p \<and> sr_destination report = pub_destination p))"
  using assms by (auto simp: finish_send_def cached_local_addr_def split: sum.splits prod.splits option.splits)

lemma tokio_outcome_later:
  assumes "tokio_outcome n p' x" "pub_id p' = pub_id p" "pub_socket p' = pub_socket p"
    "pub_destination p' = pub_destination p" "pub_metrics p' = record_error (pub_metrics p)"
  shows "tokio_outcome (Suc n) p x"
  using assms by (auto simp: tokio_outcome_def counted_def funpow_swap1 split: sum.splits tokio_send_error.splits)

text \<open>One turn of each loop.\<close>

lemma unix_turn:
  assumes "tk_writable tk (pub_socket p) w = (Inr (), w1)" "publication_send os p payload w1 = (r, p', w2)"
  shows "(\<exists>x. tokio_send_unix tk os payload p w = Some x \<and> tokio_outcome 0 p x) \<or>
    (\<exists>e. os_send os (pub_socket p) payload w1 = (Inl e, w2) \<and> io_kind e = WouldBlock \<and>
       tokio_send_unix tk os payload p w = tokio_send_unix tk os payload p' (tk_clear_ready tk (pub_socket p) w2) \<and>
       pub_id p' = pub_id p \<and> pub_socket p' = pub_socket p \<and> pub_destination p' = pub_destination p \<and>
       pub_metrics p' = record_error (pub_metrics p))"
proof -
  obtain s w3 where s: "os_send os (pub_socket p) payload w1 = (s, w3)" by (rule prod.exhaust)
  then have f: "finish_send os p s w3 = (r, p', w2)" using assms(2) by (simp add: publication_send_def)
  note out = finish_send_outcome [OF f]
  note unfold = tokio_send_unix.simps [of tk os payload p w]
  show ?thesis
  proof (cases s)
    case (Inl e)
    then show ?thesis using out s unfold assms
      by (cases "io_kind e = WouldBlock") (auto simp: tokio_outcome_def counted_def)
  next
    case (Inr n)
    then show ?thesis using out s unfold assms by (auto simp: tokio_outcome_def counted_def)
  qed
qed

lemma tokio_send_unix_returns:
  assumes "finitely_blocked tk os \<mu>"
  shows "\<exists>x n. tokio_send_unix tk os payload p w = Some x \<and> tokio_outcome n p x"
proof (induction "\<mu> w" arbitrary: p w rule: less_induct)
  case less
  obtain r1 w1 where wr: "tk_writable tk (pub_socket p) w = (r1, w1)" by (rule prod.exhaust)
  show ?case
  proof (cases r1)
    case (Inl e)
    then have "tokio_send_unix tk os payload p w = Some (Inl (Readiness e), p, w1)"
      using wr by (simp add: tokio_send_unix.simps)
    moreover have "tokio_outcome 0 p (Inl (Readiness e), p, w1)" by (simp add: tokio_outcome_def counted_def)
    ultimately show ?thesis by blast
  next
    case (Inr u)
    obtain r p' w2 where send: "publication_send os p payload w1 = (r, p', w2)" by (metis prod_cases3)
    have ready: "tk_writable tk (pub_socket p) w = (Inr (), w1)" using wr Inr by simp
    from unix_turn [OF ready send] show ?thesis
    proof (elim disjE exE conjE)
      fix e
      assume e: "os_send os (pub_socket p) payload w1 = (Inl e, w2)" "io_kind e = WouldBlock"
        and eq: "tokio_send_unix tk os payload p w = tokio_send_unix tk os payload p' (tk_clear_ready tk (pub_socket p) w2)"
        and p': "pub_id p' = pub_id p" "pub_socket p' = pub_socket p" "pub_destination p' = pub_destination p"
          "pub_metrics p' = record_error (pub_metrics p)"
      have "\<mu> (tk_clear_ready tk (pub_socket p) w2) < \<mu> w"
        using assms ready e unfolding finitely_blocked_def by blast
      from less [OF this, of p'] show ?thesis using tokio_outcome_later p' unfolding eq by blast
    qed blast
  qed
qed

lemma tokio_send_other_returns:
  assumes "finitely_blocked tk os \<mu>"
  shows "\<exists>x. tokio_send_other tk os payload s p w = Some x \<and> tokio_outcome 0 p x"
proof (induction "\<mu> w" arbitrary: w rule: less_induct)
  case less
  obtain r w1 where snd: "tk_try_send tk s payload w = (r, w1)" by (rule prod.exhaust)
  obtain r1 w2 where wr: "tk_writable tk s w1 = (r1, w2)" by (rule prod.exhaust)
  note unfold = tokio_send_other.simps [of tk os payload s p w]
  obtain q p' w3 where f: "finish_send os p r w1 = (q, p', w3)" by (metis prod_cases3)
  show ?case
  proof (cases "\<exists>e. r = Inl e \<and> io_kind e = WouldBlock")
    case True
    then obtain e where e: "r = Inl e" "io_kind e = WouldBlock" by blast
    show ?thesis
    proof (cases r1)
      case (Inl x)
      then show ?thesis using unfold snd wr e by (auto simp: tokio_outcome_def counted_def)
    next
      case (Inr u)
      have "tk_writable tk s w1 = (Inr (), w2)" using wr Inr by simp
      then have "\<mu> w2 < \<mu> w" using assms snd e unfolding finitely_blocked_def by blast
      from less [OF this] show ?thesis using unfold snd wr e Inr by simp
    qed
  next
    case False
    then show ?thesis using unfold snd f finish_send_outcome [OF f]
      by (cases r) (auto simp: tokio_finish_def tokio_outcome_def counted_def)
  qed
qed


text \<open>
  A runtime on the recording device that reports the socket as writable too early until it has
  been waited for a few times, and from then on makes room for one datagram.
\<close>

definition device_tokio :: "(device, nat) tokio_api" where
  "device_tokio =
     \<lparr>tk_register = (\<lambda>s w. (Inr (), w)),
      tk_writable = (\<lambda>s w. (Inr (), w\<lparr>dev_next := Suc (dev_next w), dev_credit := (if dev_next w < 4 then dev_credit w else Suc (dev_credit w))\<rparr>)),
      tk_clear_ready = (\<lambda>s w. w), tk_try_clone = (\<lambda>s w. (Inr s, w)), tk_try_send = (\<lambda>s. device_send)\<rparr>"

definition device_waits :: "device \<Rightarrow> nat" where
  "device_waits w = (if dev_credit w = 0 then Suc (5 - dev_next w) else 0)"

lemma device_finitely_blocked: "finitely_blocked device_tokio device_os device_waits"
  by (auto simp: finitely_blocked_def device_tokio_def device_waits_def device_os_def device_send_def would_block_def
      split: nat.splits if_splits)


end
