(* ===== verification/Tokio_Send_Cli.thy ===== *)
theory Tokio_Send_Cli
  imports Send_Args Tokio_Adapter
begin

text \<open>
  The UDP sender tool on the Tokio runtime (\<open>src/bin/mctx_tokio_send.rs\<close>): it adds one publication to
  a context, takes it out again, wraps it in the adapter and sends the payload as often as
  asked. A send may wait forever; not returning is \<open>None\<close>.
\<close>

section \<open>The main function\<close>

definition tokio_new ::
  "bool \<Rightarrow> ('w, 's) tokio_api \<Rightarrow> ('w, 's) os_api \<Rightarrow> 's publication \<Rightarrow> 'w \<Rightarrow> (io_error + 's tokio_publication) \<times> 'w" where
  "tokio_new unix tk os p = (if unix then tokio_new_unix tk p else tokio_new_other tk os p)"

text \<open>The second handle exists exactly on the systems other than Unix.\<close>

definition tokio_publication_send ::
  "('w, 's) tokio_api \<Rightarrow> ('w, 's) os_api \<Rightarrow> bytes \<Rightarrow> 's tokio_publication \<Rightarrow> 'w \<Rightarrow>
   ((tokio_send_error + send_report) \<times> 's tokio_publication \<times> 'w) option" where
  "tokio_publication_send tk os payload t w =
     map_option (\<lambda>(r, p, w'). (r, t\<lparr>tp_inner := p\<rparr>, w'))
       (case tp_readiness t of
          None \<Rightarrow> tokio_send_unix tk os payload (tp_inner t) w
        | Some s \<Rightarrow> tokio_send_other tk os payload s (tp_inner t) w)"

datatype tokio_tool_error =
  TokioArgs message | TokioCore mctx_error | TokioIo io_error | TokioSend tokio_send_error

datatype tokio_tool_event = TokioSent send_report | TokioPrinted send_report | TokioSlept u64

text \<open>The loop with \<open>k\<close> packets left.\<close>

fun tokio_send_loop ::
  "('w, 's) tokio_api \<Rightarrow> ('w, 's) os_api \<Rightarrow> send_cli_args \<Rightarrow> nat \<Rightarrow> 's tokio_publication \<Rightarrow> 'w \<Rightarrow>
   ((tokio_tool_error failure + unit) \<times> tokio_tool_event list \<times> 's tokio_publication \<times> 'w) option" where
  "tokio_send_loop tk os a 0 t w = Some (Ok (), [], t, w)"
| "tokio_send_loop tk os a (Suc k) t w =
     (case tokio_publication_send tk os (as_bytes (sc_payload a)) t w of
        None \<Rightarrow> None
      | Some (Inl e, t1, w1) \<Rightarrow> Some (Err (Raised (TokioSend e)), [], t1, w1)
      | Some (Inr report, t1, w1) \<Rightarrow>
          map_option (\<lambda>(r, ev, t2, w2). (r,
            [TokioSent report] @ (if \<not> sc_quiet a then [TokioPrinted report] else []) @
            (if k > 0 \<and> sc_interval_ms a \<noteq> 0 then [TokioSlept (sc_interval_ms a)] else []) @ ev, t2, w2))
          (tokio_send_loop tk os a k t1 w1))"

text \<open>
  The run ends with the publication as the last send left it, or with none if none was created.
\<close>

definition tokio_send_main ::
  "bool \<Rightarrow> ('w, 's) tokio_api \<Rightarrow> ('w, 's) os_api \<Rightarrow> string list \<Rightarrow> 'w \<Rightarrow>
   ((tokio_tool_error failure + unit) \<times> tokio_tool_event list \<times> 's tokio_publication option \<times> 'w) option" where
  "tokio_send_main unix tk os args w =
     (case parse_send_cli_args args of
        Inl m \<Rightarrow> Some (idx args 0 (\<lambda>program. Err (Raised (TokioArgs m))), [], None, w)
      | Inr a \<Rightarrow>
     (case build_config a of
        Inl e \<Rightarrow> Some (Err (Raised (TokioCore e)), [], None, w)
      | Inr config \<Rightarrow>
     (case add_publication os config context_new w of
        (Inl f, _, w1) \<Rightarrow> Some (Err (failure_map TokioCore f), [], None, w1)
      | (Inr i, ctx, w1) \<Rightarrow>
     (case take_publication i ctx of
        Inl f \<Rightarrow> Some (Err (failure_map TokioCore f), [], None, w1)
      | Inr (None, _) \<Rightarrow> Some (Err (Raised (TokioCore PublicationNotFound)), [], None, w1)
      | Inr (Some p, _) \<Rightarrow>
     (case tokio_new unix tk os p w1 of
        (Inl e, w2) \<Rightarrow> Some (Err (Raised (TokioIo e)), [], None, w2)
      | (Inr t, w2) \<Rightarrow>
          map_option (\<lambda>(r, ev, t', w3). (r, ev, Some t', w3))
            (tokio_send_loop tk os a (unat (sc_count a)) t w2))))))"

section \<open>What a run does\<close>

text \<open>The events of a run with the given reports.\<close>

fun tokio_events :: "send_cli_args \<Rightarrow> send_report list \<Rightarrow> tokio_tool_event list" where
  "tokio_events a [] = []"
| "tokio_events a (rep # reps) =
     [TokioSent rep] @ (if \<not> sc_quiet a then [TokioPrinted rep] else []) @
     (if reps \<noteq> [] \<and> sc_interval_ms a \<noteq> 0 then [TokioSlept (sc_interval_ms a)] else []) @ tokio_events a reps"

text \<open>What the sends of a run leave of a publication.\<close>

definition same_publication :: "'s publication \<Rightarrow> 's publication \<Rightarrow> bool" where
  "same_publication p p' \<longleftrightarrow> pub_id p' = pub_id p \<and> pub_socket p' = pub_socket p \<and> pub_destination p' = pub_destination p"

text \<open>The bytes and packets the counters of a publication gained.\<close>

definition gained :: "send_report list \<Rightarrow> publication_metrics \<Rightarrow> publication_metrics \<Rightarrow> bool" where
  "gained reps m m' \<longleftrightarrow>
     pm_packets_sent m' = pm_packets_sent m + of_nat (length reps) \<and>
     pm_bytes_sent m' = pm_bytes_sent m + of_nat (sum_list (map sr_bytes_sent reps))"

lemma record_errors_gain:
  "pm_packets_sent ((record_error ^^ n) m) = pm_packets_sent m" "pm_bytes_sent ((record_error ^^ n) m) = pm_bytes_sent m"
  by (induction n) (simp_all add: record_error_def)

lemma tokio_publication_send_returns:
  assumes "finitely_blocked tk os \<mu>"
  obtains r p w' where "tokio_publication_send tk os payload t w = Some (r, t\<lparr>tp_inner := p\<rparr>, w')"
    "same_publication (tp_inner t) p"
    "\<And>rep. r = Inr rep \<Longrightarrow> gained [rep] (pub_metrics (tp_inner t)) (pub_metrics p) \<and>
       sr_publication_id rep = pub_id p \<and> sr_destination rep = pub_destination p"
    "\<And>e. r = Inl (Send e) \<Longrightarrow> \<not> is_would_block e"
proof -
  have "\<exists>x n. (case tp_readiness t of
          None \<Rightarrow> tokio_send_unix tk os payload (tp_inner t) w
        | Some s \<Rightarrow> tokio_send_other tk os payload s (tp_inner t) w) = Some x \<and> tokio_outcome n (tp_inner t) x"
  proof (cases "tp_readiness t")
    case None
    then show ?thesis using tokio_send_unix_returns [OF assms, of payload "tp_inner t" w] by simp
  next
    case (Some s)
    obtain x where "tokio_send_other tk os payload s (tp_inner t) w = Some x" "tokio_outcome 0 (tp_inner t) x"
      using tokio_send_other_returns [OF assms] by blast
    with Some show ?thesis by auto
  qed
  then obtain r p w' n where x: "tokio_publication_send tk os payload t w = Some (r, t\<lparr>tp_inner := p\<rparr>, w')"
      "tokio_outcome n (tp_inner t) (r, p, w')"
    by (force simp: tokio_publication_send_def)
  show thesis
    using x(2)
    by (intro that [OF x(1)])
      (auto simp: tokio_outcome_def same_publication_def gained_def counted_def record_success_def record_errors_gain Let_def)
qed

text \<open>A result that is neither a panic nor a send that would block.\<close>

definition settled :: "tokio_tool_error failure + unit \<Rightarrow> bool" where
  "settled r \<longleftrightarrow> no_panic r \<and> (\<forall>e. r = Err (Raised (TokioSend (Send e))) \<longrightarrow> \<not> is_would_block e)"

lemma tokio_send_loop_returns:
  assumes "finitely_blocked tk os \<mu>"
  shows "\<exists>r ev t' w'. tokio_send_loop tk os a k t w = Some (r, ev, t', w') \<and> settled r \<and>
    (r = Ok () \<longrightarrow> (\<exists>reps. length reps = k \<and> ev = tokio_events a reps \<and>
       (\<forall>rep \<in> set reps. sr_destination rep = pub_destination (tp_inner t)) \<and>
       gained reps (pub_metrics (tp_inner t)) (pub_metrics (tp_inner t'))))"
proof (induction k arbitrary: t w)
  case 0
  then show ?case by (simp add: settled_def gained_def)
next
  case (Suc k)
  obtain r p w1 where x: "tokio_publication_send tk os (as_bytes (sc_payload a)) t w = Some (r, t\<lparr>tp_inner := p\<rparr>, w1)"
      "same_publication (tp_inner t) p"
      "\<And>rep. r = Inr rep \<Longrightarrow> gained [rep] (pub_metrics (tp_inner t)) (pub_metrics p) \<and>
         sr_publication_id rep = pub_id p \<and> sr_destination rep = pub_destination p"
      "\<And>e. r = Inl (Send e) \<Longrightarrow> \<not> is_would_block e"
    by (rule tokio_publication_send_returns [OF assms, of "as_bytes (sc_payload a)" t w]) blast
  show ?case
  proof (cases r)
    case (Inl e)
    then show ?thesis using x by (auto simp: settled_def)
  next
    case (Inr rep)
    let ?t = "t\<lparr>tp_inner := p\<rparr>"
    obtain r1 ev1 t2 w2 where ih: "tokio_send_loop tk os a k ?t w1 = Some (r1, ev1, t2, w2)" "settled r1"
        "r1 = Ok () \<longrightarrow> (\<exists>reps. length reps = k \<and> ev1 = tokio_events a reps \<and>
           (\<forall>rep \<in> set reps. sr_destination rep = pub_destination (tp_inner ?t)) \<and>
           gained reps (pub_metrics (tp_inner ?t)) (pub_metrics (tp_inner t2)))"
      using Suc.IH [of ?t w1] by blast
    have run: "tokio_send_loop tk os a (Suc k) t w = Some (r1,
        [TokioSent rep] @ (if \<not> sc_quiet a then [TokioPrinted rep] else []) @
        (if k > 0 \<and> sc_interval_ms a \<noteq> 0 then [TokioSlept (sc_interval_ms a)] else []) @ ev1, t2, w2)"
      using x(1) Inr ih(1) by simp
    have "\<exists>reps. length reps = Suc k \<and> [TokioSent rep] @ (if \<not> sc_quiet a then [TokioPrinted rep] else []) @
        (if k > 0 \<and> sc_interval_ms a \<noteq> 0 then [TokioSlept (sc_interval_ms a)] else []) @ ev1 = tokio_events a reps \<and>
        (\<forall>rep \<in> set reps. sr_destination rep = pub_destination (tp_inner t)) \<and>
        gained reps (pub_metrics (tp_inner t)) (pub_metrics (tp_inner t2))" if fin: "r1 = Ok ()"
    proof -
      obtain reps where reps: "length reps = k" "ev1 = tokio_events a reps"
          "\<forall>rep \<in> set reps. sr_destination rep = pub_destination p"
          "gained reps (pub_metrics p) (pub_metrics (tp_inner t2))"
        using ih(3) fin by auto
      have "k > 0 \<longleftrightarrow> reps \<noteq> []" using reps(1) by auto
      with reps x(2) x(3) [OF Inr] show ?thesis
        by (intro exI [of _ "rep # reps"]) (simp add: same_publication_def gained_def)
    qed
    with run ih(2) show ?thesis by blast
  qed
qed

text \<open>Taking the publication just added out of a context that had none.\<close>

lemma added_publication_taken:
  assumes "add_publication os c context_new w = (r, ctx, w')"
  shows "no_panic r" and "r = Ok i \<Longrightarrow> \<exists>p ctx'. take_publication i ctx = Ok (Some p, ctx') \<and> pub_config p = c \<and>
    sock_ip (pub_destination p) = pc_group c \<and> sock_port (pub_destination p) = pc_dst_port c \<and> pub_metrics p = metrics_default"
  using assms [unfolded add_publication_def] good_create_new
  by (cases rule: add_with_cases; auto simp: ctx_insert_def insert_publication_def next_publication_id_def context_new_def
      take_publication_def finish_publication_removal_def swap_remove_def)+


text \<open>The runtime that reports the socket as writable too early.\<close>

definition sample_tokio_args :: "string list" where
  "sample_tokio_args = [''mctx_tokio_send'', ''239.1.2.3'', ''5000'', ''hello'', ''2'', ''10'']"


end
