(* ===== verification/Python_Bindings.thy ===== *)
theory Python_Bindings
  imports Send_Args Context_Runs
begin

text \<open>
  The Python extension module (\<open>mctx-core-py/src/lib.rs\<close>): a context shared by reference between the
  Python objects, publications as handles that hold the shared context and an identifier, and the
  conversion of arguments, results and errors. The reference count is not modelled: the shared
  context is passed as state. Objects are confined to one thread (\<open>unsendable\<close>).
\<close>

section \<open>Errors\<close>

text \<open>The text of an exception: a rendered error, a formatted message, or the text of an I/O error.\<close>

datatype py_text = Rendered mctx_error | Formatted message | IoText io_error

datatype py_err =
    PyValueError py_text
  | PyLookupError py_text
  | PyRuntimeError py_text
  | PyNotImplementedError py_text
  | PyBlockingIOError "i32 option" py_text
  | PyOSError "i32 option" py_text

definition invalid_argument :: "message \<Rightarrow> py_err" where
  "invalid_argument m = PyValueError (Formatted m)"

definition borrow_error :: "string \<Rightarrow> py_err" where
  "borrow_error kind = PyRuntimeError (Formatted (''mctx_core {kind} is already borrowed by another operation'', [FStr kind]))"

definition publication_not_found :: "u64 \<Rightarrow> py_err" where
  "publication_not_found i = PyLookupError (Formatted (''mctx_core publication {publication_id} not found'', [FNum (uint i)]))"

definition blocking_io_error :: "io_error \<Rightarrow> py_err" where
  "blocking_io_error e = PyBlockingIOError (raw_os_error e) (IoText e)"

definition os_error :: "io_error \<Rightarrow> py_err" where
  "os_error e = PyOSError (raw_os_error e) (IoText e)"

text \<open>The last equation is for the errors the source lists as value errors.\<close>

fun mctx_error_to_py :: "mctx_error \<Rightarrow> py_err" where
  "mctx_error_to_py PublicationNotFound = PyLookupError (Rendered PublicationNotFound)"
| "mctx_error_to_py (InterfaceDiscoveryFailed m) = PyRuntimeError (Rendered (InterfaceDiscoveryFailed m))"
| "mctx_error_to_py (RawPacketTransmitUnsupported m) = PyNotImplementedError (Rendered (RawPacketTransmitUnsupported m))"
| "mctx_error_to_py (SendFailed e) = (if io_kind e = WouldBlock then blocking_io_error e else os_error e)"
| "mctx_error_to_py (RawSendFailed e) = (if io_kind e = WouldBlock then blocking_io_error e else os_error e)"
| "mctx_error_to_py (SocketCreateFailed e) = os_error e"
| "mctx_error_to_py (SocketOptionFailed e) = os_error e"
| "mctx_error_to_py (SocketBindFailed e) = os_error e"
| "mctx_error_to_py (SocketConnectFailed e) = os_error e"
| "mctx_error_to_py (SocketLocalAddrFailed e) = os_error e"
| "mctx_error_to_py (RawSocketCreateFailed e) = os_error e"
| "mctx_error_to_py (RawSocketBindFailed e) = os_error e"
| "mctx_error_to_py err = PyValueError (Rendered err)"

section \<open>Arguments\<close>

definition py_parse_ip_addr :: "string \<Rightarrow> string \<Rightarrow> py_err + ip_addr" where
  "py_parse_ip_addr raw field =
     map_err (\<lambda>_. invalid_argument (''invalid {field} IP address: {raw}'', [FStr field, FStr raw])) (parse_ip_addr raw)"

definition parse_optional_ip_addr :: "string option \<Rightarrow> string \<Rightarrow> py_err + ip_addr option" where
  "parse_optional_ip_addr raw field =
     (case raw of None \<Rightarrow> Ok None | Some r \<Rightarrow> and_then (py_parse_ip_addr r field) (\<lambda>a. Ok (Some a)))"

definition py_parse_socket_addr :: "string \<Rightarrow> string \<Rightarrow> py_err + socket_addr" where
  "py_parse_socket_addr raw field =
     map_err (\<lambda>_. invalid_argument (''invalid {field} socket address: {raw}'', [FStr field, FStr raw])) (parse_socket_addr raw)"

text \<open>The arguments of \<open>add_publication\<close>, with the defaults of its signature.\<close>

record py_add_args =
  pa_group :: string
  pa_dst_port :: u16
  pa_source :: "string option"
  pa_source_port :: "u16 option"
  pa_bind :: "string option"
  pa_interface :: "string option"
  pa_interface_index :: "u32 option"
  pa_ttl :: u32
  pa_loopback :: bool

definition py_add_args_new :: "string \<Rightarrow> u16 \<Rightarrow> py_add_args" where
  "py_add_args_new grp dst_port =
     \<lparr>pa_group = grp, pa_dst_port = dst_port, pa_source = None, pa_source_port = None, pa_bind = None,
      pa_interface = None, pa_interface_index = None, pa_ttl = 1, pa_loopback = True\<rparr>"

text \<open>The interfaces are set last: an address, then an index.\<close>

definition with_py_interfaces :: "ip_addr option \<Rightarrow> u32 option \<Rightarrow> publication_config \<Rightarrow> publication_config" where
  "with_py_interfaces interface_addr interface_index config =
     (let config = (case interface_addr of
            Some (V4 interface) \<Rightarrow> with_outgoing_interface config (OutIpv4Addr interface)
          | Some (V6 interface) \<Rightarrow> with_outgoing_interface config (OutIpv6Addr interface)
          | None \<Rightarrow> config)
      in case interface_index of Some index \<Rightarrow> with_ipv6_interface_index config index | None \<Rightarrow> config)"

definition build_publication_config :: "py_add_args \<Rightarrow> py_err + publication_config" where
  "build_publication_config a =
     (if pa_bind a \<noteq> None \<and> (pa_source a \<noteq> None \<or> pa_source_port a \<noteq> None)
      then Err (invalid_argument (''`bind` cannot be combined with `source` or `source_port`'', []))
      else if pa_interface a \<noteq> None \<and> pa_interface_index a \<noteq> None
      then Err (invalid_argument (''`interface` and `interface_index` are mutually exclusive'', []))
      else
        and_then (py_parse_ip_addr (pa_group a) ''group'') (\<lambda>grp.
        and_then (parse_optional_ip_addr (pa_source a) ''source'') (\<lambda>source_addr.
        and_then (parse_optional_ip_addr (pa_interface a) ''interface'') (\<lambda>interface_addr.
        let config = with_loopback (with_ttl (config_new grp (pa_dst_port a)) (pa_ttl a)) (pa_loopback a) in
        and_then (case pa_bind a of
            Some bind_addr \<Rightarrow> and_then (py_parse_socket_addr bind_addr ''bind'') (\<lambda>b. Ok (with_bind_addr config b))
          | None \<Rightarrow>
              let config = (case source_addr of Some s \<Rightarrow> with_source_addr config s | None \<Rightarrow> config)
              in Ok (case pa_source_port a of Some p \<Rightarrow> with_source_port config p | None \<Rightarrow> config)) (\<lambda>config.
        Ok (with_py_interfaces interface_addr (pa_interface_index a) config))))))"

section \<open>The shared context\<close>

text \<open>\<open>RefCell\<close>: what is borrowed at the moment.\<close>

datatype borrow_flag = Unborrowed | Reading nat | Writing

record 's shared_context =
  sh_inner :: "'s mctx_context"
  sh_borrow :: borrow_flag

definition shared_context_new :: "'s shared_context" where
  "shared_context_new = \<lparr>sh_inner = context_new, sh_borrow = Unborrowed\<rparr>"

type_synonym ('w, 's, 'a) py_op =
  "'s shared_context \<Rightarrow> 'w \<Rightarrow> (py_err failure + 'a) \<times> 's shared_context \<times> 'w"

text \<open>
  The guard is released when the closure is done, so the flag is then as it was. A closure on a shared
  reference may still change what the publications keep behind \<open>&self\<close>.
\<close>

definition with_context ::
  "('s mctx_context \<Rightarrow> 'w \<Rightarrow> (py_err failure + 'a) \<times> 's mctx_context \<times> 'w) \<Rightarrow> ('w, 's, 'a) py_op" where
  "with_context f sh w =
     (if sh_borrow sh = Writing then (Err (Raised (borrow_error ''context'')), sh, w)
      else case f (sh_inner sh) w of (r, ctx, w') \<Rightarrow> (r, sh\<lparr>sh_inner := ctx\<rparr>, w'))"

definition with_context_mut ::
  "('s mctx_context \<Rightarrow> 'w \<Rightarrow> (py_err failure + 'a) \<times> 's mctx_context \<times> 'w) \<Rightarrow> ('w, 's, 'a) py_op" where
  "with_context_mut f sh w =
     (if sh_borrow sh \<noteq> Unborrowed then (Err (Raised (borrow_error ''context'')), sh, w)
      else case f (sh_inner sh) w of (r, ctx, w') \<Rightarrow> (r, sh\<lparr>sh_inner := ctx\<rparr>, w'))"

definition with_publication ::
  "u64 \<Rightarrow> ('s publication \<Rightarrow> 'w \<Rightarrow> (py_err failure + 'a) \<times> 's publication \<times> 'w) \<Rightarrow> ('w, 's, 'a) py_op" where
  "with_publication i f =
     with_context (\<lambda>ctx w.
       case position (\<lambda>p. pub_id p = i) (ctx_publications ctx) of
         None \<Rightarrow> (Err (Raised (publication_not_found i)), ctx, w)
       | Some k \<Rightarrow>
           (case f (ctx_publications ctx ! k) w of (r, p', w') \<Rightarrow>
              (r, ctx\<lparr>ctx_publications := (ctx_publications ctx)[k := p']\<rparr>, w')))"

text \<open>A result of the library as a result for Python.\<close>

definition py_result :: "('a \<Rightarrow> 'b) \<Rightarrow> mctx_error + 'a \<Rightarrow> py_err failure + 'b" where
  "py_result g r = (case r of Inl e \<Rightarrow> Err (Raised (mctx_error_to_py e)) | Inr x \<Rightarrow> Ok (g x))"

section \<open>Reports\<close>

definition addr_to_tuple :: "socket_addr \<Rightarrow> string \<times> u16" where
  "addr_to_tuple addr = (display_ip (sock_ip addr), sock_port addr)"

definition opt_addr_to_tuple :: "socket_addr option \<Rightarrow> (string \<times> u16) option" where
  "opt_addr_to_tuple addr = map_option addr_to_tuple addr"

definition addr_scope_id :: "socket_addr \<Rightarrow> u32 option" where
  "addr_scope_id addr = (case addr of SockV4 _ \<Rightarrow> None | SockV6 addr \<Rightarrow> Some (sa6_scope_id addr))"

definition opt_addr_scope_id :: "socket_addr option \<Rightarrow> u32 option" where
  "opt_addr_scope_id addr = Option.bind addr addr_scope_id"

record py_send_report =
  py_publication_id :: u64
  py_destination_addr :: string
  py_destination_port :: u16
  py_destination_scope_id :: "u32 option"
  py_local_addr :: "(string \<times> u16) option"
  py_local_scope_id :: "u32 option"
  py_source_addr :: "string option"
  py_bytes_sent :: nat

definition py_send_report_from :: "send_report \<Rightarrow> py_send_report" where
  "py_send_report_from report =
     \<lparr>py_publication_id = sr_publication_id report,
      py_destination_addr = display_ip (sock_ip (sr_destination report)),
      py_destination_port = sock_port (sr_destination report),
      py_destination_scope_id = addr_scope_id (sr_destination report),
      py_local_addr = opt_addr_to_tuple (sr_local_addr report),
      py_local_scope_id = opt_addr_scope_id (sr_local_addr report),
      py_source_addr = map_option display_ip (sr_source_addr report),
      py_bytes_sent = sr_bytes_sent report\<rparr>"

definition py_report_destination :: "py_send_report \<Rightarrow> string \<times> u16" where
  "py_report_destination report = (py_destination_addr report, py_destination_port report)"

section \<open>Methods of the context\<close>

text \<open>A new publication object has the identifier as its only own field.\<close>

definition py_publication_count :: "('w, 's, nat) py_op" where
  "py_publication_count = with_context (\<lambda>ctx w. (Ok (publication_count ctx), ctx, w))"

definition py_add_publication :: "('w, 's) os_api \<Rightarrow> py_add_args \<Rightarrow> ('w, 's, u64) py_op" where
  "py_add_publication os a sh w =
     (case build_publication_config a of
        Inl e \<Rightarrow> (Err (Raised e), sh, w)
      | Inr config \<Rightarrow>
          with_context_mut (\<lambda>ctx w.
            case add_publication os config ctx w of
              (Inl f, ctx', w') \<Rightarrow> (Err (failure_map mctx_error_to_py f), ctx', w')
            | (Inr i, ctx', w') \<Rightarrow> (Ok i, ctx', w')) sh w)"

definition py_get_publication :: "u64 \<Rightarrow> ('w, 's, u64) py_op" where
  "py_get_publication i =
     with_context (\<lambda>ctx w. (if contains_publication ctx i then Ok i else Err (Raised (publication_not_found i)), ctx, w))"

definition py_remove_publication :: "u64 \<Rightarrow> ('w, 's, bool) py_op" where
  "py_remove_publication i =
     with_context_mut (\<lambda>ctx w.
       case remove_publication i ctx of
         Inl f \<Rightarrow> (Err (failure_map mctx_error_to_py f), ctx, w)
       | Inr (b, ctx') \<Rightarrow> (Ok b, ctx', w))"

definition py_context_send :: "('w, 's) os_api \<Rightarrow> u64 \<Rightarrow> bytes \<Rightarrow> ('w, 's, py_send_report) py_op" where
  "py_context_send os i payload =
     with_context (\<lambda>ctx w.
       case context_send os i payload ctx w of (r, ctx', w') \<Rightarrow> (py_result py_send_report_from r, ctx', w'))"

section \<open>Methods of a publication\<close>

text \<open>A getter reads the publication with the identifier of the handle.\<close>

definition py_getter :: "('s publication \<Rightarrow> 'a) \<Rightarrow> u64 \<Rightarrow> ('w, 's, 'a) py_op" where
  "py_getter g i = with_publication i (\<lambda>p w. (Ok (g p), p, w))"

definition py_group :: "u64 \<Rightarrow> ('w, 's, string) py_op" where
  "py_group = py_getter (\<lambda>p. display_ip (pc_group (pub_config p)))"

definition py_dst_port :: "u64 \<Rightarrow> ('w, 's, u16) py_op" where
  "py_dst_port = py_getter (\<lambda>p. pc_dst_port (pub_config p))"

definition family_name :: "address_family \<Rightarrow> string" where
  "family_name family = (case family of Ipv4 \<Rightarrow> ''ipv4'' | Ipv6 \<Rightarrow> ''ipv6'')"

definition py_family :: "u64 \<Rightarrow> ('w, 's, string) py_op" where
  "py_family = py_getter (\<lambda>p. family_name (config_family (pub_config p)))"

definition py_configured_source_addr :: "u64 \<Rightarrow> ('w, 's, string option) py_op" where
  "py_configured_source_addr = py_getter (\<lambda>p. map_option display_ip (pc_source_addr (pub_config p)))"

definition py_source_port :: "u64 \<Rightarrow> ('w, 's, u16 option) py_op" where
  "py_source_port = py_getter (\<lambda>p. pc_source_port (pub_config p))"

definition py_outgoing_interface :: "u64 \<Rightarrow> ('w, 's, string option) py_op" where
  "py_outgoing_interface = py_getter (\<lambda>p.
     case pc_outgoing_interface (pub_config p) of
       Some (OutIpv4Addr interface) \<Rightarrow> Some (display_ip (V4 interface))
     | Some (OutIpv6Addr interface) \<Rightarrow> Some (display_ip (V6 interface))
     | _ \<Rightarrow> None)"

definition py_outgoing_interface_index :: "u64 \<Rightarrow> ('w, 's, u32 option) py_op" where
  "py_outgoing_interface_index = py_getter (\<lambda>p.
     case pc_outgoing_interface (pub_config p) of Some (OutIpv6Index index) \<Rightarrow> Some index | _ \<Rightarrow> None)"

definition py_ttl :: "u64 \<Rightarrow> ('w, 's, u32) py_op" where
  "py_ttl = py_getter (\<lambda>p. pc_ttl (pub_config p))"

definition py_loopback :: "u64 \<Rightarrow> ('w, 's, bool) py_op" where
  "py_loopback = py_getter (\<lambda>p. pc_loopback (pub_config p))"

definition py_destination :: "u64 \<Rightarrow> ('w, 's, string \<times> u16) py_op" where
  "py_destination = py_getter (\<lambda>p. addr_to_tuple (pub_destination p))"

definition py_pub_destination_scope_id :: "u64 \<Rightarrow> ('w, 's, u32 option) py_op" where
  "py_pub_destination_scope_id = py_getter (\<lambda>p. addr_scope_id (pub_destination p))"

definition py_fileno :: "u64 \<Rightarrow> ('w, 's, 's) py_op" where
  "py_fileno = py_getter pub_socket"

text \<open>Methods that call the publication.\<close>

definition py_call ::
  "('s publication \<Rightarrow> 'w \<Rightarrow> (mctx_error + 'a) \<times> 's publication \<times> 'w) \<Rightarrow> ('a \<Rightarrow> 'b) \<Rightarrow> u64 \<Rightarrow> ('w, 's, 'b) py_op" where
  "py_call f g i = with_publication i (\<lambda>p w. case f p w of (r, p', w') \<Rightarrow> (py_result g r, p', w'))"

definition py_pub_local_addr :: "('w, 's) os_api \<Rightarrow> u64 \<Rightarrow> ('w, 's, string \<times> u16) py_op" where
  "py_pub_local_addr os = py_call (local_addr os) addr_to_tuple"

definition py_pub_local_scope_id :: "('w, 's) os_api \<Rightarrow> u64 \<Rightarrow> ('w, 's, u32 option) py_op" where
  "py_pub_local_scope_id os = py_call (local_addr os) addr_scope_id"

definition py_pub_source_addr :: "('w, 's) os_api \<Rightarrow> u64 \<Rightarrow> ('w, 's, string) py_op" where
  "py_pub_source_addr os = py_call (source_addr os) display_ip"

definition py_announce_tuple :: "('w, 's) os_api \<Rightarrow> u64 \<Rightarrow> ('w, 's, string \<times> string \<times> u16) py_op" where
  "py_announce_tuple os = py_call (announce_tuple os) (\<lambda>(source, grp, port). (display_ip source, display_ip grp, port))"

definition py_send :: "('w, 's) os_api \<Rightarrow> u64 \<Rightarrow> bytes \<Rightarrow> ('w, 's, py_send_report) py_op" where
  "py_send os i payload = py_call (\<lambda>p. publication_send os p payload) py_send_report_from i"

definition py_remove :: "u64 \<Rightarrow> ('w, 's, bool) py_op" where
  "py_remove = py_remove_publication"

end
