(* ===== verification/Python_Bindings_Facts.thy ===== *)
theory Python_Bindings_Facts
  imports Python_Bindings
begin

text \<open>
  Properties of the Python extension module: which exceptions errors become, that its arguments give the
  configuration the command line tools give, and that a publication object stays attached to
  the publication it was made for, or to none.
\<close>

section \<open>Errors\<close>

text \<open>The exception for a send that would block is raised for exactly these errors.\<close>

lemma blocking_iff: "(\<exists>code t. mctx_error_to_py e = PyBlockingIOError code t) \<longleftrightarrow> is_would_block e"
  by (cases e rule: mctx_error_to_py.cases) (simp_all add: blocking_io_error_def os_error_def)

lemma no_panic_py_result [simp]: "no_panic (py_result g r)"
  by (cases r) (simp_all add: py_result_def)

section \<open>Arguments\<close>

text \<open>The keyword arguments with the texts of a command line.\<close>

definition py_args_of :: "send_cli_args \<Rightarrow> py_add_args" where
  "py_args_of a =
     \<lparr>pa_group = show_ip (sc_group a), pa_dst_port = sc_dst_port a, pa_source = map_option show_ip (sc_source a),
      pa_source_port = sc_source_port a, pa_bind = map_option show_socket_addr (sc_bind_addr a),
      pa_interface = map_option show_ip (sc_interface a), pa_interface_index = sc_interface_index a,
      pa_ttl = (case sc_ttl a of Some t \<Rightarrow> t | None \<Rightarrow> 1), pa_loopback = sc_loopback a\<rparr>"

lemma parse_shown_ip [simp]: "py_parse_ip_addr (show_ip a) field = Ok a"
  by (simp add: py_parse_ip_addr_def)

lemma parse_shown_optional [simp]: "parse_optional_ip_addr (map_option show_ip a) field = Ok a"
  by (cases a) (simp_all add: parse_optional_ip_addr_def)

lemma parse_absent [simp]: "parse_optional_ip_addr None field = Ok None"
  by (simp add: parse_optional_ip_addr_def)

text \<open>
  C32. The extension module and the command line tools agree: for every consistent set of arguments the
  command line with these values and the Python call with the same texts and numbers give the same
  configuration.
\<close>

theorem bindings_configure_as_tools:
  assumes "args_consistent a"
  shows "parse_send_cli_args (program # command_line a) = Ok a \<and>
    build_publication_config (py_args_of a) = Ok (configured a)"
proof -
  have b: "sc_bind_addr a = None \<or> sc_source a = None \<and> sc_source_port a = None"
    "sc_interface a = None \<or> sc_interface_index a = None" "pred_option no_flowinfo (sc_bind_addr a)"
    using assms by (auto simp: args_consistent_def elim: option.pred_mono_strong)
  let ?config = "with_loopback (with_ttl (config_new (sc_group a) (sc_dst_port a)) (case sc_ttl a of Some t \<Rightarrow> t | None \<Rightarrow> 1)) (sc_loopback a)"
  let ?bound = "case sc_bind_addr a of
      Some b \<Rightarrow> with_bind_addr ?config b
    | None \<Rightarrow> (let config = (case sc_source a of Some s \<Rightarrow> with_source_addr ?config s | None \<Rightarrow> ?config)
              in case sc_source_port a of Some p \<Rightarrow> with_source_port config p | None \<Rightarrow> config)"
  have read: "\<And>s. sc_bind_addr a = Some s \<Longrightarrow> parse_socket_addr (show_socket_addr s) = Inr s" using b(3) by simp
  have "build_publication_config (py_args_of a) = Ok (with_py_interfaces (sc_interface a) (sc_interface_index a) ?bound)"
    using b(1,2) read
    by (cases "sc_bind_addr a")
      (simp_all add: build_publication_config_def py_args_of_def py_parse_socket_addr_def Let_def)
  moreover have "with_py_interfaces (sc_interface a) (sc_interface_index a) ?bound = configured a"
    using b(1) by (cases "sc_bind_addr a"; cases "sc_ttl a"; cases "sc_source a"; cases "sc_source_port a")
      (auto simp: configured_def with_py_interfaces_def py_args_of_def config_builders Let_def
         split: option.split ip_addr.split socket_addr.split)
  ultimately have "build_publication_config (py_args_of a) = Ok (configured a)" by simp
  with command_line_parsed [OF assms] show ?thesis by blast
qed

definition sample_py_args :: send_cli_args where
  "sample_py_args = \<lparr>sc_group = V4 (Ipv4Addr 239 1 2 3), sc_dst_port = 5000, sc_payload = ''hello'', sc_count = 1,
     sc_interval_ms = 0, sc_source = Some (V4 (Ipv4Addr 192 0 2 1)), sc_bind_addr = None, sc_source_port = Some 4000,
     sc_interface = None, sc_interface_index = None, sc_ttl = Some 8, sc_loopback = False, sc_quiet = True\<rparr>"

theorem bindings_configure_as_tools_witness:
  "build_publication_config (py_args_of sample_py_args) = Ok (configured sample_py_args) \<and>
   pc_source_port (configured sample_py_args) = Some 4000 \<and> pc_ttl (configured sample_py_args) = 8"
proof -
  have "args_consistent sample_py_args" by (simp add: args_consistent_def sample_py_args_def)
  from bindings_configure_as_tools [OF this] have "build_publication_config (py_args_of sample_py_args) = Ok (configured sample_py_args)"
    by blast
  moreover have "pc_source_port (configured sample_py_args) = Some 4000" "pc_ttl (configured sample_py_args) = 8" by code_simp+
  ultimately show ?thesis by blast
qed

section \<open>What calls leave of the context\<close>

text \<open>A call on a publication changes nothing but what it keeps behind \<open>&self\<close>.\<close>

definition keeps_pub :: "('s publication \<Rightarrow> 'w \<Rightarrow> (mctx_error + 'a) \<times> 's publication \<times> 'w) \<Rightarrow> bool" where
  "keeps_pub f \<longleftrightarrow> (\<forall>p w r p' w'. f p w = (r, p', w') \<longrightarrow> same_pub p p')"

lemma keeps_local_addr: "keeps_pub (local_addr os)"
  by (auto simp: keeps_pub_def local_addr_def cached_local_addr_def same_pub_def split: option.splits prod.splits sum.splits)

lemma keeps_source_addr: "keeps_pub (source_addr os)"
  using keeps_local_addr [of os] by (auto simp: keeps_pub_def source_addr_def split: prod.splits)

lemma keeps_announce: "keeps_pub (announce_tuple os)"
  using keeps_source_addr [of os] by (auto simp: keeps_pub_def announce_tuple_def split: prod.splits)

lemma keeps_send: "keeps_pub (\<lambda>p. publication_send os p payload)"
  by (auto simp: keeps_pub_def intro: send_same_pub)

text \<open>Everything but the counters and the cached addresses is as before.\<close>

definition same_context :: "'s shared_context \<Rightarrow> 's shared_context \<Rightarrow> bool" where
  "same_context sh sh' \<longleftrightarrow> sh_borrow sh' = sh_borrow sh \<and> ctx_next_id (sh_inner sh') = ctx_next_id (sh_inner sh) \<and>
     list_all2 same_pub (ctx_publications (sh_inner sh)) (ctx_publications (sh_inner sh'))"

lemma same_pubs_refl [simp]: "list_all2 same_pub ps ps"
  by (simp add: list.rel_refl)

lemma same_pubs_update:
  assumes "position (\<lambda>p. pub_id p = i) ps = Some k" and "same_pub (ps ! k) p'"
  shows "list_all2 same_pub ps (ps[k := p'])"
  using position_Some [OF assms(1)] assms(2) by (intro update_same_pub) blast+

lemma py_call_same:
  assumes "keeps_pub f" and "py_call f g i sh w = (r, sh', w')"
  shows "same_context sh sh'"
proof (cases "position (\<lambda>p. pub_id p = i) (ctx_publications (sh_inner sh))")
  case None
  then show ?thesis using assms(2)
    by (auto simp: py_call_def with_publication_def with_context_def same_context_def split: if_splits)
next
  case (Some k)
  obtain q p' w1 where q: "f (ctx_publications (sh_inner sh) ! k) w = (q, p', w1)" by (metis prod_cases3)
  then have "same_pub (ctx_publications (sh_inner sh) ! k) p'" using assms(1) unfolding keeps_pub_def by blast
  then show ?thesis using assms(2) Some q same_pubs_update [OF Some]
    by (auto simp: py_call_def with_publication_def with_context_def same_context_def split: if_splits)
qed

lemma py_context_send_same:
  assumes "py_context_send os i payload sh w = (r, sh', w')"
  shows "same_context sh sh'"
proof (cases "position (\<lambda>p. pub_id p = i) (ctx_publications (sh_inner sh))")
  case None
  then show ?thesis using assms
    by (auto simp: py_context_send_def context_send_def with_context_def same_context_def split: if_splits)
next
  case (Some k)
  obtain q p' w1 where q: "publication_send os (ctx_publications (sh_inner sh) ! k) payload w = (q, p', w1)" by (metis prod_cases3)
  then show ?thesis using assms Some same_pubs_update [OF Some send_same_pub [OF q]]
    by (auto simp: py_context_send_def context_send_def with_context_def same_context_def split: if_splits)
qed

section \<open>Publication objects\<close>

text \<open>
  The contexts reachable from Python after \<open>n\<close> attempts to add a publication, with the identifier and the
  configuration of every publication object that was handed out.
\<close>

inductive py_run ::
  "('w, 's) os_api \<Rightarrow> nat \<Rightarrow> (u64 \<times> publication_config) list \<Rightarrow> 's shared_context \<Rightarrow> bool" for os where
  py_start: "py_run os 0 [] shared_context_new"
| py_added: "py_run os n hs sh \<Longrightarrow> build_publication_config a = Ok c \<Longrightarrow> py_add_publication os a sh w = (Ok i, sh', w') \<Longrightarrow>
    py_run os (Suc n) ((i, c) # hs) sh'"
| py_refused: "py_run os n hs sh \<Longrightarrow> py_add_publication os a sh w = (Err f, sh', w') \<Longrightarrow> py_run os (Suc n) hs sh'"
| py_removed: "py_run os n hs sh \<Longrightarrow> py_remove_publication i sh (w :: 'w) = (b, sh', w') \<Longrightarrow> py_run os n hs sh'"
| py_sent: "py_run os n hs sh \<Longrightarrow> py_context_send os i payload sh w = (r, sh', w') \<Longrightarrow> py_run os n hs sh'"
| py_handle_sent: "py_run os n hs sh \<Longrightarrow> py_send os i payload sh w = (r, sh', w') \<Longrightarrow> py_run os n hs sh'"
| py_local_read: "py_run os n hs sh \<Longrightarrow> py_pub_local_addr os i sh w = (a, sh', w') \<Longrightarrow> py_run os n hs sh'"
| py_scope_read: "py_run os n hs sh \<Longrightarrow> py_pub_local_scope_id os i sh w = (z, sh', w') \<Longrightarrow> py_run os n hs sh'"
| py_source_read: "py_run os n hs sh \<Longrightarrow> py_pub_source_addr os i sh w = (s, sh', w') \<Longrightarrow> py_run os n hs sh'"
| py_announced: "py_run os n hs sh \<Longrightarrow> py_announce_tuple os i sh w = (t, sh', w') \<Longrightarrow> py_run os n hs sh'"

definition py_ok :: "nat \<Rightarrow> (u64 \<times> publication_config) list \<Rightarrow> 's shared_context \<Rightarrow> bool" where
  "py_ok n hs sh \<longleftrightarrow> sh_borrow sh = Unborrowed \<and> ids_bounded n (sh_inner sh) \<and> distinct (map fst hs) \<and>
     (\<forall>h \<in> set hs. fst h < ctx_next_id (sh_inner sh)) \<and>
     (\<forall>p \<in> set (ctx_publications (sh_inner sh)). (pub_id p, pub_config p) \<in> set hs \<and>
        sock_ip (pub_destination p) = pc_group (pub_config p) \<and> sock_port (pub_destination p) = pc_dst_port (pub_config p))"

lemma list_all2_member: "list_all2 P xs ys \<Longrightarrow> y \<in> set ys \<Longrightarrow> \<exists>x \<in> set xs. P x y"
  by (induction rule: list_all2_induct) auto

lemma same_context_ok:
  assumes "py_ok n hs sh" and "same_context sh sh'"
  shows "py_ok n hs sh'"
proof -
  have same: "list_all2 same_pub (ctx_publications (sh_inner sh)) (ctx_publications (sh_inner sh'))"
    using assms(2) by (simp add: same_context_def)
  have "ids_ok (sh_inner sh')"
    using in_place_ok [OF same refl] assms
    by (auto simp: py_ok_def ids_bounded_def same_context_def ids_ok_def same_pubs(1) [OF same] dest!: list_all2_member [OF same])
      (auto simp: same_pub_def)
  moreover have "(pub_id p, pub_config p) \<in> set hs \<and>
        sock_ip (pub_destination p) = pc_group (pub_config p) \<and> sock_port (pub_destination p) = pc_dst_port (pub_config p)"
    if "p \<in> set (ctx_publications (sh_inner sh'))" for p
    using list_all2_member [OF same that] assms(1) by (auto simp: py_ok_def same_pub_def)
  ultimately show ?thesis using assms by (auto simp: py_ok_def same_context_def ids_bounded_def)
qed

lemma py_remove_ok:
  assumes "py_ok n hs sh" and "py_remove_publication i sh w = (r, sh', w')"
  shows "py_ok n hs sh' \<and> no_panic r"
proof -
  have ids: "ids_ok (sh_inner sh)" "sh_borrow sh = Unborrowed" using assms(1) by (auto simp: py_ok_def ids_bounded_def)
  from take_publication_Ok [OF ids(1), of i] obtain ctx' where t:
      "take_publication i (sh_inner sh) = Inr (get_publication (sh_inner sh) i, ctx')" "ids_ok ctx'"
      "get_publication ctx' = (get_publication (sh_inner sh))(i := None)" "ctx_next_id ctx' = ctx_next_id (sh_inner sh)" by blast
  then have res: "sh' = sh\<lparr>sh_inner := ctx'\<rparr>" "no_panic r"
    using assms(2) ids(2) by (auto simp: py_remove_publication_def with_context_mut_def remove_publication_def)
  have "p \<in> set (ctx_publications (sh_inner sh))" if "p \<in> set (ctx_publications ctx')" for p
  proof -
    have "get_publication ctx' (pub_id p) = Some p"
      using that t(2) find_key [of pub_id "ctx_publications ctx'" "pub_id p" p] by (simp add: get_publication_def ids_ok_def)
    then have "get_publication (sh_inner sh) (pub_id p) = Some p" using t(3) by (auto split: if_splits)
    then show ?thesis
      using ids(1) find_key [of pub_id "ctx_publications (sh_inner sh)" "pub_id p" p] by (simp add: get_publication_def ids_ok_def)
  qed
  then show ?thesis using assms(1) t(2,4) res by (auto simp: py_ok_def ids_bounded_def)
qed

lemma py_add_ok:
  assumes "py_ok n hs sh" and "n + 2 < 2 ^ 64" and "py_add_publication os a sh w = (r, sh', w')"
  shows "no_panic r \<and> (\<forall>f. r = Err f \<longrightarrow> py_ok (Suc n) hs sh') \<and>
    (\<forall>i c. r = Ok i \<longrightarrow> build_publication_config a = Ok c \<longrightarrow> py_ok (Suc n) ((i, c) # hs) sh')"
proof (cases "build_publication_config a")
  case (Inl e)
  then show ?thesis using assms(1,3) by (auto simp: py_add_publication_def py_ok_def ids_bounded_def)
next
  case (Inr c)
  have b: "ids_bounded n (sh_inner sh)" "sh_borrow sh = Unborrowed" using assms(1) by (auto simp: py_ok_def)
  obtain q ctx' w1 where add: "add_publication os c (sh_inner sh) w = (q, ctx', w1)" by (metis prod_cases3)
  note add' = add [unfolded add_publication_def]
  note ids = add_with_ids [OF add' good_create_new b(1) assms(2)]
  have room: "ctx_next_id (sh_inner sh) \<noteq> - 1"
    using b(1) assms(2) by (auto simp: ids_bounded_def unsigned_minus_1_eq_mask mask_eq_exp_minus_1)
  note less = less_word_plus_one [OF room]
  from add' good_create_new show ?thesis
  proof (cases rule: add_with_cases)
    case dup
    then show ?thesis using assms(1,3) Inr add b
      by (auto simp: py_add_publication_def with_context_mut_def py_ok_def ids_bounded_def)
  next
    case (failed e)
    then show ?thesis using assms(1,3) Inr add b ids less
      by (auto simp: py_add_publication_def with_context_mut_def py_ok_def next_publication_id_def dest: bspec)
  next
    case (added p)
    then show ?thesis using assms(1,3) Inr add b ids less
      by (auto simp: py_add_publication_def with_context_mut_def py_ok_def ctx_insert_def insert_publication_def
          next_publication_id_def)
  qed
qed

lemma py_run_ok: "py_run os n hs sh \<Longrightarrow> n + 1 < 2 ^ 64 \<Longrightarrow> py_ok n hs sh"
proof (induction rule: py_run.induct)
  case py_start
  show ?case by (simp add: py_ok_def shared_context_new_def ids_bounded_def ids_ok_def context_new_def)
next
  case (py_added n hs sh a c w i sh' w')
  then show ?case using py_add_ok [of n hs sh os a w "Ok i"] by auto
next
  case (py_refused n hs sh a w f sh' w')
  then show ?case using py_add_ok [of n hs sh os a w "Err f"] by auto
next
  case (py_removed n hs sh i w b sh' w')
  then show ?case using py_remove_ok [of n hs sh i w b sh' w'] by simp
next
  case (py_sent n hs sh i payload w r sh' w')
  then show ?case using same_context_ok [of n hs sh] py_context_send_same [of os i payload sh w r sh' w'] by blast
next
  case (py_handle_sent n hs sh i payload w r sh' w')
  then show ?case using same_context_ok [of n hs sh sh'] py_call_same [OF keeps_send, of os payload _ i sh w r sh' w'] by (simp add: py_send_def)
next
  case (py_local_read n hs sh i w a sh' w')
  then show ?case using same_context_ok [of n hs sh sh'] py_call_same [OF keeps_local_addr, of os _ i sh w a sh' w'] by (simp add: py_pub_local_addr_def)
next
  case (py_scope_read n hs sh i w z sh' w')
  then show ?case using same_context_ok [of n hs sh sh'] py_call_same [OF keeps_local_addr, of os _ i sh w z sh' w'] by (simp add: py_pub_local_scope_id_def)
next
  case (py_source_read n hs sh i w s sh' w')
  then show ?case using same_context_ok [of n hs sh sh'] py_call_same [OF keeps_source_addr, of os _ i sh w s sh' w'] by (simp add: py_pub_source_addr_def)
next
  case (py_announced n hs sh i w t sh' w')
  then show ?case using same_context_ok [of n hs sh sh'] py_call_same [OF keeps_announce, of os _ i sh w t sh' w'] by (simp add: py_announce_tuple_def)
qed

lemma handle_reads:
  assumes "sh_borrow sh = Unborrowed"
  shows "py_getter g i sh w = (case get_publication (sh_inner sh) i of
      None \<Rightarrow> Err (Raised (publication_not_found i)) | Some p \<Rightarrow> Ok (g p), sh, w)"
  using assms
  by (auto simp: py_getter_def with_publication_def with_context_def get_publication_def find_position split: option.split)

lemma handle_sends:
  assumes "sh_borrow sh = Unborrowed"
  shows "fst (py_send os i payload sh w) = (case get_publication (sh_inner sh) i of
      None \<Rightarrow> Err (Raised (publication_not_found i)) | Some p \<Rightarrow> py_result py_send_report_from (fst (publication_send os p payload w)))"
  using assms
  by (auto simp: py_send_def py_call_def with_publication_def with_context_def get_publication_def find_position
      split: option.split prod.split)

text \<open>What a send through a handle reports, when the handle finds the publication it was made for.\<close>

lemma handle_send_report:
  assumes "sh_borrow sh = Unborrowed"
    and found: "\<And>p. get_publication (sh_inner sh) i = Some p \<Longrightarrow> pub_id p = i \<and> pub_config p = c \<and>
      sock_ip (pub_destination p) = pc_group c \<and> sock_port (pub_destination p) = pc_dst_port c"
  shows "case fst (py_send os i payload sh w) of
       Inr rep \<Rightarrow> py_publication_id rep = i \<and> py_report_destination rep = (display_ip (pc_group c), pc_dst_port c)
     | Inl f \<Rightarrow> f \<noteq> Panicked"
proof (cases "get_publication (sh_inner sh) i")
  case None
  then show ?thesis by (simp add: handle_sends [OF assms(1)])
next
  case (Some p)
  obtain r p' w' where send: "publication_send os p payload w = (r, p', w')" by (metis prod_cases3)
  show ?thesis
  proof (cases r)
    case (Inl e)
    then show ?thesis using Some send by (simp add: handle_sends [OF assms(1)] py_result_def)
  next
    case (Inr rep)
    from publication_send_effect [OF send] Inr found [OF Some]
    have "sr_publication_id rep = i" "sock_ip (sr_destination rep) = pc_group c" "sock_port (sr_destination rep) = pc_dst_port c"
      by auto
    then show ?thesis using Some send Inr
      by (simp add: handle_sends [OF assms(1)] py_result_def py_send_report_from_def py_report_destination_def)
  qed
qed



end
